theory Spec2Isabelle
  imports Main "HOL-Library.Char_ord" "HOL-Library.List_Lexorder" "HOL-Library.Product_Lexorder"
    "HOL-Library.Multiset"
begin

section \<open>Python values shared by both scripts\<close>

text \<open>
  Exceptions are values. Every \<^verbatim>\<open>raise\<close>, failed \<^verbatim>\<open>assert\<close>, failed index and failed
  dictionary access of the two scripts is a branch that returns \<open>Inl\<close> of one of these.
  \<open>KeyError\<close> and \<open>NameError\<close> carry the key and the name that was looked up.
\<close>

datatype error =
    IndexError
  | KeyError string
  | ValueError
  | AssertionError
  | NameError string
  | TypeError
  | AttributeError
  | ZeroDivisionError

text \<open>
  A Python \<^verbatim>\<open>str\<close> is a list of code points; the model has the code points below 256
  (a \<open>char\<close> is read as the Latin-1 character of that number).
\<close>

definition lstrip :: "string \<Rightarrow> string \<Rightarrow> string" where
  "lstrip chars s = dropWhile (\<lambda>c. c \<in> set chars) s"

definition rstrip :: "string \<Rightarrow> string \<Rightarrow> string" where
  "rstrip chars s = rev (dropWhile (\<lambda>c. c \<in> set chars) (rev s))"

definition strip :: "string \<Rightarrow> string \<Rightarrow> string" where
  "strip chars s = lstrip chars (rstrip chars s)"

definition startswith :: "string \<Rightarrow> string \<Rightarrow> bool" where
  "startswith s p = (take (length p) s = p)"

definition endswith :: "string \<Rightarrow> string \<Rightarrow> bool" where
  "endswith s p = (length p \<le> length s \<and> drop (length s - length p) s = p)"

text \<open>\<^verbatim>\<open>s[i]\<close> for a non-negative index: IndexError past the end.\<close>

definition getitem :: "'a list \<Rightarrow> nat \<Rightarrow> error + 'a" where
  "getitem xs i = (if i < length xs then Inr (xs ! i) else Inl IndexError)"

text \<open>\<^verbatim>\<open>c.isupper()\<close> of a one-character string: the upper-case letters of Latin-1.\<close>

definition isupper :: "char \<Rightarrow> bool" where
  "isupper c =
     (let n = (of_char c :: nat)
      in (65 \<le> n \<and> n \<le> 90) \<or> (192 \<le> n \<and> n \<le> 214) \<or> (216 \<le> n \<and> n \<le> 222))"

text \<open>
  \<^verbatim>\<open>xs.sort(key=k, reverse=True)\<close>: a stable sort in descending key order, elements of
  equal key keeping their original order. \<open>sort_key\<close> is the stable ascending sort.
\<close>

definition sort_reverse :: "('a \<Rightarrow> 'k::linorder) \<Rightarrow> 'a list \<Rightarrow> 'a list" where
  "sort_reverse k xs = rev (sort_key k (rev xs))"

section \<open>stub-outliner.py: type heuristics\<close>

text \<open>The dictionary \<^verbatim>\<open>type_to_arg\<close>, in its insertion order.\<close>

definition type_to_arg :: "(string \<times> string list) list" where
  "type_to_arg =
    [(''int'', [''x*'', ''y*'', ''h*'', ''width'', ''height'']),
     (''wx._WindowID'', [''windid'', ''winid'']),
     (''PointLike'', [''pt*'', ''point'']),
     (''SizeLike'', [''dim'', ''sz'', ''size'']),
     (''RectLike'', [''rect'']),
     (''wx.Bitmap'', [''bitmap*'', ''bmp*'', ''*Bitmap'']),
     (''wx.Window'', [''window'']),
     (''wx._EventType'', [''*eventType'', ''evtType'']),
     (''wx.DC'', [''dc'']),
     (''String'', [''label'', ''text'', ''str'', ''string'']),
     (''Any'', [''clientData'']),
     (''wx.Icon'', [''icon'']),
     (''wx.Colour'', [''*Colour'', ''colour'']),
     (''wx.Font'', [''font'']),
     (''wx.ImageList'', [''imageList''])]"

text \<open>\<^verbatim>\<open>len\<close> of a 2-tuple, the sort key of \<^verbatim>\<open>patern_and_type.sort(key=len, reverse=True)\<close>.\<close>

definition len_tuple2 :: "'a \<times> 'b \<Rightarrow> nat" where
  "len_tuple2 p = 2"

text \<open>
  \<^verbatim>\<open>patern_and_type = [(p, t) for t, v in type_to_arg.items() for p in v]\<close>
  followed by the sort.
\<close>

definition patern_and_type :: "(string \<times> string) list" where
  "patern_and_type =
     sort_reverse len_tuple2 (concat (map (\<lambda>(t, v). map (\<lambda>p. (p, t)) v) type_to_arg))"

text \<open>
  The three disjuncts of \<^verbatim>\<open>match(string, patern)\<close>. Python's \<^verbatim>\<open>or\<close> evaluates
  them left to right and stops at the first true one; only the third can raise, at
  \<^verbatim>\<open>string[len(stem)]\<close>.
\<close>

definition match_exact :: "string \<Rightarrow> string \<Rightarrow> bool" where
  "match_exact string patern = (string = strip ''*'' patern)"

definition match_leading :: "string \<Rightarrow> string \<Rightarrow> bool" where
  "match_leading string patern =
     (startswith patern ''*'' \<and> endswith string (strip ''*'' patern))"

definition match_trailing :: "string \<Rightarrow> string \<Rightarrow> error + bool" where
  "match_trailing string patern =
     (let stem = strip ''*'' patern
      in if endswith patern ''*'' \<and> startswith string stem
         then (case getitem string (length stem) of
                 Inl e \<Rightarrow> Inl e
               | Inr c \<Rightarrow> Inr (isupper c))
         else Inr False)"

definition match :: "string \<Rightarrow> string \<Rightarrow> error + bool" where
  "match string patern =
     (if match_exact string patern then Inr True
      else if match_leading string patern then Inr True
      else match_trailing string patern)"

text \<open>The table \<^verbatim>\<open>convert_arg_type\<close>.\<close>

definition convert_arg_type :: "(string \<times> string) list" where
  "convert_arg_type =
    [(''str'', ''String''),
     (''bytes'', ''String''),
     (''list'', ''Sequence[]''),
     (''StandardID'', ''wx._WindowID''),
     (''Point'', ''PointLike''),
     (''Size'', ''SizeLike''),
     (''Rect'', ''RectLike'')]"

text \<open>
  What the script asks of the world outside it: the \<^verbatim>\<open>wx\<close> package and
  \<^verbatim>\<open>ast.literal_eval\<close>. A runtime type is seen through \<^verbatim>\<open>__name__\<close> and
  \<^verbatim>\<open>__module__\<close>.
  \<^item> \<open>wx_getattr s\<close>: the type of \<^verbatim>\<open>getattr(wx, s, None)\<close>, \<open>None\<close> when the value is
    \<^verbatim>\<open>None\<close>;
  \<^item> \<open>literal_eval s\<close>: the type of \<^verbatim>\<open>ast.literal_eval(s)\<close>, \<open>None\<close> when it raises or
    the value is \<^verbatim>\<open>None\<close>;
  \<^item> \<open>wx_hasattr s\<close>: \<^verbatim>\<open>hasattr(wx, s)\<close>;
  \<^item> \<open>object_dict\<close>: the names in \<^verbatim>\<open>object.__dict__\<close>;
  \<^item> \<open>deafult_signatures\<close>: the four strings that \<^verbatim>\<open>signature_using_inspect\<close> gives for
    \<^verbatim>\<open>object.__init__\<close> and \<^verbatim>\<open>wx.Abort\<close>, the set of that name.
\<close>

record pytype =
  tp_name :: string
  tp_module :: string

record env =
  wx_getattr :: "string \<Rightarrow> pytype option"
  literal_eval :: "string \<Rightarrow> pytype option"
  wx_hasattr :: "string \<Rightarrow> bool"
  object_dict :: "string list"
  deafult_signatures :: "string list"

text \<open>\<^verbatim>\<open>str.isidentifier\<close> on code points below 256.\<close>

definition xid_start :: "char \<Rightarrow> bool" where
  "xid_start c =
     (let n = (of_char c :: nat)
      in (65 \<le> n \<and> n \<le> 90) \<or> (97 \<le> n \<and> n \<le> 122) \<or> n = 95
         \<or> n = 170 \<or> n = 181 \<or> n = 186
         \<or> (192 \<le> n \<and> n \<le> 214) \<or> (216 \<le> n \<and> n \<le> 246) \<or> 248 \<le> n)"

definition xid_continue :: "char \<Rightarrow> bool" where
  "xid_continue c =
     (let n = (of_char c :: nat) in xid_start c \<or> (48 \<le> n \<and> n \<le> 57) \<or> n = 183)"

definition isidentifier :: "string \<Rightarrow> bool" where
  "isidentifier s =
     (case s of [] \<Rightarrow> False | c # cs \<Rightarrow> xid_start c \<and> list_all xid_continue cs)"

definition get_type_from_default :: "env \<Rightarrow> string \<Rightarrow> string option" where
  "get_type_from_default E string =
     (let x = (if string \<in> set [''True'', ''False'']
               then Some \<lparr>tp_name = ''bool'', tp_module = ''builtins''\<rparr>
               else if isidentifier string then wx_getattr E string
               else literal_eval E string)
      in case x of
           None \<Rightarrow> None
         | Some tp \<Rightarrow>
             (case map_of convert_arg_type (tp_name tp) of
                Some r \<Rightarrow> Some r
              | None \<Rightarrow>
                  if startswith (tp_module tp) ''wx'' then Some (''wx.'' @ tp_name tp)
                  else Some (tp_name tp)))"

section \<open>stub-outliner.py: signatures\<close>

record Arg =
  arg_name :: string
  arg_tp :: "string option"
  arg_deafult :: bool

text \<open>\<^verbatim>\<open>name, _, default = arg.partition("=")\<close>.\<close>

definition partition_eq :: "string \<Rightarrow> string \<times> string" where
  "partition_eq arg =
     (takeWhile (\<lambda>c. c \<noteq> CHR ''='') arg, drop 1 (dropWhile (\<lambda>c. c \<noteq> CHR ''='') arg))"

text \<open>
  The inner loop of \<^verbatim>\<open>parse_args\<close>:
  \<^verbatim>\<open>for a, t in patern_and_type: if match(a, name): tp = t; break\<close>.
  The call passes the table's pattern \<open>a\<close> as \<^verbatim>\<open>string\<close> and the argument's name as
  \<^verbatim>\<open>patern\<close>, as the source does.
\<close>

fun find_patern :: "(string \<times> string) list \<Rightarrow> string \<Rightarrow> error + string option" where
  "find_patern [] name = Inr None"
| "find_patern ((a, t) # ps) name =
     (case match a name of
        Inl e \<Rightarrow> Inl e
      | Inr b \<Rightarrow> if b then Inr (Some t) else find_patern ps name)"

definition parse_arg :: "env \<Rightarrow> bool \<Rightarrow> string \<Rightarrow> error + Arg" where
  "parse_arg E add_any arg =
     (let (name, default) = partition_eq arg
      in case (if default \<noteq> [] then Inr (get_type_from_default E default)
               else find_patern patern_and_type name) of
           Inl e \<Rightarrow> Inl e
         | Inr tp \<Rightarrow>
             Inr \<lparr>arg_name = name,
                  arg_tp = (if tp = None \<and> add_any then Some ''Any'' else tp),
                  arg_deafult = (default \<noteq> [])\<rparr>)"

fun parse_args :: "env \<Rightarrow> bool \<Rightarrow> string list \<Rightarrow> error + Arg list" where
  "parse_args E add_any [] = Inr []"
| "parse_args E add_any (arg # args) =
     (case parse_arg E add_any arg of
        Inl e \<Rightarrow> Inl e
      | Inr a \<Rightarrow>
          (case parse_args E add_any args of
             Inl e \<Rightarrow> Inl e
           | Inr r \<Rightarrow> Inr (a # r)))"

section \<open>update.py: imports\<close>

record Import =
  imp_name :: string
  imp_mod :: string

record ImportGroup =
  grp_mod :: string
  grp_imports :: "Import list"

text \<open>
  \<^verbatim>\<open>ImportGroup.__init__\<close>: the \<^verbatim>\<open>assert imports\<close>, then the comparison of every
  entry's module with the first one's.
\<close>

definition ImportGroup_init :: "Import list \<Rightarrow> error + ImportGroup" where
  "ImportGroup_init imps =
     (case imps of
        [] \<Rightarrow> Inl AssertionError
      | i0 # _ \<Rightarrow>
          (let m = imp_mod i0
           in if \<not> list_all (\<lambda>imp. imp_mod imp = m) imps then Inl ValueError
              else Inr \<lparr>grp_mod = m, grp_imports = imps\<rparr>))"



section \<open>stub-outliner.py: return types and Signature\<close>

text \<open>The table \<^verbatim>\<open>ret_trans_table\<close>.\<close>

definition ret_trans_table :: "(string \<times> string) list" where
  "ret_trans_table =
    [(''PyUserData'', ''Any''),
     (''ClientData'', ''Any''),
     (''PyObject'', ''?''),
     (''String'', ''str''),
     (''double'', ''float''),
     (''long'', ''int''),
     (''LongLong'', ''int''),
     (''unsignedchar'', ''int''),
     (''unsignedint'', ''int''),
     (''Uint32'', ''int''),
     (''UIntPtr'', ''int''),
     (''Coord'', ''int''),
     (''size_t'', ''int''),
     (''IntPtr'', ''int''),
     (''Uint16'', ''int''),
     (''unsignedlong'', ''int''),
     (''ArrayString'', ''list[str]''),
     (''ArrayInt'', ''list[int]'')]"

definition modify_ret :: "env \<Rightarrow> string \<Rightarrow> string" where
  "modify_ret E ret =
     (case map_of ret_trans_table ret of
        Some r \<Rightarrow> r
      | None \<Rightarrow> if wx_hasattr E ret then ''wx.'' @ ret else ret)"

text \<open>
  One match of the pyparsing grammar \<^verbatim>\<open>func\<close> in a docstring, as \<^verbatim>\<open>Signature.__init__\<close>
  reads it: \<^verbatim>\<open>parsed["name"]\<close>, \<^verbatim>\<open>parsed["args"]\<close> and \<^verbatim>\<open>parsed["return"][0]\<close>. A
  docstring enters the model as the list of the matches that \<^verbatim>\<open>func.scanString(doc)\<close>
  yields, in order; for the docstring \<^verbatim>\<open>Foo(parent, id=0) -> None\<close> that list has the
  one match with name \<^verbatim>\<open>Foo\<close>, args \<^verbatim>\<open>["parent", "id=0"]\<close> and return \<^verbatim>\<open>None\<close>.
\<close>

record parsed =
  p_name :: string
  p_args :: "string list"
  p_return :: string

record Signature =
  retanot :: string
  sig_name :: string
  sig_args :: "Arg list"

definition Signature_init :: "env \<Rightarrow> parsed \<Rightarrow> bool \<Rightarrow> bool \<Rightarrow> bool \<Rightarrow> error + Signature" where
  "Signature_init E p init meth add_any =
     (let meth = (if init then True else meth);
          r = modify_ret E (p_return p);
          n = (if \<not> init then p_name p else ''__init__'');
          args = (if \<not> meth then []
                  else [\<lparr>arg_name = ''self'', arg_tp = None, arg_deafult = False\<rparr>])
      in case parse_args E add_any (p_args p) of
           Inl e \<Rightarrow> Inl e
         | Inr rest \<Rightarrow> Inr \<lparr>retanot = r, sig_name = n, sig_args = args @ rest\<rparr>)"

text \<open>\<^verbatim>\<open>Signature.set_type\<close>: \<^verbatim>\<open>self.args[i].tp = tp\<close>, IndexError past the end.\<close>

definition set_type :: "Signature \<Rightarrow> nat \<Rightarrow> string \<Rightarrow> error + Signature" where
  "set_type sig i t =
     (if i < length (sig_args sig)
      then Inr (sig\<lparr>sig_args := (sig_args sig)[i := (sig_args sig ! i)\<lparr>arg_tp := Some t\<rparr>]\<rparr>)
      else Inl IndexError)"

text \<open>
  \<^verbatim>\<open>Signature.print\<close>. \<open>print_pieces\<close> is the list \<^verbatim>\<open>args\<close> that the loop builds, with
  its trailing comma; the result is the line that is printed.
\<close>

fun print_pieces :: "Arg list \<Rightarrow> string list" where
  "print_pieces [] = []"
| "print_pieces (a # as) =
     [arg_name a]
     @ (case arg_tp a of None \<Rightarrow> [] | Some t \<Rightarrow> ['': '', t])
     @ (if arg_deafult a then ['' = ...''] else [])
     @ ['', '']
     @ print_pieces as"

definition Signature_print :: "string \<Rightarrow> Signature \<Rightarrow> string" where
  "Signature_print indent sig =
     (let args = print_pieces (sig_args sig);
          args = (if args \<noteq> [] then butlast args else args)
      in indent @ ''def '' @ sig_name sig @ ''('' @ concat args @ '') -> ''
         @ retanot sig @ '': ...'')"

text \<open>
  \<^verbatim>\<open>find_signatures(doc, name, **kwargs)\<close>, over the matches of the docstring.
\<close>

fun find_signatures ::
  "env \<Rightarrow> parsed list \<Rightarrow> string \<Rightarrow> bool \<Rightarrow> bool \<Rightarrow> bool \<Rightarrow> error + Signature list" where
  "find_signatures E [] name init meth add_any = Inr []"
| "find_signatures E (p # ps) name init meth add_any =
     (if p_name p = name
      then (case Signature_init E p init meth add_any of
              Inl e \<Rightarrow> Inl e
            | Inr s \<Rightarrow>
                (case find_signatures E ps name init meth add_any of
                   Inl e \<Rightarrow> Inl e
                 | Inr r \<Rightarrow> Inr (s # r)))
      else find_signatures E ps name init meth add_any)"

section \<open>stub-outliner.py: make\_stub\<close>

text \<open>
  What \<^verbatim>\<open>make_stub\<close> reads of a class and of the members in its \<^verbatim>\<open>__dict__\<close>.
  A member is seen through the test of the classification chain that it passes:
  \<^item> \<open>Method doc insp\<close>: \<^verbatim>\<open>type(obj) in method_descripters\<close>; \<open>doc\<close> is the matches of
    \<^verbatim>\<open>getattr(cls, name).__doc__\<close> and \<open>insp add_any\<close> is
    \<^verbatim>\<open>signature_using_inspect(getattr(cls, name), add_any=add_any)\<close>;
  \<^item> \<open>Property\<close>: \<^verbatim>\<open>type(obj) is property\<close>;
  \<^item> \<open>EnumType k\<close>: \<^verbatim>\<open>type(obj) is sip_enum\<close>, \<open>k\<close> identifying the class object;
  \<^item> \<open>Object ann k\<close>: any other object; \<open>ann\<close> is \<^verbatim>\<open>formatannotation(type(obj))\<close> and
    \<open>k\<close> identifies its type when that is an enumeration class.
  A base class is seen through its name, its module, whether it is \<^verbatim>\<open>object\<close> or the
  sip wrapper base, and an identity (for \<^verbatim>\<open>base in hide_mod\<close>).
\<close>

datatype member =
    Method "parsed list" "bool \<Rightarrow> string"
  | Property
  | EnumType nat
  | Object string "nat option"

record pybase =
  base_name :: string
  base_module :: string
  base_is_root :: bool
  base_id :: nat

record pyclass =
  cls_name :: string
  cls_bases :: "pybase list"
  cls_dict :: "(string \<times> member) list"
  cls_inherited :: "string list"
  cls_doc :: "parsed list"
  cls_init_doc :: "parsed list"
  cls_init_inspect :: string
  is_Window :: bool
  is_TopLevelWindow :: bool
  is_Event :: bool

text \<open>
  Output. A call writes lines to \<^verbatim>\<open>file\<close> and may end in an exception: the result is
  the lines written and the exception raised, if any. \<open>andthen\<close> runs a second piece
  of output after a first one that did not raise.
\<close>

type_synonym out = "string list \<times> error option"

definition andthen :: "out \<Rightarrow> out \<Rightarrow> out" where
  "andthen a b =
     (case snd a of
        Some e \<Rightarrow> a
      | None \<Rightarrow> (fst a @ fst b, snd b))"

text \<open>\<^verbatim>\<open>sep.join(xs)\<close>.\<close>

fun join :: "string \<Rightarrow> string list \<Rightarrow> string" where
  "join sep [] = []"
| "join sep [x] = x"
| "join sep (x # y # ys) = x @ sep @ join sep (y # ys)"

text \<open>\<^verbatim>\<open>sub in s\<close> for strings.\<close>

fun contains :: "string \<Rightarrow> string \<Rightarrow> bool" where
  "contains [] sub = (sub = [])"
| "contains (c # cs) sub = (startswith (c # cs) sub \<or> contains cs sub)"

text \<open>
  \<^verbatim>\<open>s.replace(old, new)\<close> for a non-empty \<open>old\<close>: the occurrences of \<open>old\<close> are
  replaced from left to right, without overlap.
\<close>

function replace :: "string \<Rightarrow> string \<Rightarrow> string \<Rightarrow> string" where
  "replace old new s =
     (if s = [] \<or> old = [] then s
      else if startswith s old then new @ replace old new (drop (length old) s)
      else hd s # replace old new (tl s))"
  by pat_completeness auto
termination
  by (relation "measure (\<lambda>(old, new, s). length s)") auto

declare replace.simps [simp del]

definition removeprefix :: "string \<Rightarrow> string \<Rightarrow> string" where
  "removeprefix s p = (if startswith s p then drop (length p) s else s)"


text \<open>
  The classification of the members (the first loop of \<^verbatim>\<open>make_stub\<close>). \<open>ignore\<close> is
  membership in the set of that name; \<open>categorise\<close> fills \<^verbatim>\<open>objects_by_category\<close>,
  keeping with each name what the later loops read of the member.
\<close>

definition ignore :: "env \<Rightarrow> pyclass \<Rightarrow> bool \<Rightarrow> string \<Rightarrow> bool" where
  "ignore E cls all_methods n =
     (let base = [''__module__'', ''__weakref__'', ''__iadd__'', ''__isub__'', ''__dict__'',
                  ''__bool__'', ''__nonzero__'']
      in if \<not> all_methods then n \<in> set base \<union> set (cls_inherited cls)
         else n \<in> (set base \<union> set (object_dict E))
                    - set [''__ge__'', ''__gt__'', ''__lt__'', ''__le__''])"

record categories =
  cat_method :: "(string \<times> parsed list \<times> (bool \<Rightarrow> string)) list"
  cat_property :: "string list"
  cat_other :: "(string \<times> string) list"
  cat_enumclass :: "(string \<times> nat) list"

fun categorise ::
  "(string \<Rightarrow> bool) \<Rightarrow> (string \<times> member) list \<Rightarrow> categories \<Rightarrow> error + categories" where
  "categorise ign [] c = Inr c"
| "categorise ign ((n, obj) # rest) c =
     (if ign n then categorise ign rest c
      else case obj of
          Method doc insp \<Rightarrow>
            categorise ign rest (c\<lparr>cat_method := cat_method c @ [(n, doc, insp)]\<rparr>)
        | Property \<Rightarrow>
            categorise ign rest (c\<lparr>cat_property := cat_property c @ [n]\<rparr>)
        | EnumType k \<Rightarrow>
            categorise ign rest (c\<lparr>cat_enumclass := cat_enumclass c @ [(n, k)]\<rparr>)
        | Object ann k \<Rightarrow>
            (case n of
               [] \<Rightarrow> Inl IndexError
             | ch # _ \<Rightarrow>
                 if ch \<noteq> CHR ''_'' \<or> (startswith n ''__'' \<and> endswith n ''__'')
                 then categorise ign rest (c\<lparr>cat_other := cat_other c @ [(n, ann)]\<rparr>)
                 else categorise ign rest c))"

text \<open>The class line with the list of bases.\<close>

definition base_text :: "nat list \<Rightarrow> pybase \<Rightarrow> string option" where
  "base_text hide_mod b =
     (if base_is_root b then None
      else if base_id b \<in> set hide_mod then Some (base_name b)
      else if startswith (base_module b) ''wx'' then Some (''wx.'' @ base_name b)
      else Some (base_module b @ ''.'' @ base_name b))"

definition class_header :: "pyclass \<Rightarrow> nat list \<Rightarrow> string" where
  "class_header cls hide_mod =
     ''class '' @ cls_name cls @ ''(''
     @ join '', '' (List.map_filter (base_text hide_mod) (cls_bases cls)) @ ''):''"

text \<open>
  The constructor (source lines 310 to 346). \<open>init_heuristics\<close> is the body of
  \<^verbatim>\<open>for sig in sigs\<close>; \<open>event_types\<close> is its inner loop over
  \<^verbatim>\<open>range(1, min(3, len(sig.args)))\<close>. The read \<^verbatim>\<open>sig.args[2]\<close> is not guarded by the
  source, so it is a \<open>getitem\<close>.
\<close>

fun event_types :: "Signature \<Rightarrow> nat list \<Rightarrow> error + Signature" where
  "event_types sig [] = Inr sig"
| "event_types sig (i # rest) =
     (case getitem (sig_args sig) i of
        Inl e \<Rightarrow> Inl e
      | Inr a \<Rightarrow>
          if contains (arg_name a) ''Type''
          then (case set_type sig i ''wx._EventType'' of
                  Inl e \<Rightarrow> Inl e
                | Inr s \<Rightarrow> event_types s rest)
          else if arg_name a \<in> set [''id'', ''winid'', ''windid'']
          then (case set_type sig i ''wx._WindowID'' of
                  Inl e \<Rightarrow> Inl e
                | Inr s \<Rightarrow> event_types s rest)
          else event_types sig rest)"

definition init_heuristics :: "pyclass \<Rightarrow> Signature \<Rightarrow> error + Signature" where
  "init_heuristics cls sig =
     (if length (sig_args sig) < 2 then Inr sig
      else if is_Window cls \<and> arg_name (sig_args sig ! 1) = ''parent''
      then (case set_type sig 1 (if is_TopLevelWindow cls then ''Optional[wx.Window]''
                                 else ''wx.Window'') of
              Inl e \<Rightarrow> Inl e
            | Inr sig1 \<Rightarrow>
                (case getitem (sig_args sig1) 2 of
                   Inl e \<Rightarrow> Inl e
                 | Inr a \<Rightarrow>
                     if arg_name a = ''id'' then set_type sig1 2 ''wx._WindowID''
                     else Inr sig1))
      else if is_Event cls then event_types sig [1 ..< min 3 (length (sig_args sig))]
      else Inr sig)"

text \<open>A \<^verbatim>\<open>for\<close> loop that changes each element in turn and stops at the first raise.\<close>

fun for_each :: "('a \<Rightarrow> error + 'b) \<Rightarrow> 'a list \<Rightarrow> error + 'b list" where
  "for_each f [] = Inr []"
| "for_each f (x # xs) =
     (case f x of
        Inl e \<Rightarrow> Inl e
      | Inr y \<Rightarrow> (case for_each f xs of Inl e \<Rightarrow> Inl e | Inr ys \<Rightarrow> Inr (y # ys)))"

text \<open>One signature is printed alone, several as an overload group.\<close>

definition print_sigs :: "string \<Rightarrow> Signature list \<Rightarrow> string list" where
  "print_sigs indent sigs =
     (if length sigs = 1 then [Signature_print indent (hd sigs)]
      else concat (map (\<lambda>s. [indent @ ''@overload'', Signature_print indent s]) sigs))"

definition make_stub_init :: "env \<Rightarrow> pyclass \<Rightarrow> bool \<Rightarrow> out" where
  "make_stub_init E cls add_any =
     (case find_signatures E (cls_doc cls) (cls_name cls) True True add_any of
        Inl e \<Rightarrow> ([], Some e)
      | Inr sigs0 \<Rightarrow>
          (case (if sigs0 = []
                 then find_signatures E (cls_init_doc cls) (cls_name cls) True True add_any
                 else Inr sigs0) of
             Inl e \<Rightarrow> ([], Some e)
           | Inr sigs \<Rightarrow>
               if sigs \<noteq> []
               then (case for_each (init_heuristics cls) sigs of
                       Inl e \<Rightarrow> ([], Some e)
                     | Inr sigs' \<Rightarrow> (print_sigs ''    '' sigs', None))
               else (let s = cls_init_inspect cls
                     in if s \<notin> set (deafult_signatures E)
                        then ([''    def __init__'' @ s @ '' -> None: ...''], None)
                        else ([], None))))"

text \<open>
  The methods (source lines 349 to 370). \<open>getter_setter\<close> is the branch
  \<^verbatim>\<open>len(sigs) == 1\<close> before the print: it returns the signature and the dictionary
  \<^verbatim>\<open>setters\<close> as that branch leaves them.
\<close>

definition getter_setter ::
  "(string \<rightharpoonup> string) \<Rightarrow> string \<Rightarrow> Signature \<Rightarrow> error + Signature \<times> (string \<rightharpoonup> string)" where
  "getter_setter setters name sig =
     (if startswith (sig_name sig) ''Get''
      then (let t = (case map_of convert_arg_type (removeprefix (retanot sig) ''wx.'') of
                       Some r \<Rightarrow> r
                     | None \<Rightarrow> retanot sig)
            in Inr (sig, setters(replace ''Get'' ''Set'' (sig_name sig) \<mapsto> t)))
      else if setters (sig_name sig) \<noteq> None \<and> length (sig_args sig) = 2
              \<and> arg_tp (sig_args sig ! 1) \<in> {None, Some ''Any''}
      then (case setters name of
              None \<Rightarrow> Inl (KeyError name)
            | Some t \<Rightarrow>
                (case set_type sig 1 t of
                   Inl e \<Rightarrow> Inl e
                 | Inr s \<Rightarrow> Inr (s, setters(name := None))))
      else Inr (sig, setters))"

fun methods_loop ::
  "env \<Rightarrow> bool \<Rightarrow> (string \<rightharpoonup> string) \<Rightarrow> (string \<times> parsed list \<times> (bool \<Rightarrow> string)) list \<Rightarrow> out" where
  "methods_loop E add_any setters [] = ([], None)"
| "methods_loop E add_any setters ((name, doc, insp) # rest) =
     (case find_signatures E doc name False True add_any of
        Inl e \<Rightarrow> ([], Some e)
      | Inr sigs \<Rightarrow>
          if sigs = []
          then andthen ([''    def '' @ name @ insp add_any @ '' -> Any: ...''], None)
                       (methods_loop E add_any setters rest)
          else if length sigs = 1
          then (case getter_setter setters name (hd sigs) of
                  Inl e \<Rightarrow> ([], Some e)
                | Inr (sig, setters') \<Rightarrow>
                    andthen ([Signature_print ''    '' sig], None)
                            (methods_loop E add_any setters' rest))
          else andthen (print_sigs ''    '' sigs, None)
                       (methods_loop E add_any setters rest))"

text \<open>The properties.\<close>

definition property_line :: "(string \<times> member) list \<Rightarrow> string \<Rightarrow> string" where
  "property_line d name =
     ''    '' @ name @ '' = property(''
     @ (if ''Get'' @ name \<in> set (map fst d) then ''Get'' @ name
        else if ''Is'' @ name \<in> set (map fst d) then ''Is'' @ name
        else ''None'')
     @ (if ''Set'' @ name \<in> set (map fst d) then '', '' @ ''Set'' @ name else [])
     @ '')''"

text \<open>
  The nested enumerations. \<open>enum_elements\<close> is the first loop over \<^verbatim>\<open>elements\<close>: it
  prints a line and removes the name from the bucket \<^verbatim>\<open>other\<close>, where
  \<^verbatim>\<open>list.remove\<close> raises ValueError for a name that is not in the bucket.
\<close>

fun remove_name :: "string \<Rightarrow> (string \<times> 'a) list \<Rightarrow> (string \<times> 'a) list" where
  "remove_name n [] = []"
| "remove_name n (x # xs) = (if fst x = n then xs else x # remove_name n xs)"

fun enum_elements :: "string list \<Rightarrow> (string \<times> string) list \<Rightarrow> out \<times> (string \<times> string) list" where
  "enum_elements [] other = (([], None), other)"
| "enum_elements (e # es) other =
     (if e \<in> set (map fst other)
      then (let (w, other') = enum_elements es (remove_name e other)
            in (andthen ([''        '' @ e @ '' = ...''], None) w, other'))
      else (([''        '' @ e @ '' = ...''], Some ValueError), other))"

definition is_instance :: "member \<Rightarrow> nat \<Rightarrow> bool" where
  "is_instance obj k = (case obj of Object ann (Some k') \<Rightarrow> k' = k | _ \<Rightarrow> False)"

fun enums_loop ::
  "(string \<times> member) list \<Rightarrow> (string \<times> nat) list \<Rightarrow> (string \<times> string) list
   \<Rightarrow> out \<times> (string \<times> string) list" where
  "enums_loop d [] other = (([], None), other)"
| "enums_loop d ((name, k) # rest) other =
     (let elements = sort (map fst (filter (\<lambda>(n, obj). is_instance obj k) d));
          head = ([''    class '' @ name @ ''(wx._WxSipEnumtype):''], None);
          (w1, other1) = enum_elements elements other
      in case snd w1 of
           Some e \<Rightarrow> (andthen head w1, other1)
         | None \<Rightarrow>
             (let (w2, other2) = enums_loop d rest other1
              in (andthen (andthen (andthen head w1)
                                   (map (\<lambda>e. ''    '' @ e @ '': '' @ name) elements, None))
                          w2,
                  other2)))"

definition make_stub :: "env \<Rightarrow> pyclass \<Rightarrow> bool \<Rightarrow> bool \<Rightarrow> nat list \<Rightarrow> out" where
  "make_stub E cls add_any all_methods hide_mod =
     (case categorise (ignore E cls all_methods) (cls_dict cls)
             \<lparr>cat_method = [], cat_property = [], cat_other = [], cat_enumclass = []\<rparr> of
        Inl e \<Rightarrow> ([], Some e)
      | Inr c \<Rightarrow>
          andthen ([class_header cls hide_mod], None)
         (andthen (make_stub_init E cls add_any)
         (andthen (methods_loop E add_any Map.empty (sort_key fst (cat_method c)))
         (andthen (map (property_line (cls_dict cls)) (sort (cat_property c)), None)
         (let (w, other) = enums_loop (cls_dict cls) (cat_enumclass c) (cat_other c)
          in andthen w
               (map (\<lambda>(n, ann). ''    '' @ n @ '': '' @ ann) (sort_key fst other), None))))))"

section \<open>stub-outliner.py: make\_function\_stub and the command line\<close>

text \<open>
  A function object: \<^verbatim>\<open>obj.__name__\<close> and the matches of \<^verbatim>\<open>obj.__doc__ or " "\<close>.
  The fallback print of \<^verbatim>\<open>make_function_stub\<close> reads the module's global variable
  \<^verbatim>\<open>name\<close>; the model takes the state of that global as an argument: \<open>None\<close> when it is
  unbound, as after \<^verbatim>\<open>del ident, val, arg, args, name, tp_repr, ret\<close> at import, and
  \<open>Some s\<close> when it is bound to a value whose \<^verbatim>\<open>str\<close> is \<open>s\<close>.
\<close>

record pyfunction =
  fn_name :: string
  fn_doc :: "parsed list"

definition make_function_stub :: "env \<Rightarrow> string option \<Rightarrow> pyfunction \<Rightarrow> bool \<Rightarrow> out" where
  "make_function_stub E global_name obj add_any =
     (case find_signatures E (fn_doc obj) (fn_name obj) False False add_any of
        Inl e \<Rightarrow> ([], Some e)
      | Inr sigs \<Rightarrow>
          if sigs = []
          then (case global_name of
                  None \<Rightarrow> ([], Some (NameError ''name''))
                | Some n \<Rightarrow> ([''def '' @ n @ ''(*args, **kwargs) -> Any: ...''], None))
          else (print_sigs [] sigs, None))"

text \<open>
  One iteration of \<^verbatim>\<open>for name in args.cls\<close> in the \<^verbatim>\<open>__main__\<close> block, without
  \<^verbatim>\<open>--subclasses\<close>. The loop variable is the module's global \<^verbatim>\<open>name\<close>, bound to the
  command-line text; \<open>obj\<close> is what \<^verbatim>\<open>eval(name, wx.__dict__)\<close> gave.
\<close>

datatype cli_object = ClassObject pyclass | CallableObject pyfunction | OtherObject

definition main_iteration :: "env \<Rightarrow> bool \<Rightarrow> bool \<Rightarrow> string \<Rightarrow> cli_object \<Rightarrow> out" where
  "main_iteration E add_any all_methods name obj =
     (case obj of
        ClassObject c \<Rightarrow> andthen (make_stub E c add_any all_methods []) ([[]], None)
      | CallableObject f \<Rightarrow> andthen (make_function_stub E (Some name) f add_any) ([[]], None)
      | OtherObject \<Rightarrow> ([], Some TypeError))"


section \<open>update.py: the records of the aggregate stub\<close>

text \<open>The newline character, and \<^verbatim>\<open>str(n)\<close> of a natural number.\<close>

definition nl :: string where
  "nl = [CHR 0x0A]"

fun str_nat :: "nat \<Rightarrow> string" where
  "str_nat n =
     (if n < 10 then [''0123456789'' ! n]
      else str_nat (n div 10) @ [''0123456789'' ! (n mod 10)])"

declare str_nat.simps [simp del]

definition ImportGroup_str :: "ImportGroup \<Rightarrow> string" where
  "ImportGroup_str g =
     (let names = map (\<lambda>imp. imp_name imp @ '' as '' @ imp_name imp) (grp_imports g);
          r = ''from '' @ grp_mod g @ '' import '' @ join '', '' names
      in if length r \<le> 80 then r
         else ''from '' @ grp_mod g @ '' import ('' @ nl @ ''    ''
              @ join ('','' @ nl @ ''    '') names @ nl @ ''    )'')"

text \<open>
  \<^verbatim>\<open>Anotation\<close>: the attribute \<^verbatim>\<open>data\<close> exists only when the constructor was given
  one, so it is an option, and reading it when absent is AttributeError.
\<close>

record Anotation =
  an_name :: string
  an_type :: string
  an_comment :: string
  an_data :: "nat option"

definition Anotation_str :: "Anotation \<Rightarrow> string" where
  "Anotation_str a =
     (if an_comment a \<noteq> [] then an_name a @ '': '' @ an_type a @ ''  # '' @ an_comment a
      else an_name a @ '': '' @ an_type a)"

record EnumValue =
  ev_name :: string
  ev_cls :: string

record EnumClass =
  ec_name :: string
  ec_values :: "EnumValue list option"

definition EnumClass_init :: "string \<Rightarrow> EnumValue list option \<Rightarrow> error + EnumClass" where
  "EnumClass_init n values =
     (case values of
        None \<Rightarrow> Inr \<lparr>ec_name = n, ec_values = None\<rparr>
      | Some vs \<Rightarrow>
          if \<not> list_all (\<lambda>v. ev_cls v = n) vs then Inl ValueError
          else Inr \<lparr>ec_name = n, ec_values = Some vs\<rparr>)"

definition EnumClass_str :: "EnumClass \<Rightarrow> error + string" where
  "EnumClass_str e =
     (case ec_values e of
        None \<Rightarrow> Inl ValueError
      | Some vs \<Rightarrow>
          if \<not> list_all (\<lambda>v. ev_cls v = ec_name e) vs then Inl ValueError
          else Inr (join nl
                 ([''class '' @ ec_name e @ ''(_WxSipEnumtype):'']
                  @ map (\<lambda>v. ''    '' @ ev_name v @ '' = ...'') vs
                  @ [[]]
                  @ map (\<lambda>v. ev_name v @ '': Literal['' @ ec_name e @ ''.'' @ ev_name v @ '']'')
                        vs)))"

text \<open>The elements of \<^verbatim>\<open>def_err\<close>: a \<^verbatim>\<open>Class\<close> or an \<^verbatim>\<open>Assignment\<close>.\<close>

datatype exc_decl =
    Class string "string list"
  | Assignment string string

fun decl_name :: "exc_decl \<Rightarrow> string" where
  "decl_name (Class n bases) = n"
| "decl_name (Assignment n v) = n"

fun is_not_Class :: "exc_decl \<Rightarrow> bool" where
  "is_not_Class (Class n bases) = False"
| "is_not_Class (Assignment n v) = True"

fun exc_decl_str :: "exc_decl \<Rightarrow> string" where
  "exc_decl_str (Class n bases) = ''class '' @ n @ ''('' @ join '', '' bases @ ''): pass''"
| "exc_decl_str (Assignment n v) = n @ '' = '' @ v"

section \<open>update.py: the override stub files\<close>

text \<open>
  What the script reads of the syntax tree of a stub file. A decorator is a
  \<^verbatim>\<open>Name\<close> with an \<^verbatim>\<open>id\<close>, or another expression, which has no \<^verbatim>\<open>id\<close>. A function
  definition is its name, its arguments (\<^verbatim>\<open>posonlyargs + args\<close>, each with its name and
  whether it is annotated) and its decorators. The target of an annotated assignment
  is \<open>Some id\<close> for a \<^verbatim>\<open>Name\<close> and \<open>None\<close> for another expression.
\<close>

datatype decorator = DecoratorName string | DecoratorOther

record funcdef =
  fd_name :: string
  fd_args :: "(string \<times> bool) list"
  fd_decorators :: "decorator list"

datatype body_node = MethodDef funcdef | BodyOther

datatype node =
    ClassDef string "body_node list"
  | FunctionDef funcdef
  | AnnAssign "string option"
  | OtherNode

text \<open>\<^verbatim>\<open>[name.id for name in node.decorator_list]\<close>: AttributeError without an \<^verbatim>\<open>id\<close>.\<close>

fun decorator_ids :: "decorator list \<Rightarrow> error + string list" where
  "decorator_ids [] = Inr []"
| "decorator_ids (DecoratorOther # ds) = Inl AttributeError"
| "decorator_ids (DecoratorName n # ds) =
     (case decorator_ids ds of Inl e \<Rightarrow> Inl e | Inr r \<Rightarrow> Inr (n # r))"

text \<open>
  \<^verbatim>\<open>check_has_anotations\<close>: \<open>check_method\<close> is the body of the loop for one
  \<^verbatim>\<open>FunctionDef\<close> of the class; the result is the lines printed.
\<close>

definition check_method :: "string \<Rightarrow> string \<Rightarrow> funcdef \<Rightarrow> out" where
  "check_method modname clsname fd =
     (case decorator_ids (fd_decorators fd) of
        Inl e \<Rightarrow> ([], Some e)
      | Inr decorators \<Rightarrow>
          (let args = fd_args fd;
               place = modname @ ''.'' @ clsname @ ''.'' @ fd_name fd;
               l1 = (if ''staticmethod'' \<in> set decorators
                     then (if args \<noteq> [] \<and> fst (hd args) = ''self''
                           then [''Error: 'self' argument to staticmethod at '' @ place]
                           else [])
                     else (if args = [] \<or> fst (hd args) \<noteq> ''self''
                           then [''Error: missing 'self' argument to method at '' @ place]
                           else []));
               missing = map fst (filter (\<lambda>(a, annotated). \<not> annotated \<and> a \<noteq> ''self'') args);
               l2 = (if missing \<noteq> []
                     then [''Error: method '' @ place @ '' is missing anotation for arguments: ''
                           @ join '', '' missing]
                     else [])
           in (l1 @ l2, None)))"

fun check_has_anotations :: "string \<Rightarrow> body_node list \<Rightarrow> string \<Rightarrow> out" where
  "check_has_anotations clsname [] modname = ([], None)"
| "check_has_anotations clsname (BodyOther # rest) modname =
     check_has_anotations clsname rest modname"
| "check_has_anotations clsname (MethodDef fd # rest) modname =
     andthen (check_method modname clsname fd) (check_has_anotations clsname rest modname)"

text \<open>
  An object of the \<^verbatim>\<open>wx\<close> namespace, seen through the test of the classification chain
  of the scan that it passes (in the order of the source, after the tests on the name):
  \<^item> \<open>EnumTypeObj\<close>: \<^verbatim>\<open>tp is sipenum\<close>;
  \<^item> \<open>IntObj r\<close>: \<^verbatim>\<open>tp is int\<close>, \<open>r\<close> being \<^verbatim>\<open>repr(obj)\<close>;
  \<^item> \<open>StrObj r\<close>: \<^verbatim>\<open>tp in (str, bytes)\<close>;
  \<^item> \<open>EnumValueObj t\<close>: \<^verbatim>\<open>isinstance(tp, sipenum)\<close>, \<open>t\<close> being \<^verbatim>\<open>tp.__name__\<close>;
  \<^item> \<open>EventBinderObj\<close>: \<^verbatim>\<open>tp is wx.PyEventBinder\<close>;
  \<^item> \<open>SipObj t\<close>: \<^verbatim>\<open>isinstance(tp, siptype)\<close>;
  \<^item> \<open>ExceptionObj n bases\<close>: \<^verbatim>\<open>tp is type and issubclass(obj, BaseException)\<close>, with
    \<^verbatim>\<open>obj.__name__\<close> and the names of \<^verbatim>\<open>obj.__bases__\<close>;
  \<^item> \<open>ClassObj q d c w\<close>: \<^verbatim>\<open>tp in (type, siptype)\<close>, with \<^verbatim>\<open>obj.__qualname__\<close> and whether
    the class is a subclass of \<^verbatim>\<open>wx.Dialog\<close>, \<^verbatim>\<open>wx.Control\<close>, \<^verbatim>\<open>wx.Window\<close>;
  \<^item> \<open>FunctionObj q\<close>: \<^verbatim>\<open>tp in (BuiltinFunctionType, FunctionType)\<close>;
  \<^item> \<open>ModuleObj\<close>: \<^verbatim>\<open>tp is ModuleType\<close>;
  \<^item> \<open>UnknownObj t r\<close>: none of these, with \<^verbatim>\<open>tp.__name__\<close> and \<^verbatim>\<open>repr(obj)\<close>.
\<close>

datatype nsobj =
    EnumTypeObj
  | IntObj string
  | StrObj string
  | EnumValueObj string
  | EventBinderObj
  | SipObj string
  | ExceptionObj string "string list"
  | ClassObj string bool bool bool
  | FunctionObj string
  | ModuleObj
  | UnknownObj string string

text \<open>
  The state of the script while it reads the stub files: \<^verbatim>\<open>mod_dict\<close> (a dictionary,
  kept in insertion order), \<^verbatim>\<open>classes_stubed\<close>, \<^verbatim>\<open>def_import\<close> and the lines printed.
  \<open>dict_keys\<close> and \<open>remove_name\<close> give \<^verbatim>\<open>name in d\<close> and the dictionary after
  \<^verbatim>\<open>d.pop(name)\<close>.
\<close>

record stub_state =
  mod_dict :: "(string \<times> nsobj) list"
  classes_stubed :: "string set"
  def_import :: "ImportGroup list"
  stdout :: "string list"

definition dict_keys :: "(string \<times> 'a) list \<Rightarrow> string set" where
  "dict_keys d = set (map fst d)"

text \<open>
  One node of the body of a module: the loop variables \<^verbatim>\<open>i\<close> and \<^verbatim>\<open>last_overload\<close>
  and the state, after the node.
\<close>

definition node_step ::
  "string \<Rightarrow> node \<Rightarrow> Import list \<times> string \<times> stub_state
   \<Rightarrow> error + Import list \<times> string \<times> stub_state" where
  "node_step stem nd s =
     (let (i, last_overload, st) = s;
          imp = (\<lambda>n. \<lparr>imp_name = n, imp_mod = ''wx.'' @ stem\<rparr>)
      in case nd of
        ClassDef name body \<Rightarrow>
          (case name of
             [] \<Rightarrow> Inl IndexError
           | c # _ \<Rightarrow>
               if c \<noteq> CHR ''_''
               then (case check_has_anotations name body stem of
                       (lines, Some e) \<Rightarrow> Inl e
                     | (lines, None) \<Rightarrow>
                         (let st1 = st\<lparr>stdout := stdout st @ lines\<rparr>
                          in if name \<in> dict_keys (mod_dict st)
                             then Inr (i @ [imp name], last_overload,
                                       st1\<lparr>mod_dict := remove_name name (mod_dict st),
                                            classes_stubed := insert name (classes_stubed st)\<rparr>)
                             else if name \<in> classes_stubed st
                             then Inr (i @ [imp name], last_overload,
                                       st1\<lparr>stdout := stdout st1
                                              @ [''Error: duplicate class definition - '' @ name]\<rparr>)
                             else Inr (i @ [imp name], last_overload,
                                       st1\<lparr>stdout := stdout st1
                                              @ [''Error: class '' @ stem @ ''.'' @ name
                                                 @ '' does not corespond to an object in the wx namespace'',
                                                 []]\<rparr>)))
               else Inr s)
      | FunctionDef fd \<Rightarrow>
          (case fd_name fd of
             [] \<Rightarrow> Inl IndexError
           | c # _ \<Rightarrow>
               if c \<noteq> CHR ''_''
               then (case (case fd_decorators fd of
                             [] \<Rightarrow> Inr (False, last_overload)
                           | DecoratorOther # _ \<Rightarrow> Inl AttributeError
                           | DecoratorName d # _ \<Rightarrow>
                               if d \<noteq> ''overload'' then Inl AssertionError
                               else if last_overload = fd_name fd then Inr (True, last_overload)
                               else Inr (False, fd_name fd)) of
                       Inl e \<Rightarrow> Inl e
                     | Inr (skip, last') \<Rightarrow>
                         if skip then Inr (i, last', st)
                         else if fd_name fd \<in> dict_keys (mod_dict st)
                         then Inr (i @ [imp (fd_name fd)], last',
                                   st\<lparr>mod_dict := remove_name (fd_name fd) (mod_dict st)\<rparr>)
                         else Inr (i @ [imp (fd_name fd)], last',
                                   st\<lparr>stdout := stdout st
                                          @ [''Error: function '' @ stem @ ''.'' @ fd_name fd
                                             @ '' does not corespond to an object in the wx namespace'',
                                             []]\<rparr>))
               else Inr s)
      | AnnAssign target \<Rightarrow>
          (case target of
             None \<Rightarrow> Inl AttributeError
           | Some name \<Rightarrow>
               (case name of
                  [] \<Rightarrow> Inl IndexError
                | c # _ \<Rightarrow>
                    if c \<noteq> CHR ''_''
                    then Inr (i @ [imp name], last_overload,
                              st\<lparr>mod_dict := remove_name name (mod_dict st)\<rparr>)
                    else Inr s))
      | OtherNode \<Rightarrow> Inr s)"

fun module_nodes ::
  "string \<Rightarrow> node list \<Rightarrow> Import list \<times> string \<times> stub_state
   \<Rightarrow> error + Import list \<times> string \<times> stub_state" where
  "module_nodes stem [] s = Inr s"
| "module_nodes stem (nd # rest) s =
     (case node_step stem nd s of
        Inl e \<Rightarrow> Inl e
      | Inr s' \<Rightarrow> module_nodes stem rest s')"

text \<open>One stub file: its nodes, then the import group or the diagnostic.\<close>

definition stub_module :: "string \<times> node list \<Rightarrow> stub_state \<Rightarrow> error + stub_state" where
  "stub_module m st =
     (case module_nodes (fst m) (snd m) ([], [], st) of
        Inl e \<Rightarrow> Inl e
      | Inr (i, last_overload, st') \<Rightarrow>
          if i \<noteq> []
          then (case ImportGroup_init i of
                  Inl e \<Rightarrow> Inl e
                | Inr g \<Rightarrow> Inr (st'\<lparr>def_import := def_import st' @ [g]\<rparr>))
          else Inr (st'\<lparr>stdout := stdout st'
                            @ [''Error: nothing to import from module: '' @ fst m]\<rparr>))"

fun stub_files :: "(string \<times> node list) list \<Rightarrow> stub_state \<Rightarrow> error + stub_state" where
  "stub_files [] st = Inr st"
| "stub_files (m # ms) st =
     (case stub_module m st of
        Inl e \<Rightarrow> Inl e
      | Inr st' \<Rightarrow> stub_files ms st')"

text \<open>
  \<^verbatim>\<open>d[k] = v\<close>: the value of an existing key is replaced where it is, a new key goes
  to the end.
\<close>

definition dict_set :: "string \<Rightarrow> 'a \<Rightarrow> (string \<times> 'a) list \<Rightarrow> (string \<times> 'a) list" where
  "dict_set k v d =
     (if k \<in> dict_keys d then map (\<lambda>(k', v'). if k' = k then (k', v) else (k', v')) d
      else d @ [(k, v)])"

text \<open>
  The script up to the end of the loop over the stub files. \<open>ns\<close> is \<^verbatim>\<open>wx.__dict__\<close>
  and \<open>mods\<close> the stub files (stem and body of each, in the order of the directory
  listing). \<open>cursor_type\<close> is the object \<^verbatim>\<open>type(wx.CURSOR_NONE)\<close> that the script binds to
  \<^verbatim>\<open>mod_dict["StockCursor"]\<close> before it reads the first stub file, seen as the scan
  classifies the objects of the namespace; it is \<open>None\<close> when \<^verbatim>\<open>wx\<close> has no attribute
  \<^verbatim>\<open>CURSOR_NONE\<close>, and the read raises AttributeError.
\<close>

definition read_stubs ::
  "(string \<times> node list) list \<Rightarrow> nsobj option \<Rightarrow> (string \<times> nsobj) list
   \<Rightarrow> error + stub_state" where
  "read_stubs mods cursor_type ns =
     (case cursor_type of
        None \<Rightarrow> Inl AttributeError
      | Some t \<Rightarrow>
          stub_files mods
            \<lparr>mod_dict = dict_set ''StockCursor'' t ns, classes_stubed = {}, def_import = [],
             stdout = []\<rparr>)"






text \<open>
  What every step of the loop over the stub files keeps: names are only added to
  \<^verbatim>\<open>classes_stubed\<close>, only removed from \<^verbatim>\<open>mod_dict\<close>, whose keys stay distinct, printed
  lines, imports and import groups stay, and the imports collected for a module all
  name that module.
\<close>

definition keeps :: "string \<Rightarrow> Import list \<times> string \<times> stub_state \<Rightarrow> Import list \<times> string \<times> stub_state \<Rightarrow> bool" where
  "keeps stem s s' =
     (case (s, s') of ((i, l, st), (i', l', st')) \<Rightarrow>
        classes_stubed st \<subseteq> classes_stubed st'
        \<and> dict_keys (mod_dict st') \<subseteq> dict_keys (mod_dict st)
        \<and> (distinct (map fst (mod_dict st)) \<longrightarrow> distinct (map fst (mod_dict st')))
        \<and> set (stdout st) \<subseteq> set (stdout st')
        \<and> set i \<subseteq> set i'
        \<and> def_import st' = def_import st
        \<and> (list_all (\<lambda>imp. imp_mod imp = ''wx.'' @ stem) i
             \<longrightarrow> list_all (\<lambda>imp. imp_mod imp = ''wx.'' @ stem) i'))"

section \<open>update.py: the scan of the namespace\<close>

text \<open>The lists \<^verbatim>\<open>overloads\<close> and \<^verbatim>\<open>remove\<close>.\<close>

definition overloads :: "(string \<times> string) list" where
  "overloads =
    [(''PlatformInfo'', ''tuple[str, ...]''),
     (''VERSION'', ''tuple[int, int, int, str]''),
     (''TIMER_CONTINUOUS'', ''bool''),
     (''TIMER_ONE_SHOT'', ''bool'')]"

definition remove_names :: "string list" where
  "remove_names =
    [''PyDataObjectSimple'', ''PyRegionIterator'', ''deprecated'', ''deprecatedMsg'',
     ''ImageArray'', ''CommandList'', ''FileHistoryMenuList'', ''MenuItemList'',
     ''MenuList'', ''PointList'', ''SizerItemList'', ''WindowList'']"

text \<open>
  The buckets. \<^verbatim>\<open>def_val\<close> is a \<^verbatim>\<open>defaultdict(list)\<close> that is only indexed and popped,
  never iterated: a map from the class name to the values collected for it.
  \<open>scan_out\<close> is the lines that the scan prints.
\<close>

record buckets =
  def_undef :: "Anotation list"
  def_const :: "Anotation list"
  def_evt :: "Anotation list"
  def_err :: "exc_decl list"
  def_enum :: "EnumClass list"
  def_val :: "string \<Rightarrow> EnumValue list option"
  scan_out :: "string list"

definition empty_buckets :: buckets where
  "empty_buckets =
     \<lparr>def_undef = [], def_const = [], def_evt = [], def_err = [], def_enum = [],
      def_val = (\<lambda>k. None), scan_out = []\<rparr>"

text \<open>\<^verbatim>\<open>mod_dict.pop(name)\<close> without a default: KeyError for a missing name.\<close>

definition dict_pop :: "string \<Rightarrow> (string \<times> 'a) list \<Rightarrow> error + (string \<times> 'a) list" where
  "dict_pop k d = (if k \<in> dict_keys d then Inr (remove_name k d) else Inl (KeyError k))"

text \<open>
  \<^verbatim>\<open>for name, anot in overloads: mod_dict.pop(name); def_const.append(...)\<close> and
  \<^verbatim>\<open>for name in remove: mod_dict.pop(name)\<close>.
\<close>

fun pop_overloads ::
  "(string \<times> string) list \<Rightarrow> (string \<times> nsobj) list \<times> buckets
   \<Rightarrow> error + (string \<times> nsobj) list \<times> buckets" where
  "pop_overloads [] s = Inr s"
| "pop_overloads ((name, anot) # rest) (d, b) =
     (case dict_pop name d of
        Inl e \<Rightarrow> Inl e
      | Inr d' \<Rightarrow>
          pop_overloads rest
            (d', b\<lparr>def_const := def_const b
                      @ [\<lparr>an_name = name, an_type = anot, an_comment = [],
                          an_data = Some 3\<rparr>]\<rparr>))"

fun pop_removed :: "string list \<Rightarrow> (string \<times> nsobj) list \<Rightarrow> error + (string \<times> nsobj) list" where
  "pop_removed [] d = Inr d"
| "pop_removed (name # rest) d =
     (case dict_pop name d of
        Inl e \<Rightarrow> Inl e
      | Inr d' \<Rightarrow> pop_removed rest d')"

text \<open>Both loops: the dictionary that is scanned and the buckets at the start of the scan.\<close>

definition pop_names ::
  "(string \<times> nsobj) list \<Rightarrow> error + (string \<times> nsobj) list \<times> buckets" where
  "pop_names d =
     (case pop_overloads overloads (d, empty_buckets) of
        Inl e \<Rightarrow> Inl e
      | Inr (d1, b1) \<Rightarrow>
          (case pop_removed remove_names d1 of
             Inl e \<Rightarrow> Inl e
           | Inr d2 \<Rightarrow> Inr (d2, b1)))"

text \<open>
  The body of \<^verbatim>\<open>for name, obj in mod_dict.items()\<close>. \<^verbatim>\<open>EnumClass(name, [])\<close> passes the
  check of its constructor, the list being empty.
\<close>

definition squote :: "string \<Rightarrow> string" where
  "squote s = [CHR 0x27] @ s @ [CHR 0x27]"

definition skipped :: "string \<Rightarrow> bool" where
  "skipped name =
     (startswith name ''_'' \<or> startswith name ''test'' \<or> endswith name ''_iterator'')"

definition classify :: "string \<times> nsobj \<Rightarrow> buckets \<Rightarrow> buckets" where
  "classify entry b =
     (let (name, obj) = entry
      in if skipped name then b
         else if startswith name ''wxEVT''
         then b\<lparr>def_evt := def_evt b
                   @ [\<lparr>an_name = name, an_type = ''_EventType'', an_comment = [],
                       an_data = None\<rparr>]\<rparr>
         else case obj of
           EnumTypeObj \<Rightarrow>
             b\<lparr>def_enum := def_enum b @ [\<lparr>ec_name = name, ec_values = Some []\<rparr>]\<rparr>
         | IntObj r \<Rightarrow>
             b\<lparr>def_const := def_const b
                  @ [\<lparr>an_name = name, an_type = ''Literal['' @ r @ '']'', an_comment = [],
                      an_data = Some 1\<rparr>]\<rparr>
         | StrObj r \<Rightarrow>
             b\<lparr>def_const := def_const b
                  @ [\<lparr>an_name = name, an_type = ''Literal['' @ r @ '']'', an_comment = [],
                      an_data = Some 2\<rparr>]\<rparr>
         | EnumValueObj t \<Rightarrow>
             b\<lparr>def_val := (def_val b)
                  (t \<mapsto> (case def_val b t of None \<Rightarrow> [] | Some vs \<Rightarrow> vs)
                        @ [\<lparr>ev_name = name, ev_cls = t\<rparr>])\<rparr>
         | EventBinderObj \<Rightarrow>
             b\<lparr>def_const := def_const b
                  @ [\<lparr>an_name = name, an_type = ''PyEventBinder'', an_comment = [],
                      an_data = Some 4\<rparr>]\<rparr>
         | SipObj t \<Rightarrow>
             b\<lparr>def_const := def_const b
                  @ [\<lparr>an_name = name, an_type = t, an_comment = [], an_data = Some 3\<rparr>]\<rparr>
         | ExceptionObj n bases \<Rightarrow>
             if name = n then b\<lparr>def_err := def_err b @ [Class name bases]\<rparr>
             else b\<lparr>def_err := def_err b @ [Assignment name n]\<rparr>
         | ClassObj q dialog control window \<Rightarrow>
             if contains q ''DeprecatedClassProxy'' then b
             else b\<lparr>def_undef := def_undef b
                       @ [\<lparr>an_name = name, an_type = ''Any'',
                           an_comment = (if dialog then ''dialog''
                                         else if control then ''control''
                                         else if window then ''window''
                                         else []),
                           an_data = None\<rparr>]\<rparr>
         | FunctionObj q \<Rightarrow>
             if contains q ''deprecated_func'' then b
             else b\<lparr>def_undef := def_undef b
                       @ [\<lparr>an_name = name, an_type = ''Any'', an_comment = ''function'',
                           an_data = None\<rparr>]\<rparr>
         | ModuleObj \<Rightarrow> b
         | UnknownObj t r \<Rightarrow>
             b\<lparr>scan_out := scan_out b
                  @ [''Error: Encountered unknown object of type '' @ squote t
                     @ '' at name '' @ squote name @ '': '' @ r]\<rparr>)"

fun scan :: "(string \<times> nsobj) list \<Rightarrow> buckets \<Rightarrow> buckets" where
  "scan [] b = b"
| "scan (entry # rest) b = scan rest (classify entry b)"

text \<open>\<^verbatim>\<open>for enum in def_enum: enum.values = def_val.pop(enum.name)\<close>.\<close>

fun partition_enums ::
  "EnumClass list \<Rightarrow> (string \<Rightarrow> EnumValue list option)
   \<Rightarrow> error + EnumClass list \<times> (string \<Rightarrow> EnumValue list option)" where
  "partition_enums [] dv = Inr ([], dv)"
| "partition_enums (e # es) dv =
     (case dv (ec_name e) of
        None \<Rightarrow> Inl (KeyError (ec_name e))
      | Some vs \<Rightarrow>
          (case partition_enums es (dv(ec_name e := None)) of
             Inl x \<Rightarrow> Inl x
           | Inr (es', dv') \<Rightarrow> Inr (e\<lparr>ec_values := Some vs\<rparr> # es', dv')))"

text \<open>
  The sorts: every bucket by name; then the constants by the first seven characters
  of the type and, last, by \<^verbatim>\<open>data\<close>; then the exceptions with the classes first.
  Each \<^verbatim>\<open>list.sort\<close> is stable.
\<close>

definition sort_buckets :: "buckets \<Rightarrow> error + buckets" where
  "sort_buckets b =
     (let const1 = sort_key an_name (def_const b);
          const2 = sort_key (\<lambda>a. take 7 (an_type a)) const1
      in if \<not> list_all (\<lambda>a. an_data a \<noteq> None) const2 then Inl AttributeError
         else Inr (b\<lparr>def_undef := sort_key an_name (def_undef b),
                     def_enum := sort_key ec_name (def_enum b),
                     def_const := sort_key (\<lambda>a. the (an_data a)) const2,
                     def_evt := sort_key an_name (def_evt b),
                     def_err := sort_key is_not_Class (sort_key decl_name (def_err b))\<rparr>))"


section \<open>update.py: the aggregate stub\<close>

text \<open>
  \<^verbatim>\<open>template.format(...)\<close>: the template, line by line, with its six fields.
\<close>

definition dq3 :: string where
  "dq3 = replicate 3 (CHR 0x22)"

definition template_format ::
  "string \<Rightarrow> string \<Rightarrow> string \<Rightarrow> string \<Rightarrow> string \<Rightarrow> string \<Rightarrow> string" where
  "template_format undef imp err enum const evt =
     join nl
       [[],
        ''# This stub file is automaticly generated. Do not modify.'',
        [],
        ''from typing import Type, Literal, NewType, Any, SupportsInt'',
        ''from enum import IntFlag'',
        [],
        ''# unstubbed classes and functions:'',
        undef,
        [],
        ''_WindowID = SupportsInt'',
        [],
        imp,
        [],
        [],
        err,
        [],
        [],
        ''class _WxSipEnumtype(IntFlag):'',
        ''    '' @ dq3 @ ''Drop in for sip.enumtype'',
        ''    '',
        ''    wx uses sip.enumtype internaly for enumerations,'',
        ''    tecnicaly this is not a subclass of `int` or `Enum`,'',
        ''    but it behaves like one.'',
        ''    '' @ dq3,
        [],
        enum,
        [],
        ''# constants:'',
        const,
        [],
        ''_EventType = NewType('' @ squote ''_EventType'' @ '', int)'',
        [],
        evt,
        [],
        []]"

text \<open>
  The text written to \<^verbatim>\<open>__init__.pyi\<close>. Only \<^verbatim>\<open>str\<close> of an \<^verbatim>\<open>EnumClass\<close> can raise.
\<close>

definition render :: "ImportGroup list \<Rightarrow> buckets \<Rightarrow> error + string" where
  "render imps b =
     (case for_each EnumClass_str (def_enum b) of
        Inl e \<Rightarrow> Inl e
      | Inr enums \<Rightarrow>
          Inr (template_format
                 (join nl (map Anotation_str (def_undef b)))
                 (join nl (map ImportGroup_str imps))
                 (join (nl @ nl) (map exc_decl_str (def_err b)))
                 (join (nl @ nl) enums)
                 (join nl (map Anotation_str (def_const b)))
                 (join nl (map Anotation_str (def_evt b)))))"

text \<open>
  The script from its start to the sorted buckets: the stub files, the two loops that
  pop names, the scan, the partition of the enumeration values and the sorts.
\<close>

definition collect ::
  "(string \<times> node list) list \<Rightarrow> nsobj option \<Rightarrow> (string \<times> nsobj) list
   \<Rightarrow> error + stub_state \<times> buckets" where
  "collect mods cursor_type ns =
     (case read_stubs mods cursor_type ns of
        Inl e \<Rightarrow> Inl e
      | Inr st \<Rightarrow>
          (case pop_names (mod_dict st) of
             Inl e \<Rightarrow> Inl e
           | Inr (d, b1) \<Rightarrow>
               (let b2 = scan d b1
                in case partition_enums (def_enum b2) (def_val b2) of
                     Inl e \<Rightarrow> Inl e
                   | Inr (enums, dv) \<Rightarrow>
                       (case sort_buckets (b2\<lparr>def_enum := enums, def_val := dv\<rparr>) of
                          Inl e \<Rightarrow> Inl e
                        | Inr b3 \<Rightarrow> Inr (st, b3)))))"

text \<open>
  The whole run, up to the last \<^verbatim>\<open>print\<close>: the text of the stub file and the lines
  printed. The percentage divides by the number of classes and functions.
\<close>

definition run ::
  "(string \<times> node list) list \<Rightarrow> nsobj option \<Rightarrow> (string \<times> nsobj) list
   \<Rightarrow> error + string \<times> string list" where
  "run mods cursor_type ns =
     (case collect mods cursor_type ns of
        Inl e \<Rightarrow> Inl e
      | Inr (st, b) \<Rightarrow>
          (case render (def_import st) b of
             Inl e \<Rightarrow> Inl e
           | Inr text \<Rightarrow>
               (let done = card (classes_stubed st);
                    all = done + length (def_undef b)
                in if all = 0 then Inl ZeroDivisionError
                   else Inr (text,
                             stdout st @ scan_out b
                             @ [str_nat done @ '' out of '' @ str_nat all
                                @ '' classes or functions done (''
                                @ str_nat (100 * done div all) @ ''%).'']))))"

section \<open>Orders and collections used to state the properties\<close>

text \<open>
  The key by which the constants end up ordered: the tag \<^verbatim>\<open>data\<close>, then the first seven
  characters of the type, then the name. \<open>claimed_const_key\<close> is the order as the
  specification words it: the type category first, then the tag.
\<close>

definition const_key :: "Anotation \<Rightarrow> nat \<times> string \<times> string" where
  "const_key a = (the (an_data a), take 7 (an_type a), an_name a)"

definition claimed_const_key :: "Anotation \<Rightarrow> string \<times> nat" where
  "claimed_const_key a = (take 7 (an_type a), the (an_data a))"

definition err_key :: "exc_decl \<Rightarrow> bool \<times> string" where
  "err_key d = (is_not_Class d, decl_name d)"

text \<open>
  What the scan collects from one entry of the namespace: the enumeration class that
  it declares and the enumeration value that it is, if any.
\<close>

definition entry_class :: "string \<times> nsobj \<Rightarrow> string list" where
  "entry_class entry =
     (if skipped (fst entry) \<or> startswith (fst entry) ''wxEVT'' then []
      else case snd entry of EnumTypeObj \<Rightarrow> [fst entry] | _ \<Rightarrow> [])"

definition entry_value :: "string \<times> nsobj \<Rightarrow> EnumValue list" where
  "entry_value entry =
     (if skipped (fst entry) \<or> startswith (fst entry) ''wxEVT'' then []
      else case snd entry of
             EnumValueObj t \<Rightarrow> [\<lparr>ev_name = fst entry, ev_cls = t\<rparr>]
           | _ \<Rightarrow> [])"

text \<open>
  The constant that a pair of \<^verbatim>\<open>overloads\<close> gives, and the constant that the scan
  collects from one entry of the namespace, if any, each with its tag \<^verbatim>\<open>data\<close>.
\<close>

definition overload_const :: "string \<times> string \<Rightarrow> Anotation" where
  "overload_const p = \<lparr>an_name = fst p, an_type = snd p, an_comment = [], an_data = Some 3\<rparr>"

definition entry_const :: "string \<times> nsobj \<Rightarrow> Anotation list" where
  "entry_const entry =
     (if skipped (fst entry) \<or> startswith (fst entry) ''wxEVT'' then []
      else case snd entry of
             IntObj r \<Rightarrow>
               [\<lparr>an_name = fst entry, an_type = ''Literal['' @ r @ '']'', an_comment = [],
                 an_data = Some 1\<rparr>]
           | StrObj r \<Rightarrow>
               [\<lparr>an_name = fst entry, an_type = ''Literal['' @ r @ '']'', an_comment = [],
                 an_data = Some 2\<rparr>]
           | EventBinderObj \<Rightarrow>
               [\<lparr>an_name = fst entry, an_type = ''PyEventBinder'', an_comment = [],
                 an_data = Some 4\<rparr>]
           | SipObj t \<Rightarrow>
               [\<lparr>an_name = fst entry, an_type = t, an_comment = [], an_data = Some 3\<rparr>]
           | _ \<Rightarrow> [])"

definition declared_classes :: "(string \<times> nsobj) list \<Rightarrow> string list" where
  "declared_classes ns = concat (map entry_class ns)"

definition collected_values :: "(string \<times> nsobj) list \<Rightarrow> EnumValue list" where
  "collected_values ns = concat (map entry_value ns)"

definition values_of_class :: "(string \<times> nsobj) list \<Rightarrow> string \<Rightarrow> EnumValue list" where
  "values_of_class ns c = filter (\<lambda>v. ev_cls v = c) (collected_values ns)"


section \<open>Concrete inputs\<close>

text \<open>
  An environment in which the \<^verbatim>\<open>wx\<close> package has no attribute of the names asked for
  and \<^verbatim>\<open>ast.literal_eval\<close> knows the integer literal \<^verbatim>\<open>0\<close>; a window class \<^verbatim>\<open>Foo\<close> with
  the docstring \<^verbatim>\<open>Foo(parent, id=0) -> None\<close>, and the same class with the docstring
  \<^verbatim>\<open>Foo(parent) -> None\<close>.
\<close>

definition plain_env :: env where
  "plain_env =
     \<lparr>wx_getattr = (\<lambda>s. None),
      literal_eval = (\<lambda>s. if s = ''0'' then Some \<lparr>tp_name = ''int'', tp_module = ''builtins''\<rparr>
                           else None),
      wx_hasattr = (\<lambda>s. False),
      object_dict = [],
      deafult_signatures = [''(self, /, *args, **kwargs)'']\<rparr>"

definition Foo_class :: pyclass where
  "Foo_class =
     \<lparr>cls_name = ''Foo'',
      cls_bases = [\<lparr>base_name = ''Window'', base_module = ''wx._core'',
                    base_is_root = False, base_id = 1\<rparr>],
      cls_dict = [],
      cls_inherited = [],
      cls_doc = [\<lparr>p_name = ''Foo'', p_args = [''parent'', ''id=0''], p_return = ''None''\<rparr>],
      cls_init_doc = [],
      cls_init_inspect = ''(self, /, *args, **kwargs)'',
      is_Window = True,
      is_TopLevelWindow = False,
      is_Event = False\<rparr>"

definition Foo_parent_only :: pyclass where
  "Foo_parent_only =
     Foo_class\<lparr>cls_doc := [\<lparr>p_name = ''Foo'', p_args = [''parent''], p_return = ''None''\<rparr>]\<rparr>"



text \<open>
  The text that \<^verbatim>\<open>signature_using_inspect\<close> gives for a method when
  \<^verbatim>\<open>inspect.signature\<close> raises ValueError.
\<close>

definition no_inspect :: "bool \<Rightarrow> string" where
  "no_inspect add_any =
     (if add_any then ''(self, /, *args: Any, **kwargs: Any)'' else ''(self, /, *args, **kwargs)'')"





text \<open>
  A small namespace \<^verbatim>\<open>wx.__dict__\<close>: the names that the script pops unconditionally
  (each bound to a module here, their values are not looked at), the class \<^verbatim>\<open>Frame\<close>,
  the name \<^verbatim>\<open>StockCursor\<close> bound to a deprecated class, the value \<^verbatim>\<open>CURSOR_NONE\<close> of the
  enumeration \<^verbatim>\<open>StockCursor\<close>, the enumeration \<^verbatim>\<open>Direction\<close> with its value \<^verbatim>\<open>LEFT\<close>, the
  value \<^verbatim>\<open>ORPHAN\<close> of an enumeration \<^verbatim>\<open>Unlisted\<close> that is not in the namespace, the
  integer \<^verbatim>\<open>ID_ANY\<close>, the colour \<^verbatim>\<open>BLACK\<close>, the string \<^verbatim>\<open>PanelNameStr\<close> and the event
  binder \<^verbatim>\<open>EVT_BUTTON\<close>. \<open>scanned_entries\<close> is what the scan iterates over:
  \<^verbatim>\<open>StockCursor\<close> is bound to the enumeration type.
\<close>

definition wx_entries :: "nsobj \<Rightarrow> (string \<times> nsobj) list" where
  "wx_entries cursor =
     [(''Frame'', ClassObj ''Frame'' False False True),
      (''StockCursor'', cursor),
      (''CURSOR_NONE'', EnumValueObj ''StockCursor''),
      (''LEFT'', EnumValueObj ''Direction''),
      (''Direction'', EnumTypeObj),
      (''ORPHAN'', EnumValueObj ''Unlisted''),
      (''ID_ANY'', IntObj ''-1''),
      (''BLACK'', SipObj ''Colour''),
      (''PanelNameStr'', StrObj (squote ''panel'')),
      (''EVT_BUTTON'', EventBinderObj)]"

definition scanned_entries :: "(string \<times> nsobj) list" where
  "scanned_entries = wx_entries EnumTypeObj"

definition small_namespace :: "(string \<times> nsobj) list" where
  "small_namespace =
     map (\<lambda>n. (n, ModuleObj)) (map fst overloads @ remove_names)
     @ wx_entries (ClassObj ''deprecated.<locals>.DeprecatedClassProxy'' False False False)"

definition patched_namespace :: "(string \<times> nsobj) list" where
  "patched_namespace =
     map (\<lambda>n. (n, ModuleObj)) (map fst overloads @ remove_names) @ scanned_entries"

text \<open>The constants that the loop over \<^verbatim>\<open>overloads\<close> appends.\<close>

definition overload_consts :: "Anotation list" where
  "overload_consts =
     [\<lparr>an_name = ''PlatformInfo'', an_type = ''tuple[str, ...]'', an_comment = [],
       an_data = Some 3\<rparr>,
      \<lparr>an_name = ''VERSION'', an_type = ''tuple[int, int, int, str]'', an_comment = [],
       an_data = Some 3\<rparr>,
      \<lparr>an_name = ''TIMER_CONTINUOUS'', an_type = ''bool'', an_comment = [],
       an_data = Some 3\<rparr>,
      \<lparr>an_name = ''TIMER_ONE_SHOT'', an_type = ''bool'', an_comment = [],
       an_data = Some 3\<rparr>]"

text \<open>The buckets that the script reaches from the small namespace, with no stub file.\<close>

definition small_buckets :: buckets where
  "small_buckets =
     \<lparr>def_undef = [\<lparr>an_name = ''Frame'', an_type = ''Any'', an_comment = ''window'',
                     an_data = None\<rparr>],
      def_const =
        [\<lparr>an_name = ''ID_ANY'', an_type = ''Literal[-1]'', an_comment = [], an_data = Some 1\<rparr>,
         \<lparr>an_name = ''PanelNameStr'', an_type = ''Literal['' @ squote ''panel'' @ '']'',
           an_comment = [], an_data = Some 2\<rparr>,
         \<lparr>an_name = ''BLACK'', an_type = ''Colour'', an_comment = [], an_data = Some 3\<rparr>,
         \<lparr>an_name = ''TIMER_CONTINUOUS'', an_type = ''bool'', an_comment = [],
           an_data = Some 3\<rparr>,
         \<lparr>an_name = ''TIMER_ONE_SHOT'', an_type = ''bool'', an_comment = [],
           an_data = Some 3\<rparr>,
         \<lparr>an_name = ''VERSION'', an_type = ''tuple[int, int, int, str]'', an_comment = [],
           an_data = Some 3\<rparr>,
         \<lparr>an_name = ''PlatformInfo'', an_type = ''tuple[str, ...]'', an_comment = [],
           an_data = Some 3\<rparr>,
         \<lparr>an_name = ''EVT_BUTTON'', an_type = ''PyEventBinder'', an_comment = [],
           an_data = Some 4\<rparr>],
      def_evt = [],
      def_err = [],
      def_enum = [\<lparr>ec_name = ''Direction'',
                   ec_values = Some [\<lparr>ev_name = ''LEFT'', ev_cls = ''Direction''\<rparr>]\<rparr>,
                  \<lparr>ec_name = ''StockCursor'',
                   ec_values = Some [\<lparr>ev_name = ''CURSOR_NONE'', ev_cls = ''StockCursor''\<rparr>]\<rparr>],
      def_val = [''Unlisted'' \<mapsto> [\<lparr>ev_name = ''ORPHAN'', ev_cls = ''Unlisted''\<rparr>]],
      scan_out = []\<rparr>"

definition small_state :: stub_state where
  "small_state =
     \<lparr>mod_dict = patched_namespace, classes_stubed = {}, def_import = [], stdout = []\<rparr>"


section \<open>Properties of the pattern predicate\<close>

lemma strip_star_win: "strip ''*'' ''win*'' = ''win''"
  by (simp add: strip_def lstrip_def rstrip_def)

lemma match_trailing_in_range:
  assumes "string \<noteq> strip ''*'' patern" "startswith string (strip ''*'' patern)"
  shows "length (strip ''*'' patern) < length string"
proof (rule ccontr)
  assume "\<not> length (strip ''*'' patern) < length string"
  then have "take (length (strip ''*'' patern)) string = string" by simp
  with assms show False unfolding startswith_def by simp
qed

text \<open>
  The index \<^verbatim>\<open>string[len(stem)]\<close> is only evaluated after \<^verbatim>\<open>string == stem\<close> has failed
  and \<^verbatim>\<open>string.startswith(stem)\<close> has held, so it is in range: \<open>match\<close> never raises.
\<close>

lemma match_total: "\<exists>b. match string patern = Inr b"
proof (cases "match_exact string patern")
  case True
  then have "match string patern = Inr True" unfolding match_def by simp
  then show ?thesis by blast
next
  case ne: False
  show ?thesis
  proof (cases "match_leading string patern")
    case True
    with ne have "match string patern = Inr True" unfolding match_def by simp
    then show ?thesis by blast
  next
    case nl: False
    show ?thesis
    proof (cases "endswith patern ''*'' \<and> startswith string (strip ''*'' patern)")
      case True
      with ne have "length (strip ''*'' patern) < length string"
        using match_trailing_in_range unfolding match_exact_def by blast
      with True ne nl
      have "match string patern = Inr (isupper (string ! length (strip ''*'' patern)))"
        unfolding match_def match_trailing_def getitem_def Let_def by simp
      then show ?thesis by blast
    next
      case False
      then have c: "(endswith patern ''*'' \<and> startswith string (strip ''*'' patern)) = False"
        by blast
      from ne nl have "match string patern = Inr False"
        unfolding match_def match_trailing_def Let_def c by simp
      then show ?thesis by blast
    qed
  qed
qed

text \<open>
  C7. \<^verbatim>\<open>match("winID", "win*")\<close> is true through the trailing-wildcard disjunct, the
  character after the stem being upper-case; \<^verbatim>\<open>match("winner", "win*")\<close> is false;
  \<^verbatim>\<open>match("win", "win*")\<close> is true through the stem-equality disjunct, while the
  trailing-wildcard disjunct on its own does not accept it (its index is past the end);
  and \<^verbatim>\<open>match\<close> returns a boolean, without IndexError, on these and on all other
  arguments.
\<close>

theorem match_win_cases:
  "match ''winID'' ''win*'' = Inr True
   \<and> match_exact ''winID'' ''win*'' = False
   \<and> match_trailing ''winID'' ''win*'' = Inr True
   \<and> match ''winner'' ''win*'' = Inr False
   \<and> match ''win'' ''win*'' = Inr True
   \<and> match_exact ''win'' ''win*'' = True
   \<and> match_trailing ''win'' ''win*'' = Inl IndexError
   \<and> (\<exists>b. match string patern = Inr b)"
proof -
  have "match ''winID'' ''win*'' = Inr True"
    by (simp add: match_def match_exact_def match_leading_def match_trailing_def strip_star_win
        startswith_def endswith_def getitem_def isupper_def)
  moreover have "match_exact ''winID'' ''win*'' = False"
    by (simp add: match_exact_def strip_star_win)
  moreover have "match_trailing ''winID'' ''win*'' = Inr True"
    by (simp add: match_trailing_def strip_star_win startswith_def endswith_def getitem_def
        isupper_def)
  moreover have "match ''winner'' ''win*'' = Inr False"
    by (simp add: match_def match_exact_def match_leading_def match_trailing_def strip_star_win
        startswith_def endswith_def getitem_def isupper_def)
  moreover have "match ''win'' ''win*'' = Inr True"
    by (simp add: match_def match_exact_def strip_star_win)
  moreover have "match_exact ''win'' ''win*'' = True"
    by (simp add: match_exact_def strip_star_win)
  moreover have "match_trailing ''win'' ''win*'' = Inl IndexError"
    by (simp add: match_trailing_def strip_star_win startswith_def endswith_def getitem_def)
  moreover have "\<exists>b. match string patern = Inr b"
    by (rule match_total)
  ultimately show ?thesis by (intro conjI)
qed

section \<open>Name-pattern inference in parse\_args\<close>

lemma sort_key_len_tuple2: "sort_key len_tuple2 xs = xs"
  by (induction xs) (simp_all add: insort_is_Cons len_tuple2_def)

text \<open>The key of the sort is 2 for every entry, so the sort leaves the table as built.\<close>

lemma patern_and_type_eq:
  "patern_and_type = concat (map (\<lambda>(t, v). map (\<lambda>p. (p, t)) v) type_to_arg)"
  unfolding patern_and_type_def sort_reverse_def by (simp add: sort_key_len_tuple2)

lemma patern_and_type_list: "patern_and_type =
  [(''x*'', ''int''), (''y*'', ''int''), (''h*'', ''int''), (''width'', ''int''),
   (''height'', ''int''),
   (''windid'', ''wx._WindowID''), (''winid'', ''wx._WindowID''),
   (''pt*'', ''PointLike''), (''point'', ''PointLike''),
   (''dim'', ''SizeLike''), (''sz'', ''SizeLike''), (''size'', ''SizeLike''),
   (''rect'', ''RectLike''),
   (''bitmap*'', ''wx.Bitmap''), (''bmp*'', ''wx.Bitmap''), (''*Bitmap'', ''wx.Bitmap''),
   (''window'', ''wx.Window''),
   (''*eventType'', ''wx._EventType''), (''evtType'', ''wx._EventType''),
   (''dc'', ''wx.DC''),
   (''label'', ''String''), (''text'', ''String''), (''str'', ''String''),
   (''string'', ''String''),
   (''clientData'', ''Any''),
   (''icon'', ''wx.Icon''),
   (''*Colour'', ''wx.Colour''), (''colour'', ''wx.Colour''),
   (''font'', ''wx.Font''),
   (''imageList'', ''wx.ImageList'')]"
  unfolding patern_and_type_eq type_to_arg_def by simp

lemma dropWhile_none: "\<forall>x \<in> set xs. \<not> P x \<Longrightarrow> dropWhile P xs = xs"
  by (cases xs) simp_all

lemma strip_no_star: "CHR ''*'' \<notin> set s \<Longrightarrow> strip ''*'' s = s"
proof -
  assume a: "CHR ''*'' \<notin> set s"
  have "dropWhile (\<lambda>c. c \<in> set ''*'') (rev s) = rev s"
    using a by (intro dropWhile_none) auto
  moreover have "dropWhile (\<lambda>c. c \<in> set ''*'') s = s"
    using a by (intro dropWhile_none) auto
  ultimately show ?thesis by (simp add: strip_def lstrip_def rstrip_def)
qed

text \<open>
  \<^verbatim>\<open>parse_args\<close> calls \<^verbatim>\<open>match(a, name)\<close>: the argument's name is in the place of the
  pattern. A name without a star is then matched by a table entry only when the
  entry's text equals the name.
\<close>

lemma match_swapped:
  assumes "CHR ''*'' \<notin> set nm" "nm \<noteq> []"
  shows "match a nm = Inr (a = nm)"
proof -
  have s: "strip ''*'' nm = nm" using assms(1) by (rule strip_no_star)
  have h: "hd nm \<noteq> CHR ''*''" using assms by (cases nm) auto
  have l: "last nm \<noteq> CHR ''*''" using assms by (metis last_in_set)
  have "\<not> startswith nm ''*''" using h assms(2) by (cases nm) (auto simp: startswith_def)
  moreover have "\<not> endswith nm ''*''"
  proof
    assume "endswith nm ''*''"
    then have "drop (length nm - 1) nm = ''*''" by (simp add: endswith_def)
    then have "last nm = CHR ''*''" using assms(2)
      by (metis last_drop last.simps diff_less length_greater_0_conv zero_less_one)
    with l show False by simp
  qed
  ultimately show ?thesis
    by (simp add: match_def match_exact_def match_leading_def match_trailing_def s)
qed

lemma find_patern_xOffset: "find_patern patern_and_type ''xOffset'' = Inr None"
  unfolding patern_and_type_list by (simp add: match_swapped)

text \<open>
  C1. The claim has \<^verbatim>\<open>parse_args\<close> infer \<^verbatim>\<open>int\<close> for the name \<^verbatim>\<open>xOffset\<close> through the
  pattern \<^verbatim>\<open>x*\<close>. The predicate itself accepts that pair, \<open>match ''xOffset'' ''x*''\<close>, but
  \<^verbatim>\<open>parse_args\<close> calls it with the two arguments exchanged and finds no entry: the
  argument is left uninferred. The table is also not in longest-stem-first order: its
  sort key is the length of the pair, and its first entry is still \<^verbatim>\<open>("x*", "int")\<close>.
\<close>

theorem parse_args_xOffset_uninferred:
  "parse_args E False [''xOffset'']
     = Inr [\<lparr>arg_name = ''xOffset'', arg_tp = None, arg_deafult = False\<rparr>]
   \<and> match ''xOffset'' ''x*'' = Inr True
   \<and> match ''x*'' ''xOffset'' = Inr False
   \<and> hd patern_and_type = (''x*'', ''int'')"
proof -
  have "parse_args E False [''xOffset'']
          = Inr [\<lparr>arg_name = ''xOffset'', arg_tp = None, arg_deafult = False\<rparr>]"
    by (simp add: parse_arg_def partition_eq_def find_patern_xOffset)
  moreover have "match ''xOffset'' ''x*'' = Inr True"
    by (simp add: match_def match_exact_def match_leading_def match_trailing_def strip_def
        lstrip_def rstrip_def startswith_def endswith_def getitem_def isupper_def)
  moreover have "match ''x*'' ''xOffset'' = Inr False"
    by (simp add: match_swapped)
  moreover have "hd patern_and_type = (''x*'', ''int'')"
    unfolding patern_and_type_list by simp
  ultimately show ?thesis by (intro conjI)
qed

section \<open>Properties of import groups\<close>

lemma ImportGroup_init_differ:
  assumes "a \<in> set imps" "b \<in> set imps" "imp_mod a \<noteq> imp_mod b"
  shows "ImportGroup_init imps = Inl ValueError"
proof (cases imps)
  case Nil
  with assms show ?thesis by simp
next
  case (Cons i0 rest)
  have "imp_mod a \<noteq> imp_mod i0 \<or> imp_mod b \<noteq> imp_mod i0" using assms(3) by metis
  then have "\<not> list_all (\<lambda>imp. imp_mod imp = imp_mod i0) imps"
    unfolding list_all_iff using assms(1,2) by blast
  with Cons show ?thesis by (simp add: ImportGroup_init_def)
qed

lemma ImportGroup_init_same:
  assumes "imps \<noteq> []" "\<forall>a \<in> set imps. \<forall>b \<in> set imps. imp_mod a = imp_mod b"
  shows "ImportGroup_init imps = Inr \<lparr>grp_mod = imp_mod (hd imps), grp_imports = imps\<rparr>"
proof (cases imps)
  case Nil
  with assms show ?thesis by simp
next
  case (Cons i0 rest)
  then have "i0 \<in> set imps" by simp
  with assms(2) have "list_all (\<lambda>imp. imp_mod imp = imp_mod i0) imps"
    unfolding list_all_iff by blast
  with Cons show ?thesis by (simp add: ImportGroup_init_def)
qed

text \<open>
  C8. Constructing an ImportGroup from a non-empty sequence raises ValueError when two
  entries name different modules, and otherwise succeeds with the shared module stored;
  the empty sequence is rejected (by the assertion).
\<close>

theorem ImportGroup_init_spec:
  "ImportGroup_init [] = Inl AssertionError
   \<and> (imps \<noteq> [] \<longrightarrow>
        ((\<exists>a \<in> set imps. \<exists>b \<in> set imps. imp_mod a \<noteq> imp_mod b)
            \<longrightarrow> ImportGroup_init imps = Inl ValueError)
        \<and> ((\<forall>a \<in> set imps. \<forall>b \<in> set imps. imp_mod a = imp_mod b)
            \<longrightarrow> ImportGroup_init imps
                  = Inr \<lparr>grp_mod = imp_mod (hd imps), grp_imports = imps\<rparr>))"
proof -
  have "ImportGroup_init [] = Inl AssertionError"
    by (simp add: ImportGroup_init_def)
  then show ?thesis
    using ImportGroup_init_differ [of _ imps] ImportGroup_init_same [of imps] by blast
qed

theorem ImportGroup_init_spec_witness:
  "ImportGroup_init
     [\<lparr>imp_name = ''Frame'', imp_mod = ''wx._core''\<rparr>,
      \<lparr>imp_name = ''Grid'', imp_mod = ''wx._grid''\<rparr>] = Inl ValueError
   \<and> ImportGroup_init
     [\<lparr>imp_name = ''Frame'', imp_mod = ''wx._core''\<rparr>,
      \<lparr>imp_name = ''Panel'', imp_mod = ''wx._core''\<rparr>]
     = Inr \<lparr>grp_mod = ''wx._core'',
            grp_imports = [\<lparr>imp_name = ''Frame'', imp_mod = ''wx._core''\<rparr>,
                           \<lparr>imp_name = ''Panel'', imp_mod = ''wx._core''\<rparr>]\<rparr>"
proof -
  let ?f = "\<lparr>imp_name = ''Frame'', imp_mod = ''wx._core''\<rparr>"
  let ?g = "\<lparr>imp_name = ''Grid'', imp_mod = ''wx._grid''\<rparr>"
  let ?p = "\<lparr>imp_name = ''Panel'', imp_mod = ''wx._core''\<rparr>"
  have d: "\<exists>a \<in> set [?f, ?g]. \<exists>b \<in> set [?f, ?g]. imp_mod a \<noteq> imp_mod b"
    by (intro bexI [of _ ?f] bexI [of _ ?g]) simp_all
  have s: "\<forall>a \<in> set [?f, ?p]. \<forall>b \<in> set [?f, ?p]. imp_mod a = imp_mod b"
    by simp
  have n1: "[?f, ?g] \<noteq> []" and n2: "[?f, ?p] \<noteq> []" by simp_all
  from ImportGroup_init_spec [of "[?f, ?g]"] n1 d
  have "ImportGroup_init [?f, ?g] = Inl ValueError" by blast
  moreover from ImportGroup_init_spec [of "[?f, ?p]"] n2 s
  have "ImportGroup_init [?f, ?p] = Inr \<lparr>grp_mod = imp_mod (hd [?f, ?p]), grp_imports = [?f, ?p]\<rparr>"
    by blast
  ultimately show ?thesis by simp
qed



section \<open>Signatures are always built\<close>


lemma find_patern_total: "\<exists>r. find_patern ps nm = Inr r"
proof (induction ps)
  case Nil
  show ?case by simp
next
  case (Cons p ps)
  obtain a t where p: "p = (a, t)" by (cases p)
  obtain b where b: "match a nm = Inr b" using match_total by blast
  show ?case
  proof (cases b)
    case True
    with p b show ?thesis by simp
  next
    case False
    with p b Cons show ?thesis by simp
  qed
qed

lemma parse_arg_total:
  "\<exists>a. parse_arg E add_any arg = Inr a \<and> arg_name a = fst (partition_eq arg)"
proof (cases "snd (partition_eq arg) \<noteq> []")
  case True
  then show ?thesis by (simp add: parse_arg_def split_beta)
next
  case False
  obtain r where "find_patern patern_and_type (fst (partition_eq arg)) = Inr r"
    using find_patern_total by blast
  with False show ?thesis by (simp add: parse_arg_def split_beta)
qed

lemma parse_args_total:
  "\<exists>r. parse_args E add_any args = Inr r \<and> map arg_name r = map (\<lambda>a. fst (partition_eq a)) args"
proof (induction args)
  case Nil
  show ?case by simp
next
  case (Cons x xs)
  obtain a where a: "parse_arg E add_any x = Inr a" "arg_name a = fst (partition_eq x)"
    using parse_arg_total by blast
  from Cons obtain r where r: "parse_args E add_any xs = Inr r"
    "map arg_name r = map (\<lambda>a. fst (partition_eq a)) xs" by blast
  from a r show ?case by simp
qed

lemma Signature_init_method:
  "\<exists>rest. Signature_init E p init True add_any
      = Inr \<lparr>retanot = modify_ret E (p_return p),
             sig_name = (if init then ''__init__'' else p_name p),
             sig_args = \<lparr>arg_name = ''self'', arg_tp = None, arg_deafult = False\<rparr> # rest\<rparr>
     \<and> map arg_name rest = map (\<lambda>a. fst (partition_eq a)) (p_args p)"
proof -
  obtain r where r: "parse_args E add_any (p_args p) = Inr r"
    "map arg_name r = map (\<lambda>a. fst (partition_eq a)) (p_args p)"
    using parse_args_total by blast
  then show ?thesis by (simp add: Signature_init_def)
qed

lemma Signature_init_total: "\<exists>s. Signature_init E p init meth add_any = Inr s"
proof -
  obtain r where r: "parse_args E add_any (p_args p) = Inr r"
    using parse_args_total by blast
  then show ?thesis by (simp add: Signature_init_def Let_def)
qed

lemma find_signatures_total:
  "\<exists>sigs. find_signatures E ps nm init meth add_any = Inr sigs
     \<and> (\<forall>p \<in> set ps. p_name p = nm \<longrightarrow>
            (\<exists>s \<in> set sigs. Signature_init E p init meth add_any = Inr s))"
proof (induction ps)
  case Nil
  show ?case by simp
next
  case (Cons p ps)
  from Cons obtain sigs where sigs: "find_signatures E ps nm init meth add_any = Inr sigs"
    "\<forall>p \<in> set ps. p_name p = nm \<longrightarrow> (\<exists>s \<in> set sigs. Signature_init E p init meth add_any = Inr s)"
    by blast
  obtain s where s: "Signature_init E p init meth add_any = Inr s"
    using Signature_init_total by blast
  show ?case
  proof (cases "p_name p = nm")
    case True
    with s sigs have "find_signatures E (p # ps) nm init meth add_any = Inr (s # sigs)" by simp
    moreover have "\<forall>q \<in> set (p # ps). p_name q = nm \<longrightarrow>
            (\<exists>s' \<in> set (s # sigs). Signature_init E q init meth add_any = Inr s')"
      using s sigs(2) by auto
    ultimately show ?thesis by blast
  next
    case False
    with sigs have "find_signatures E (p # ps) nm init meth add_any = Inr sigs" by simp
    moreover have "\<forall>q \<in> set (p # ps). p_name q = nm \<longrightarrow>
            (\<exists>s' \<in> set sigs. Signature_init E q init meth add_any = Inr s')"
      using False sigs(2) by auto
    ultimately show ?thesis by blast
  qed
qed

lemma set_type_error: "set_type sig i t = Inl e \<Longrightarrow> e = IndexError"
  by (simp add: set_type_def split: if_splits)

lemma getitem_error: "getitem xs i = Inl e \<Longrightarrow> e = IndexError"
  by (simp add: getitem_def split: if_splits)

lemma event_types_error: "event_types sig is = Inl e \<Longrightarrow> e = IndexError"
proof (induction "is" arbitrary: sig)
  case Nil
  then show ?case by simp
next
  case (Cons i rest)
  then show ?case
    by (auto split: sum.splits if_splits dest: set_type_error getitem_error)
qed

lemma init_heuristics_error: "init_heuristics cls sig = Inl e \<Longrightarrow> e = IndexError"
  unfolding init_heuristics_def
  by (auto split: sum.splits if_splits dest: set_type_error getitem_error event_types_error)

lemma for_each_error:
  assumes "x \<in> set xs" "f x = Inl e0" "\<And>y e. f y = Inl e \<Longrightarrow> e = e0"
  shows "for_each f xs = Inl e0"
  using assms(1)
proof (induction xs)
  case Nil
  then show ?case by simp
next
  case (Cons y ys)
  show ?case
  proof (cases "f y")
    case (Inl e)
    with assms(3) show ?thesis by simp
  next
    case (Inr z)
    with Cons assms(2) have "x \<in> set ys" by auto
    with Cons have "for_each f ys = Inl e0" by simp
    with Inr show ?thesis by simp
  qed
qed

lemma init_heuristics_parent_only:
  assumes "is_Window cls" "sig_args sig = [a0, a1]" "arg_name a1 = ''parent''"
  shows "init_heuristics cls sig = Inl IndexError"
  using assms by (simp add: init_heuristics_def set_type_def getitem_def)

section \<open>The constructor of a window class\<close>


lemma categorise_total:
  "list_all (\<lambda>(n, m). n \<noteq> []) d \<Longrightarrow> \<exists>c'. categorise ign d c = Inr c'"
proof (induction d arbitrary: c)
  case Nil
  show ?case by simp
next
  case (Cons x d)
  obtain n obj where x: "x = (n, obj)" by (cases x)
  with Cons.prems have n: "n \<noteq> []" and d: "list_all (\<lambda>(n, m). n \<noteq> []) d" by simp_all
  from n obtain ch cs where ncs: "n = ch # cs" by (cases n) auto
  show ?case
    unfolding x using Cons.IH [OF d] ncs
    by (cases obj) simp_all
qed

lemma categorise_error: "categorise ign d c = Inl e \<Longrightarrow> e = IndexError"
proof (induction d arbitrary: c)
  case Nil
  then show ?case by simp
next
  case (Cons x d)
  obtain n obj where x: "x = (n, obj)" by (cases x)
  from Cons.prems show ?case
    unfolding x using Cons.IH
    by (cases obj) (auto split: if_splits list.splits)
qed

lemma andthen_raise [simp]: "andthen (l, None) (l', e) = (l @ l', e)"
  by (simp add: andthen_def)

lemma andthen_stop [simp]: "andthen (l, Some e) b = (l, Some e)"
  by (simp add: andthen_def)

lemma make_stub_init_parent_only:
  assumes w: "is_Window cls"
      and p: "p \<in> set (cls_doc cls)" "p_name p = cls_name cls"
      and a: "p_args p = [a]" "fst (partition_eq a) = ''parent''"
  shows "make_stub_init E cls add_any = ([], Some IndexError)"
proof -
  obtain sigs where sigs: "find_signatures E (cls_doc cls) (cls_name cls) True True add_any = Inr sigs"
    and mem: "\<forall>p \<in> set (cls_doc cls). p_name p = cls_name cls \<longrightarrow>
            (\<exists>s \<in> set sigs. Signature_init E p True True add_any = Inr s)"
    using find_signatures_total by blast
  from mem p obtain s where s: "s \<in> set sigs" "Signature_init E p True True add_any = Inr s"
    by blast
  obtain rest where rest: "Signature_init E p True True add_any
      = Inr \<lparr>retanot = modify_ret E (p_return p),
             sig_name = (if True then ''__init__'' else p_name p),
             sig_args = \<lparr>arg_name = ''self'', arg_tp = None, arg_deafult = False\<rparr> # rest\<rparr>"
     "map arg_name rest = map (\<lambda>a. fst (partition_eq a)) (p_args p)"
    using Signature_init_method by blast
  from rest(2) a obtain a1 where a1: "rest = [a1]" "arg_name a1 = ''parent''"
    by (cases rest) auto
  from s(2) rest(1) a1 have "sig_args s = [\<lparr>arg_name = ''self'', arg_tp = None, arg_deafult = False\<rparr>, a1]"
    by auto
  with w a1 have "init_heuristics cls s = Inl IndexError"
    by (intro init_heuristics_parent_only) auto
  with s(1) have "for_each (init_heuristics cls) sigs = Inl IndexError"
    using init_heuristics_error by (intro for_each_error [where x = s]) auto
  moreover from s(1) have "sigs \<noteq> []" by auto
  ultimately show ?thesis using sigs by (simp add: make_stub_init_def)
qed

text \<open>
  C9. For a class that derives from \<^verbatim>\<open>wx.Window\<close>, a signature found for the
  constructor whose only argument is named \<^verbatim>\<open>parent\<close> gives the argument list
  \<^verbatim>\<open>[self, parent]\<close>: the length guard lets it through, \<^verbatim>\<open>sig.args[2]\<close> is read and
  IndexError is raised. \<^verbatim>\<open>make_stub\<close> ends in that exception; of the block only the
  class line has been written.
\<close>

theorem make_stub_parent_only_IndexError:
  assumes "is_Window cls"
      and "p \<in> set (cls_doc cls)" "p_name p = cls_name cls"
      and "p_args p = [a]" "fst (partition_eq a) = ''parent''"
  shows "make_stub_init E cls add_any = ([], Some IndexError)
       \<and> snd (make_stub E cls add_any all_methods hide_mod) = Some IndexError
       \<and> (list_all (\<lambda>(n, m). n \<noteq> []) (cls_dict cls) \<longrightarrow>
            make_stub E cls add_any all_methods hide_mod
              = ([class_header cls hide_mod], Some IndexError))"
proof -
  have i: "make_stub_init E cls add_any = ([], Some IndexError)"
    using assms by (rule make_stub_init_parent_only)
  let ?c = "categorise (ignore E cls all_methods) (cls_dict cls)
             \<lparr>cat_method = [], cat_property = [], cat_other = [], cat_enumclass = []\<rparr>"
  have s: "snd (make_stub E cls add_any all_methods hide_mod) = Some IndexError"
  proof (cases ?c)
    case (Inl e)
    then have "e = IndexError" by (rule categorise_error)
    with Inl show ?thesis by (simp add: make_stub_def)
  next
    case (Inr c)
    with i show ?thesis by (simp add: make_stub_def)
  qed
  have "make_stub E cls add_any all_methods hide_mod = ([class_header cls hide_mod], Some IndexError)"
    if "list_all (\<lambda>(n, m). n \<noteq> []) (cls_dict cls)"
  proof -
    from that obtain c where "?c = Inr c" using categorise_total by blast
    with i show ?thesis by (simp add: make_stub_def)
  qed
  with i s show ?thesis by blast
qed


theorem make_stub_parent_only_IndexError_witness:
  "make_stub plain_env Foo_parent_only False False []
     = ([''class Foo(wx.Window):''], Some IndexError)"
proof -
  let ?p = "\<lparr>p_name = ''Foo'', p_args = [''parent''], p_return = ''None''\<rparr>"
  have 1: "is_Window Foo_parent_only" by (simp add: Foo_parent_only_def Foo_class_def)
  have 2: "?p \<in> set (cls_doc Foo_parent_only)" by (simp add: Foo_parent_only_def)
  have 3: "p_name ?p = cls_name Foo_parent_only" by (simp add: Foo_parent_only_def Foo_class_def)
  have 4: "p_args ?p = [''parent'']" by simp
  have 5: "fst (partition_eq ''parent'') = ''parent''" by (simp add: partition_eq_def)
  have 6: "list_all (\<lambda>(n, m). n \<noteq> []) (cls_dict Foo_parent_only)"
    by (simp add: Foo_parent_only_def Foo_class_def)
  have 7: "class_header Foo_parent_only [] = ''class Foo(wx.Window):''"
    by (simp add: Foo_parent_only_def Foo_class_def class_header_def base_text_def
        List.map_filter_simps startswith_def)
  from make_stub_parent_only_IndexError [OF 1 2 3 4 5, of plain_env False False "[]"] 6 7
  show ?thesis by simp
qed

section \<open>The constructor line and the function fallback\<close>




text \<open>
  C10. When no signature is found for a function, the fallback print of
  \<^verbatim>\<open>make_function_stub\<close> reads the module's global \<^verbatim>\<open>name\<close>: with the global unbound
  (its state after import) the call raises NameError; with the global bound, as by the
  loop of the command line, the stub carries that value and not \<^verbatim>\<open>obj.__name__\<close>.
\<close>

theorem make_function_stub_fallback:
  assumes "find_signatures E (fn_doc obj) (fn_name obj) False False add_any = Inr []"
  shows "make_function_stub E None obj add_any = ([], Some (NameError ''name''))
       \<and> make_function_stub E (Some g) obj add_any
           = ([''def '' @ g @ ''(*args, **kwargs) -> Any: ...''], None)
       \<and> main_iteration E add_any all_methods g (CallableObject obj)
           = ([''def '' @ g @ ''(*args, **kwargs) -> Any: ...'', []], None)"
  using assms by (simp add: make_function_stub_def main_iteration_def)

theorem make_function_stub_fallback_witness:
  "make_function_stub plain_env None \<lparr>fn_name = ''FindFocus'', fn_doc = []\<rparr> False
     = ([], Some (NameError ''name''))
   \<and> main_iteration plain_env False False ''Window.FindFocus''
        (CallableObject \<lparr>fn_name = ''FindFocus'', fn_doc = []\<rparr>)
     = ([''def Window.FindFocus(*args, **kwargs) -> Any: ...'', []], None)"
proof -
  have "find_signatures plain_env (fn_doc \<lparr>fn_name = ''FindFocus'', fn_doc = []\<rparr>)
          (fn_name \<lparr>fn_name = ''FindFocus'', fn_doc = []\<rparr>) False False False = Inr []"
    by simp
  from make_function_stub_fallback [OF this, of "''Window.FindFocus''" False]
  show ?thesis by simp
qed

section \<open>Getter and setter\<close>




lemma replace_Nil: "replace old new [] = []"
  by (subst replace.simps) simp

lemma replace_absent: "\<not> contains s old \<Longrightarrow> replace old new s = s"
proof (induction s)
  case Nil
  show ?case by (rule replace_Nil)
next
  case (Cons c cs)
  then have ns: "\<not> startswith (c # cs) old" and nc: "\<not> contains cs old" by simp_all
  from nc Cons.IH have ih: "replace old new cs = cs" by simp
  show ?case
    by (subst replace.simps) (simp add: ns ih)
qed

lemma replace_prefix: "old \<noteq> [] \<Longrightarrow> replace old new (old @ s) = new @ replace old new s"
  by (subst replace.simps) (simp add: startswith_def)

lemma replace_Get_prefix:
  "\<not> contains X ''Get'' \<Longrightarrow> replace ''Get'' ''Set'' (''Get'' @ X) = ''Set'' @ X"
  using replace_prefix [of "''Get''" "''Set''" X] by (simp add: replace_absent)

lemma getter_setter_record:
  assumes "sig_name sig = ''Get'' @ X" "\<not> contains X ''Get''"
  shows "getter_setter setters name sig
           = Inr (sig, setters(''Set'' @ X \<mapsto>
                    (case map_of convert_arg_type (removeprefix (retanot sig) ''wx.'') of
                       Some r \<Rightarrow> r | None \<Rightarrow> retanot sig)))"
proof -
  have "startswith (sig_name sig) ''Get''" using assms(1) by (simp add: startswith_def)
  moreover have "replace ''Get'' ''Set'' (sig_name sig) = ''Set'' @ X"
    using assms replace_Get_prefix by simp
  ultimately show ?thesis by (simp add: getter_setter_def)
qed

lemma getter_setter_propagate:
  assumes "\<not> startswith (sig_name sig) ''Get''" "sig_name sig = name"
      and "setters name = Some t" "sig_args sig = [a0, a1]"
      and "arg_tp a1 = None \<or> arg_tp a1 = Some ''Any''"
  shows "getter_setter setters name sig
           = Inr (sig\<lparr>sig_args := [a0, a1\<lparr>arg_tp := Some t\<rparr>]\<rparr>, setters(name := None))"
  using assms by (auto simp: getter_setter_def set_type_def)



lemma getter_setter_only:
  assumes "getter_setter setters name sig = Inr (sig', setters')" "sig' \<noteq> sig"
  shows "\<not> startswith (sig_name sig) ''Get'' \<and> setters (sig_name sig) \<noteq> None
         \<and> length (sig_args sig) = 2
         \<and> (arg_tp (sig_args sig ! 1) = None \<or> arg_tp (sig_args sig ! 1) = Some ''Any'')"
  using assms by (auto simp: getter_setter_def Let_def split: if_splits)




lemma Signature_init_name:
  "Signature_init E p False meth add_any = Inr s \<Longrightarrow> sig_name s = p_name p"
  by (auto simp: Signature_init_def Let_def split: sum.splits)

lemma methods_loop_pair:
  assumes g: "gn = ''Get'' @ X" "\<not> contains X ''Get''" "p_name pg = gn"
             "Signature_init E pg False True add_any = Inr sg"
      and s: "sn = ''Set'' @ X" "p_name ps = sn"
             "Signature_init E ps False True add_any = Inr ss"
             "sig_args ss = [a0, a1]" "arg_tp a1 = None \<or> arg_tp a1 = Some ''Any''"
  shows "methods_loop E add_any Map.empty [(gn, [pg], gi), (sn, [ps], si)]
         = ([Signature_print ''    '' sg,
             Signature_print ''    ''
               (ss\<lparr>sig_args :=
                     [a0, a1\<lparr>arg_tp := Some
                       (case map_of convert_arg_type (removeprefix (retanot sg) ''wx.'') of
                          Some r \<Rightarrow> r | None \<Rightarrow> retanot sg)\<rparr>]\<rparr>)],
            None)"
proof -
  let ?t = "case map_of convert_arg_type (removeprefix (retanot sg) ''wx.'') of
              Some r \<Rightarrow> r | None \<Rightarrow> retanot sg"
  let ?m = "Map.empty(sn \<mapsto> ?t)"
  have ng: "sig_name sg = ''Get'' @ X"
    using g(1,3,4) Signature_init_name by metis
  have ns: "sig_name ss = sn"
    using s(2,3) Signature_init_name by metis
  have fg: "find_signatures E [pg] gn False True add_any = Inr [sg]"
    using g(3,4) by simp
  have fs: "find_signatures E [ps] sn False True add_any = Inr [ss]"
    using s(2,3) by simp
  have 1: "getter_setter Map.empty gn sg = Inr (sg, ?m)"
    using getter_setter_record [OF ng g(2), of Map.empty gn] s(1) by simp
  have "\<not> startswith (sig_name ss) ''Get''" using ns s(1) by (simp add: startswith_def)
  then have 2: "getter_setter ?m sn ss
           = Inr (ss\<lparr>sig_args := [a0, a1\<lparr>arg_tp := Some ?t\<rparr>]\<rparr>, ?m(sn := None))"
    using ns s(4,5) by (intro getter_setter_propagate) simp_all
  have l2: "methods_loop E add_any ?m [(sn, [ps], si)]
              = ([Signature_print ''    '' (ss\<lparr>sig_args := [a0, a1\<lparr>arg_tp := Some ?t\<rparr>]\<rparr>)], None)"
    by (simp add: fs 2 del: find_signatures.simps)
  show ?thesis
    by (subst methods_loop.simps(2))
      (simp add: fg 1 l2 del: find_signatures.simps methods_loop.simps)
qed

lemma find_patern_value: "find_patern patern_and_type ''value'' = Inr None"
  unfolding patern_and_type_list by (simp add: match_swapped)

lemma find_patern_clientData: "find_patern patern_and_type ''clientData'' = Inr (Some ''Any'')"
  unfolding patern_and_type_list by (simp add: match_swapped)

lemma modify_ret_plain [simp]:
  "modify_ret plain_env ''int'' = ''int''" "modify_ret plain_env ''None'' = ''None''"
  by (simp_all add: modify_ret_def ret_trans_table_def plain_env_def)


lemma andthen_assoc: "andthen (andthen a b) c = andthen a (andthen b c)"
  by (cases a; cases b) (auto simp: andthen_def split: option.splits)

lemma snd_andthen_None: "snd (andthen a b) = None \<Longrightarrow> snd a = None \<and> snd b = None"
  by (cases a) (auto simp: andthen_def split: option.splits)

lemma fst_andthen_ok: "snd a = None \<Longrightarrow> fst (andthen a b) = fst a @ fst b"
  by (simp add: andthen_def)

lemma find_signatures_names:
  "find_signatures E doc name False meth add_any = Inr sigs \<Longrightarrow> \<forall>s\<in>set sigs. sig_name s = name"
proof (induction doc arbitrary: sigs)
  case Nil
  then show ?case by simp
next
  case (Cons p ps)
  show ?case
  proof (cases "p_name p = name")
    case True
    with Cons.prems obtain s r where
      r: "Signature_init E p False meth add_any = Inr s"
         "find_signatures E ps name False meth add_any = Inr r" "sigs = s # r"
      by (auto split: sum.splits)
    from r(1) True have "sig_name s = name" using Signature_init_name by blast
    with Cons.IH [OF r(2)] r(3) show ?thesis by simp
  next
    case False
    with Cons show ?thesis by simp
  qed
qed

lemma getter_setter_keys:
  assumes "getter_setter setters name sig = Inr (sig', setters')" "sig_name sig = name"
      and "name \<noteq> k" "replace ''Get'' ''Set'' name \<noteq> k"
  shows "setters' k = setters k"
  using assms by (auto simp: getter_setter_def Let_def split: if_splits option.splits sum.splits)

text \<open>
  The loop over a list that is cut in two: the second part starts from the dictionary
  \<^verbatim>\<open>setters\<close> that the first part leaves, in which a key is as before when no method of
  the first part has that name or records under it.
\<close>

lemma methods_loop_prefix:
  "\<exists>s'. (\<forall>ys. methods_loop E a s (xs @ ys)
               = andthen (methods_loop E a s xs) (methods_loop E a s' ys))
       \<and> (\<forall>k. (\<forall>m\<in>set xs. fst m \<noteq> k \<and> replace ''Get'' ''Set'' (fst m) \<noteq> k) \<longrightarrow> s' k = s k)"
proof (induction xs arbitrary: s)
  case Nil
  have "\<forall>ys. methods_loop E a s ([] @ ys) = andthen (methods_loop E a s []) (methods_loop E a s ys)"
    by (simp add: andthen_def)
  then show ?case by blast
next
  case (Cons x xs)
  obtain name doc insp where x: "x = (name, doc, insp)" by (cases x)
  show ?case
  proof (cases "find_signatures E doc name False True a")
    case (Inl e)
    then have "\<forall>ys. methods_loop E a s ((x # xs) @ ys)
                 = andthen (methods_loop E a s (x # xs)) (methods_loop E a s ys)"
      by (simp add: x andthen_def)
    then show ?thesis by blast
  next
    case (Inr sigs)
    show ?thesis
    proof (cases "length sigs = 1")
      case False
      let ?l = "if sigs = [] then [''    def '' @ name @ insp a @ '' -> Any: ...'']
                else print_sigs ''    '' sigs"
      have step: "methods_loop E a s (x # zs) = andthen (?l, None) (methods_loop E a s zs)" for zs
        using Inr False by (simp add: x)
      from Cons.IH [of s] obtain s' where
        ih: "\<forall>ys. methods_loop E a s (xs @ ys)
                 = andthen (methods_loop E a s xs) (methods_loop E a s' ys)"
            "\<forall>k. (\<forall>m\<in>set xs. fst m \<noteq> k \<and> replace ''Get'' ''Set'' (fst m) \<noteq> k) \<longrightarrow> s' k = s k"
        by blast
      have "methods_loop E a s ((x # xs) @ ys)
              = andthen (methods_loop E a s (x # xs)) (methods_loop E a s' ys)" for ys
      proof -
        have "methods_loop E a s ((x # xs) @ ys)
                = andthen (?l, None) (methods_loop E a s (xs @ ys))"
          using step [of "xs @ ys"] by simp
        also have "\<dots> = andthen (?l, None)
                          (andthen (methods_loop E a s xs) (methods_loop E a s' ys))"
          using ih(1) by simp
        also have "\<dots> = andthen (methods_loop E a s (x # xs)) (methods_loop E a s' ys)"
          unfolding step [of xs] by (rule andthen_assoc [symmetric])
        finally show ?thesis .
      qed
      moreover have "\<forall>k. (\<forall>m\<in>set (x # xs). fst m \<noteq> k \<and> replace ''Get'' ''Set'' (fst m) \<noteq> k)
                        \<longrightarrow> s' k = s k"
        using ih(2) by simp
      ultimately show ?thesis by blast
    next
      case True
      then obtain sg where sg: "sigs = [sg]" by (cases sigs) auto
      from Inr sg have nm: "sig_name sg = name"
        using find_signatures_names by fastforce
      show ?thesis
      proof (cases "getter_setter s name sg")
        case (Inl e)
        then have "\<forall>ys. methods_loop E a s ((x # xs) @ ys)
                     = andthen (methods_loop E a s (x # xs)) (methods_loop E a s ys)"
          using Inr sg by (simp add: x andthen_def)
        then show ?thesis by blast
      next
        case r: (Inr res)
        obtain sg' s1 where res: "res = (sg', s1)" by (cases res)
        have step: "methods_loop E a s (x # zs)
                      = andthen ([Signature_print ''    '' sg'], None) (methods_loop E a s1 zs)"
          for zs
          using Inr sg r res by (simp add: x)
        from Cons.IH [of s1] obtain s' where
          ih: "\<forall>ys. methods_loop E a s1 (xs @ ys)
                   = andthen (methods_loop E a s1 xs) (methods_loop E a s' ys)"
              "\<forall>k. (\<forall>m\<in>set xs. fst m \<noteq> k \<and> replace ''Get'' ''Set'' (fst m) \<noteq> k)
                     \<longrightarrow> s' k = s1 k"
          by blast
        have "methods_loop E a s ((x # xs) @ ys)
                = andthen (methods_loop E a s (x # xs)) (methods_loop E a s' ys)" for ys
        proof -
          have "methods_loop E a s ((x # xs) @ ys)
                  = andthen ([Signature_print ''    '' sg'], None)
                      (methods_loop E a s1 (xs @ ys))"
            using step [of "xs @ ys"] by simp
          also have "\<dots> = andthen ([Signature_print ''    '' sg'], None)
                            (andthen (methods_loop E a s1 xs) (methods_loop E a s' ys))"
            using ih(1) by simp
          also have "\<dots> = andthen (methods_loop E a s (x # xs)) (methods_loop E a s' ys)"
            unfolding step [of xs] by (rule andthen_assoc [symmetric])
          finally show ?thesis .
        qed
        moreover have "s' k = s k"
          if q: "\<forall>m\<in>set (x # xs). fst m \<noteq> k \<and> replace ''Get'' ''Set'' (fst m) \<noteq> k" for k
        proof -
          from q have "name \<noteq> k" "replace ''Get'' ''Set'' name \<noteq> k" by (simp_all add: x)
          with r res nm have "s1 k = s k" using getter_setter_keys by blast
          moreover from q ih(2) have "s' k = s1 k" by simp
          ultimately show ?thesis by simp
        qed
        ultimately show ?thesis by blast
      qed
    qed
  qed
qed


lemma methods_loop_getter_setter:
  assumes g: "gn = ''Get'' @ X" "\<not> contains X ''Get''" "sn = ''Set'' @ X"
      and fg: "find_signatures E gdoc gn False True add_any = Inr [sg]"
      and fs: "find_signatures E sdoc sn False True add_any = Inr [ss]"
      and quiet: "\<forall>m\<in>set mid. fst m \<noteq> sn \<and> replace ''Get'' ''Set'' (fst m) \<noteq> sn"
      and ok: "snd (methods_loop E add_any Map.empty (pre @ (gn, gdoc, gi) # mid)) = None"
  shows "take (length (fst (methods_loop E add_any Map.empty (pre @ (gn, gdoc, gi) # mid))))
           (fst (methods_loop E add_any Map.empty
                   (pre @ (gn, gdoc, gi) # mid @ (sn, sdoc, si) # post)))
         = fst (methods_loop E add_any Map.empty (pre @ (gn, gdoc, gi) # mid))"
    and "fst (methods_loop E add_any Map.empty
                (pre @ (gn, gdoc, gi) # mid @ (sn, sdoc, si) # post))
           ! length (fst (methods_loop E add_any Map.empty (pre @ (gn, gdoc, gi) # mid)))
         = Signature_print ''    ''
             (if length (sig_args ss) = 2
                 \<and> (arg_tp (sig_args ss ! 1) = None \<or> arg_tp (sig_args ss ! 1) = Some ''Any'')
              then ss\<lparr>sig_args := (sig_args ss)
                        [1 := (sig_args ss ! 1)
                           \<lparr>arg_tp := Some
                              (case map_of convert_arg_type (removeprefix (retanot sg) ''wx.'') of
                                 Some r \<Rightarrow> r | None \<Rightarrow> retanot sg)\<rparr>]\<rparr>
              else ss)"
proof -
  let ?t = "case map_of convert_arg_type (removeprefix (retanot sg) ''wx.'') of
              Some r \<Rightarrow> r | None \<Rightarrow> retanot sg"
  let ?L = "methods_loop E add_any"
  let ?g = "(gn, gdoc, gi)" and ?s = "(sn, sdoc, si)"
  let ?X = "if length (sig_args ss) = 2
                 \<and> (arg_tp (sig_args ss ! 1) = None \<or> arg_tp (sig_args ss ! 1) = Some ''Any'')
            then ss\<lparr>sig_args := (sig_args ss)[1 := (sig_args ss ! 1)\<lparr>arg_tp := Some ?t\<rparr>]\<rparr>
            else ss"
  have ng: "sig_name sg = gn" using fg find_signatures_names by fastforce
  have ns: "sig_name ss = sn" using fs find_signatures_names by fastforce
  have sg_get: "startswith gn ''Get''" using g(1) by (simp add: startswith_def)
  have ss_get: "\<not> startswith sn ''Get''" using g(3) by (simp add: startswith_def)
  have key: "replace ''Get'' ''Set'' gn = sn"
    using g replace_Get_prefix by simp
  from methods_loop_prefix [of E add_any Map.empty pre] obtain s0 where
    p0: "\<forall>ys. ?L Map.empty (pre @ ys) = andthen (?L Map.empty pre) (?L s0 ys)"
    by blast
  have gs: "getter_setter s0 gn sg = Inr (sg, s0(sn \<mapsto> ?t))"
    using ng sg_get key by (simp add: getter_setter_def)
  have stepg: "?L s0 (?g # zs)
                 = andthen ([Signature_print ''    '' sg], None) (?L (s0(sn \<mapsto> ?t)) zs)" for zs
    using fg gs by simp
  from methods_loop_prefix [of E add_any "s0(sn \<mapsto> ?t)" mid] obtain s1 where
    p1: "\<forall>ys. ?L (s0(sn \<mapsto> ?t)) (mid @ ys)
             = andthen (?L (s0(sn \<mapsto> ?t)) mid) (?L s1 ys)"
    and k1: "\<forall>k. (\<forall>m\<in>set mid. fst m \<noteq> k \<and> replace ''Get'' ''Set'' (fst m) \<noteq> k)
                  \<longrightarrow> s1 k = (s0(sn \<mapsto> ?t)) k"
    by blast
  from k1 quiet have s1: "s1 sn = Some ?t" by simp
  have "\<exists>s2. getter_setter s1 sn ss = Inr (?X, s2)"
  proof (cases "length (sig_args ss) = 2
                 \<and> (arg_tp (sig_args ss ! 1) = None \<or> arg_tp (sig_args ss ! 1) = Some ''Any'')")
    case True
    then have "set_type ss 1 ?t
                 = Inr (ss\<lparr>sig_args := (sig_args ss)[1 := (sig_args ss ! 1)\<lparr>arg_tp := Some ?t\<rparr>]\<rparr>)"
      by (simp add: set_type_def)
    with True ns ss_get s1 show ?thesis by (auto simp: getter_setter_def)
  next
    case False
    then have "(length (sig_args ss) = 2
                 \<and> (arg_tp (sig_args ss ! 1) = None \<or> arg_tp (sig_args ss ! 1) = Some ''Any''))
               = False" by simp
    with ns ss_get show ?thesis by (auto simp: getter_setter_def)
  qed
  then obtain s2 where gss: "getter_setter s1 sn ss = Inr (?X, s2)" by blast
  have steps: "?L s1 (?s # zs) = andthen ([Signature_print ''    '' ?X], None) (?L s2 zs)" for zs
    using fs gss by simp
  let ?A = "?L Map.empty pre" and ?M = "?L (s0(sn \<mapsto> ?t)) mid"
  let ?G = "([Signature_print ''    '' sg], None) :: out"
  let ?P = "([Signature_print ''    '' ?X], None) :: out"
  have before: "?L Map.empty (pre @ ?g # mid) = andthen ?A (andthen ?G ?M)"
    using p0 stepg [of mid] by simp
  have "?L (s0(sn \<mapsto> ?t)) (mid @ ?s # post) = andthen ?M (andthen ?P (?L s2 post))"
    using p1 steps [of post] by simp
  then have out: "?L Map.empty (pre @ ?g # mid @ ?s # post)
                    = andthen ?A (andthen ?G (andthen ?M (andthen ?P (?L s2 post))))"
    using p0 stepg [of "mid @ ?s # post"] by simp
  from ok have "snd (andthen ?A (andthen ?G ?M)) = None" unfolding before .
  then have a: "snd ?A = None" and "snd (andthen ?G ?M) = None"
    using snd_andthen_None by blast+
  then have m: "snd ?M = None" using snd_andthen_None by blast
  have fb: "fst (?L Map.empty (pre @ ?g # mid))
              = fst ?A @ [Signature_print ''    '' sg] @ fst ?M"
    unfolding before using a by (simp add: fst_andthen_ok andthen_def)
  have fo: "fst (?L Map.empty (pre @ ?g # mid @ ?s # post))
              = (fst ?A @ [Signature_print ''    '' sg] @ fst ?M)
                @ Signature_print ''    '' ?X # fst (?L s2 post)"
    unfolding out using a m by (simp add: andthen_def)
  show "take (length (fst (?L Map.empty (pre @ ?g # mid))))
           (fst (?L Map.empty (pre @ ?g # mid @ ?s # post)))
         = fst (?L Map.empty (pre @ ?g # mid))"
    unfolding fo fb by simp
  show "fst (?L Map.empty (pre @ ?g # mid @ ?s # post))
           ! length (fst (?L Map.empty (pre @ ?g # mid)))
         = Signature_print ''    '' ?X"
    unfolding fo fb by (simp only: nth_append_length)
qed


text \<open>
  C4, as the code has it. In the loop over the sorted methods, take a method \<^verbatim>\<open>GetX\<close>
  (\<^verbatim>\<open>X\<close> without a further \<^verbatim>\<open>Get\<close>) with exactly one signature, and a later method
  \<^verbatim>\<open>SetX\<close> with exactly one signature; the methods between them are any methods that are
  not named \<^verbatim>\<open>SetX\<close> and do not record under the key \<^verbatim>\<open>SetX\<close>, and nothing before the
  setter raises. Then the lines printed before the setter are unchanged, and the line
  of the setter has the renamed return type of the getter on its argument when it has
  exactly one argument after \<^verbatim>\<open>self\<close> whose type is absent or \<^verbatim>\<open>Any\<close>; otherwise the
  line of the setter is that of its signature as parsed. In the branch for a method
  with one signature, the signature is changed only when the method is not a getter,
  its name is a recorded key, and it has exactly one argument after \<^verbatim>\<open>self\<close>, of type
  absent or \<^verbatim>\<open>Any\<close>.
\<close>

theorem getter_setter_propagation:
  assumes "gn = ''Get'' @ X" and "\<not> contains X ''Get''" and "sn = ''Set'' @ X"
      and "find_signatures E gdoc gn False True add_any = Inr [sg]"
      and "find_signatures E sdoc sn False True add_any = Inr [ss]"
      and "\<forall>m\<in>set mid. fst m \<noteq> sn \<and> replace ''Get'' ''Set'' (fst m) \<noteq> sn"
      and "snd (methods_loop E add_any Map.empty (pre @ (gn, gdoc, gi) # mid)) = None"
  shows "take (length (fst (methods_loop E add_any Map.empty (pre @ (gn, gdoc, gi) # mid))))
           (fst (methods_loop E add_any Map.empty
                   (pre @ (gn, gdoc, gi) # mid @ (sn, sdoc, si) # post)))
         = fst (methods_loop E add_any Map.empty (pre @ (gn, gdoc, gi) # mid))
       \<and> fst (methods_loop E add_any Map.empty
                (pre @ (gn, gdoc, gi) # mid @ (sn, sdoc, si) # post))
           ! length (fst (methods_loop E add_any Map.empty (pre @ (gn, gdoc, gi) # mid)))
         = Signature_print ''    ''
             (if length (sig_args ss) = 2
                 \<and> (arg_tp (sig_args ss ! 1) = None \<or> arg_tp (sig_args ss ! 1) = Some ''Any'')
              then ss\<lparr>sig_args := (sig_args ss)
                        [1 := (sig_args ss ! 1)
                           \<lparr>arg_tp := Some
                              (case map_of convert_arg_type (removeprefix (retanot sg) ''wx.'') of
                                 Some r \<Rightarrow> r | None \<Rightarrow> retanot sg)\<rparr>]\<rparr>
              else ss)
       \<and> (getter_setter setters name sig = Inr (sig', setters') \<and> sig' \<noteq> sig \<longrightarrow>
            \<not> startswith (sig_name sig) ''Get'' \<and> setters (sig_name sig) \<noteq> None
            \<and> length (sig_args sig) = 2
            \<and> (arg_tp (sig_args sig ! 1) = None \<or> arg_tp (sig_args sig ! 1) = Some ''Any''))"
  using methods_loop_getter_setter [OF assms, of si post]
        getter_setter_only [of setters name sig sig' setters']
  by blast

theorem getter_setter_propagation_witness:
  "methods_loop plain_env False Map.empty
       [(''GetWidth'', [\<lparr>p_name = ''GetWidth'', p_args = [], p_return = ''int''\<rparr>], no_inspect),
        (''Refresh'', [], no_inspect)]
     = ([''    def GetWidth(self) -> int: ...'',
         ''    def Refresh(self, /, *args, **kwargs) -> Any: ...''], None)
   \<and> fst (methods_loop plain_env False Map.empty
       [(''GetWidth'', [\<lparr>p_name = ''GetWidth'', p_args = [], p_return = ''int''\<rparr>], no_inspect),
        (''Refresh'', [], no_inspect),
        (''SetWidth'', [\<lparr>p_name = ''SetWidth'', p_args = [''value''], p_return = ''None''\<rparr>],
         no_inspect)]) ! 2
     = ''    def SetWidth(self, value: int) -> None: ...''
   \<and> [''SetWidth'' \<mapsto> ''int''] ''SetWidth'' \<noteq> None"
proof -
  let ?self = "\<lparr>arg_name = ''self'', arg_tp = None, arg_deafult = False\<rparr>"
  let ?varg = "\<lparr>arg_name = ''value'', arg_tp = None, arg_deafult = False\<rparr>"
  let ?sg = "\<lparr>retanot = ''int'', sig_name = ''GetWidth'', sig_args = [?self]\<rparr>"
  let ?ss = "\<lparr>retanot = ''None'', sig_name = ''SetWidth'', sig_args = [?self, ?varg]\<rparr>"
  let ?ss' = "\<lparr>retanot = ''None'', sig_name = ''SetWidth'',
               sig_args = [?self, \<lparr>arg_name = ''value'', arg_tp = Some ''int'',
                                   arg_deafult = False\<rparr>]\<rparr>"
  let ?pg = "\<lparr>p_name = ''GetWidth'', p_args = [], p_return = ''int''\<rparr>"
  let ?ps = "\<lparr>p_name = ''SetWidth'', p_args = [''value''], p_return = ''None''\<rparr>"
  let ?m = "[''SetWidth'' \<mapsto> ''int'']"
  let ?G = "(''GetWidth'', [?pg], no_inspect)"
  let ?R = "(''Refresh'', [] :: parsed list, no_inspect)"
  let ?S = "(''SetWidth'', [?ps], no_inspect)"
  have nc: "\<not> contains ''Width'' ''Get''" by (simp add: startswith_def)
  have fg: "find_signatures plain_env [?pg] ''GetWidth'' False True False = Inr [?sg]"
    by (simp add: Signature_init_def)
  have fs: "find_signatures plain_env [?ps] ''SetWidth'' False True False = Inr [?ss]"
    by (simp add: Signature_init_def parse_arg_def partition_eq_def find_patern_value)
  have ty: "(case map_of convert_arg_type (removeprefix (retanot ?sg) ''wx.'') of
               Some r \<Rightarrow> r | None \<Rightarrow> retanot ?sg) = ''int''"
    by (simp add: convert_arg_type_def removeprefix_def startswith_def)
  have fr: "find_signatures plain_env [] ''Refresh'' False True False = Inr []" by simp
  have rr: "replace ''Get'' ''Set'' ''Refresh'' = ''Refresh''"
    by (rule replace_absent) (simp add: startswith_def)
  have q: "\<forall>m\<in>set [?R]. fst m \<noteq> ''SetWidth'' \<and> replace ''Get'' ''Set'' (fst m) \<noteq> ''SetWidth''"
    by (simp add: rr)
  have gs: "getter_setter Map.empty ''GetWidth'' ?sg = Inr (?sg, ?m)"
    using getter_setter_record [of ?sg "''Width''" Map.empty "''GetWidth''"] nc ty by simp
  have before: "methods_loop plain_env False Map.empty ([] @ ?G # [?R])
     = ([''    def GetWidth(self) -> int: ...'',
         ''    def Refresh(self, /, *args, **kwargs) -> Any: ...''], None)"
    using fg gs fr
    by (simp add: Signature_print_def no_inspect_def del: find_signatures.simps)
  then have ok: "snd (methods_loop plain_env False Map.empty ([] @ ?G # [?R])) = None"
    by simp
  have g1: "''GetWidth'' = ''Get'' @ ''Width''" and g3: "''SetWidth'' = ''Set'' @ ''Width''"
    by simp_all
  note t = getter_setter_propagation
             [OF g1 nc g3 fg fs q ok, of no_inspect "[]" ?m "''SetWidth''" ?ss ?ss' Map.empty]
  have len: "length (fst (methods_loop plain_env False Map.empty ([] @ ?G # [?R]))) = 2"
    unfolding before by simp
  have "fst (methods_loop plain_env False Map.empty ([] @ ?G # [?R] @ ?S # [])) ! 2
          = Signature_print ''    '' ?ss'"
    using t [THEN conjunct2, THEN conjunct1] unfolding len ty by simp
  then have two: "fst (methods_loop plain_env False Map.empty [?G, ?R, ?S]) ! 2
          = ''    def SetWidth(self, value: int) -> None: ...''"
    by (simp add: Signature_print_def)
  have "getter_setter ?m ''SetWidth'' ?ss = Inr (?ss', Map.empty)"
    using getter_setter_propagate [of ?ss "''SetWidth''" ?m "''int''" ?self ?varg]
    by (simp add: startswith_def)
  then have h3: "getter_setter ?m ''SetWidth'' ?ss = Inr (?ss', Map.empty) \<and> ?ss' \<noteq> ?ss"
    by simp
  have three: "?m (sig_name ?ss) \<noteq> None"
    using t [THEN conjunct2, THEN conjunct2, THEN mp, OF h3] by blast
  from before two three show ?thesis by simp
qed

text \<open>
  The claim C4 as stated has the propagation only for a parameter that starts out
  uninferred. The argument \<^verbatim>\<open>clientData\<close> is inferred as \<^verbatim>\<open>Any\<close> from the name table,
  and the setter still receives the getter's type \<^verbatim>\<open>int\<close>: the test of the source is
  \<^verbatim>\<open>tp in (None, "Any")\<close>.
\<close>

theorem setter_inferred_Any_overwritten:
  "parse_args plain_env False [''clientData'']
     = Inr [\<lparr>arg_name = ''clientData'', arg_tp = Some ''Any'', arg_deafult = False\<rparr>]
   \<and> methods_loop plain_env False Map.empty
       [(''GetData'', [\<lparr>p_name = ''GetData'', p_args = [], p_return = ''int''\<rparr>], no_inspect),
        (''SetData'', [\<lparr>p_name = ''SetData'', p_args = [''clientData''], p_return = ''None''\<rparr>],
         no_inspect)]
     = ([''    def GetData(self) -> int: ...'',
         ''    def SetData(self, clientData: int) -> None: ...''], None)"
proof -
  let ?self = "\<lparr>arg_name = ''self'', arg_tp = None, arg_deafult = False\<rparr>"
  let ?cd = "\<lparr>arg_name = ''clientData'', arg_tp = Some ''Any'', arg_deafult = False\<rparr>"
  let ?sg = "\<lparr>retanot = ''int'', sig_name = ''GetData'', sig_args = [?self]\<rparr>"
  let ?ss = "\<lparr>retanot = ''None'', sig_name = ''SetData'', sig_args = [?self, ?cd]\<rparr>"
  let ?pg = "\<lparr>p_name = ''GetData'', p_args = [], p_return = ''int''\<rparr>"
  let ?ps = "\<lparr>p_name = ''SetData'', p_args = [''clientData''], p_return = ''None''\<rparr>"
  have pa: "parse_args plain_env False [''clientData''] = Inr [?cd]"
    by (simp add: parse_arg_def partition_eq_def find_patern_clientData)
  let ?ty = "\<lambda>sg. case map_of convert_arg_type (removeprefix (retanot sg) ''wx.'') of
                     Some r \<Rightarrow> r | None \<Rightarrow> retanot sg"
  have nc: "\<not> contains ''Data'' ''Get''" by (simp add: startswith_def)
  have isg: "Signature_init plain_env ?pg False True False = Inr ?sg"
    by (simp add: Signature_init_def)
  have iss: "Signature_init plain_env ?ps False True False = Inr ?ss"
    by (simp add: Signature_init_def pa del: parse_args.simps)
  have ty: "?ty ?sg = ''int''"
    by (simp add: convert_arg_type_def removeprefix_def startswith_def)
  have "methods_loop plain_env False Map.empty
          [(''GetData'', [?pg], no_inspect), (''SetData'', [?ps], no_inspect)]
        = ([Signature_print ''    '' ?sg,
            Signature_print ''    ''
              (?ss\<lparr>sig_args := [?self, ?cd\<lparr>arg_tp := Some (?ty ?sg)\<rparr>]\<rparr>)], None)"
    by (rule methods_loop_pair [where X = "''Data''"]) (simp_all add: isg iss startswith_def)
  then have "methods_loop plain_env False Map.empty
       [(''GetData'', [?pg], no_inspect), (''SetData'', [?ps], no_inspect)]
     = ([''    def GetData(self) -> int: ...'',
         ''    def SetData(self, clientData: int) -> None: ...''], None)"
    unfolding ty by (simp add: Signature_print_def)
  with pa show ?thesis by simp
qed

text \<open>\<^verbatim>\<open>str.replace\<close> changes every \<^verbatim>\<open>Get\<close> of the name, not only the prefix.\<close>

lemma replace_every_Get: "replace ''Get'' ''Set'' ''GetOnGet'' = ''SetOnSet''"
  by (simp add: replace.simps startswith_def)

section \<open>The constructor of a window class\<close>




lemma set_type_length: "set_type sig i t = Inr s \<Longrightarrow> length (sig_args s) = length (sig_args sig)"
  by (auto simp: set_type_def split: if_splits)












lemma Foo_empty_dict:
  "categorise (ignore plain_env c False) []
     \<lparr>cat_method = [], cat_property = [], cat_other = [], cat_enumclass = []\<rparr>
   = Inr \<lparr>cat_method = [], cat_property = [], cat_other = [], cat_enumclass = []\<rparr>"
  by simp





section \<open>The override stub files\<close>








lemma dict_keys_remove_name: "dict_keys (remove_name x d) \<subseteq> dict_keys d"
  by (induction d) (auto simp: dict_keys_def)


lemma remove_name_distinct:
  "distinct (map fst d) \<Longrightarrow> distinct (map fst (remove_name x d))"
proof (induction d)
  case Nil
  show ?case by simp
next
  case (Cons e d)
  have "fst e \<notin> dict_keys (remove_name x d)"
    using Cons.prems dict_keys_remove_name [of x d] by (auto simp: dict_keys_def)
  with Cons show ?case by (auto simp: dict_keys_def)
qed




lemma keeps_refl: "keeps stem s s"
  by (cases s) (auto simp: keeps_def)

lemma keeps_trans: "keeps stem a b \<Longrightarrow> keeps stem b c \<Longrightarrow> keeps stem a c"
  by (cases a; cases b; cases c) (auto simp: keeps_def)

lemma node_step_keeps:
  assumes "node_step stem nd s = Inr s'"
  shows "keeps stem s s'"
proof -
  obtain i l st where s: "s = (i, l, st)" by (cases s)
  obtain i' l' st' where s': "s' = (i', l', st')" by (cases s')
  note rk = dict_keys_remove_name
  note rd = remove_name_distinct
  show ?thesis
  proof (cases nd)
    case (ClassDef name body)
    with assms s s' rk [of name "mod_dict st"] rd [of "mod_dict st" name] show ?thesis
      by (auto simp: node_step_def Let_def keeps_def
          split: list.splits if_splits prod.splits option.splits)
  next
    case (FunctionDef fd)
    with assms s s' rk [of "fd_name fd" "mod_dict st"] rd [of "mod_dict st" "fd_name fd"]
    show ?thesis
      by (auto simp: node_step_def Let_def keeps_def
          split: list.splits if_splits prod.splits option.splits sum.splits decorator.splits)
  next
    case (AnnAssign target)
    with assms s s' rk [of "the target" "mod_dict st"] rd [of "mod_dict st" "the target"]
    show ?thesis
      by (auto simp: node_step_def Let_def keeps_def
          split: list.splits if_splits option.splits)
  next
    case OtherNode
    with assms s s' show ?thesis by (auto simp: node_step_def keeps_def)
  qed
qed




lemma module_nodes_keeps:
  "module_nodes stem nodes s = Inr s' \<Longrightarrow> keeps stem s s'"
proof (induction nodes arbitrary: s)
  case Nil
  then show ?case by (simp add: keeps_refl)
next
  case (Cons nd rest)
  then obtain s1 where s1: "node_step stem nd s = Inr s1" "module_nodes stem rest s1 = Inr s'"
    by (auto split: sum.splits)
  from s1(1) have "keeps stem s s1" by (rule node_step_keeps)
  moreover from s1(2) have "keeps stem s1 s'" by (rule Cons.IH)
  ultimately show ?case by (rule keeps_trans)
qed






















lemma dict_set_fst: "k \<in> dict_keys d \<Longrightarrow> map fst (dict_set k v d) = map fst d"
  by (simp add: dict_set_def comp_def case_prod_beta)


lemma dict_set_distinct: "distinct (map fst d) \<Longrightarrow> distinct (map fst (dict_set k v d))"
proof (cases "k \<in> dict_keys d")
  case True
  assume "distinct (map fst d)"
  then show ?thesis by (simp add: dict_set_fst [OF True])
next
  case False
  assume "distinct (map fst d)"
  with False show ?thesis by (simp add: dict_set_def dict_keys_def)
qed






section \<open>The order of the buckets\<close>


lemma insort_key_lex:
  fixes f :: "'a \<Rightarrow> 'k::linorder" and g :: "'a \<Rightarrow> 'l::linorder"
  assumes "sorted (map (\<lambda>x. (f x, g x)) ys)" "\<forall>y \<in> set ys. g x \<le> g y"
  shows "sorted (map (\<lambda>x. (f x, g x)) (insort_key f x ys))"
  using assms
proof (induction ys)
  case Nil
  show ?case by simp
next
  case (Cons y ys)
  show ?case
  proof (cases "f x \<le> f y")
    case True
    from Cons.prems have xy: "(f x, g x) \<le> (f y, g y)"
      using True by (auto simp: less_eq_prod_def)
    from Cons.prems have "\<forall>z \<in> set ys. (f y, g y) \<le> (f z, g z)" by simp
    with xy have "\<forall>z \<in> set ys. (f x, g x) \<le> (f z, g z)"
      using order_trans by blast
    with xy Cons.prems True show ?thesis by simp
  next
    case False
    then have yx: "(f y, g y) \<le> (f x, g x)" by (auto simp: less_eq_prod_def)
    from Cons.prems have s: "sorted (map (\<lambda>x. (f x, g x)) ys)"
      and a: "\<forall>z \<in> set ys. (f y, g y) \<le> (f z, g z)" and b: "\<forall>y \<in> set ys. g x \<le> g y"
      by simp_all
    from Cons.IH [OF s b] have "sorted (map (\<lambda>x. (f x, g x)) (insort_key f x ys))" .
    moreover have "\<forall>z \<in> set (insort_key f x ys). (f y, g y) \<le> (f z, g z)"
      using a yx by (auto simp: set_insort_key)
    ultimately show ?thesis using False by simp
  qed
qed

text \<open>A stable sort by \<open>f\<close> of a list sorted by \<open>g\<close> is sorted by \<open>f\<close>, then \<open>g\<close>.\<close>

lemma sort_key_lex:
  fixes f :: "'a \<Rightarrow> 'k::linorder" and g :: "'a \<Rightarrow> 'l::linorder"
  assumes "sorted (map g xs)"
  shows "sorted (map (\<lambda>x. (f x, g x)) (sort_key f xs))"
  using assms
proof (induction xs)
  case Nil
  show ?case by simp
next
  case (Cons x xs)
  then have "sorted (map (\<lambda>x. (f x, g x)) (sort_key f xs))" and "\<forall>y \<in> set xs. g x \<le> g y"
    by simp_all
  then show ?case by (simp add: insort_key_lex)
qed

lemma sorted_sort_key_map: "sorted (map f (sort_key f xs))"
  by (rule sorted_sort_key)

lemma sort_buckets_const:
  assumes "sort_buckets b = Inr b'"
  shows "sorted (map const_key (def_const b'))"
proof -
  let ?c1 = "sort_key an_name (def_const b)"
  let ?c2 = "sort_key (\<lambda>a. take 7 (an_type a)) ?c1"
  let ?c3 = "sort_key (\<lambda>a. the (an_data a)) ?c2"
  have 1: "sorted (map an_name ?c1)" by (rule sorted_sort_key)
  have 2: "sorted (map (\<lambda>a. (take 7 (an_type a), an_name a)) ?c2)"
    using sort_key_lex [OF 1] .
  have 3: "sorted (map (\<lambda>a. (the (an_data a), (take 7 (an_type a), an_name a))) ?c3)"
    using sort_key_lex [OF 2] .
  have c: "def_const b' = ?c3"
    using assms by (auto simp: sort_buckets_def Let_def split: if_splits)
  have k: "const_key = (\<lambda>a. (the (an_data a), (take 7 (an_type a), an_name a)))"
    by (simp add: const_key_def fun_eq_iff)
  show ?thesis unfolding c k using 3 .
qed

lemma sort_buckets_others:
  assumes "sort_buckets b = Inr b'"
  shows "sorted (map an_name (def_undef b'))" "sorted (map ec_name (def_enum b'))"
        "sorted (map an_name (def_evt b'))" "sorted (map err_key (def_err b'))"
        "mset (def_const b') = mset (def_const b)" "mset (def_undef b') = mset (def_undef b)"
        "mset (def_enum b') = mset (def_enum b)" "mset (def_evt b') = mset (def_evt b)"
        "mset (def_err b') = mset (def_err b)"
proof -
  from assms have e: "b' = b\<lparr>def_undef := sort_key an_name (def_undef b),
                     def_enum := sort_key ec_name (def_enum b),
                     def_const := sort_key (\<lambda>a. the (an_data a))
                        (sort_key (\<lambda>a. take 7 (an_type a)) (sort_key an_name (def_const b))),
                     def_evt := sort_key an_name (def_evt b),
                     def_err := sort_key is_not_Class (sort_key decl_name (def_err b))\<rparr>"
    by (auto simp: sort_buckets_def Let_def split: if_splits)
  have k: "err_key = (\<lambda>d. (is_not_Class d, decl_name d))"
    by (simp add: err_key_def fun_eq_iff)
  have "sorted (map decl_name (sort_key decl_name (def_err b)))" by (rule sorted_sort_key)
  from sort_key_lex [OF this]
  have "sorted (map err_key (sort_key is_not_Class (sort_key decl_name (def_err b))))"
    unfolding k .
  then show "sorted (map err_key (def_err b'))" by (simp add: e)
  show "sorted (map an_name (def_undef b'))" "sorted (map ec_name (def_enum b'))"
        "sorted (map an_name (def_evt b'))"
    by (simp_all add: e sorted_sort_key)
  show "mset (def_const b') = mset (def_const b)" "mset (def_undef b') = mset (def_undef b)"
        "mset (def_enum b') = mset (def_enum b)" "mset (def_evt b') = mset (def_evt b)"
        "mset (def_err b') = mset (def_err b)"
    by (simp_all add: e)
qed

section \<open>The run on a small namespace\<close>


lemma patch_small:
  "read_stubs [] (Some EnumTypeObj) small_namespace = Inr small_state"
  by (simp add: read_stubs_def small_namespace_def small_state_def patched_namespace_def
      scanned_entries_def wx_entries_def dict_set_def dict_keys_def overloads_def
      remove_names_def)

lemma pops_small:
  "pop_names patched_namespace
     = Inr (scanned_entries, empty_buckets\<lparr>def_const := overload_consts\<rparr>)"
  by (simp add: pop_names_def patched_namespace_def overloads_def remove_names_def dict_pop_def
      dict_keys_def empty_buckets_def overload_consts_def scanned_entries_def wx_entries_def)

lemma pops_state_small:
  "pop_names (mod_dict small_state)
     = Inr (scanned_entries, empty_buckets\<lparr>def_const := overload_consts\<rparr>)"
  using pops_small by (simp add: small_state_def)

lemma scan_small:
  "scan scanned_entries (empty_buckets\<lparr>def_const := overload_consts\<rparr>)
     = \<lparr>def_undef = [\<lparr>an_name = ''Frame'', an_type = ''Any'', an_comment = ''window'',
                       an_data = None\<rparr>],
        def_const = overload_consts
           @ [\<lparr>an_name = ''ID_ANY'', an_type = ''Literal[-1]'', an_comment = [],
                an_data = Some 1\<rparr>,
              \<lparr>an_name = ''BLACK'', an_type = ''Colour'', an_comment = [],
                an_data = Some 3\<rparr>,
              \<lparr>an_name = ''PanelNameStr'', an_type = ''Literal['' @ squote ''panel'' @ '']'',
                an_comment = [], an_data = Some 2\<rparr>,
              \<lparr>an_name = ''EVT_BUTTON'', an_type = ''PyEventBinder'', an_comment = [],
                an_data = Some 4\<rparr>],
        def_evt = [],
        def_err = [],
        def_enum = [\<lparr>ec_name = ''StockCursor'', ec_values = Some []\<rparr>,
                    \<lparr>ec_name = ''Direction'', ec_values = Some []\<rparr>],
        def_val = [''StockCursor'' \<mapsto> [\<lparr>ev_name = ''CURSOR_NONE'', ev_cls = ''StockCursor''\<rparr>],
                   ''Direction'' \<mapsto> [\<lparr>ev_name = ''LEFT'', ev_cls = ''Direction''\<rparr>],
                   ''Unlisted'' \<mapsto> [\<lparr>ev_name = ''ORPHAN'', ev_cls = ''Unlisted''\<rparr>]],
        scan_out = []\<rparr>"
  by (simp add: scanned_entries_def wx_entries_def empty_buckets_def classify_def skipped_def
      startswith_def endswith_def)

lemma partition_small:
  "partition_enums [\<lparr>ec_name = ''StockCursor'', ec_values = Some []\<rparr>,
                    \<lparr>ec_name = ''Direction'', ec_values = Some []\<rparr>]
     [''StockCursor'' \<mapsto> [\<lparr>ev_name = ''CURSOR_NONE'', ev_cls = ''StockCursor''\<rparr>],
      ''Direction'' \<mapsto> [\<lparr>ev_name = ''LEFT'', ev_cls = ''Direction''\<rparr>],
      ''Unlisted'' \<mapsto> [\<lparr>ev_name = ''ORPHAN'', ev_cls = ''Unlisted''\<rparr>]]
   = Inr ([\<lparr>ec_name = ''StockCursor'',
             ec_values = Some [\<lparr>ev_name = ''CURSOR_NONE'', ev_cls = ''StockCursor''\<rparr>]\<rparr>,
           \<lparr>ec_name = ''Direction'',
             ec_values = Some [\<lparr>ev_name = ''LEFT'', ev_cls = ''Direction''\<rparr>]\<rparr>],
          [''Unlisted'' \<mapsto> [\<lparr>ev_name = ''ORPHAN'', ev_cls = ''Unlisted''\<rparr>]])"
  by (auto simp: fun_eq_iff)


lemma sort_small:
  "sort_key (\<lambda>a. the (an_data a))
     (sort_key (\<lambda>a. take 7 (an_type a))
        (sort_key an_name
           (overload_consts
            @ [\<lparr>an_name = ''ID_ANY'', an_type = ''Literal[-1]'', an_comment = [],
                 an_data = Some 1\<rparr>,
               \<lparr>an_name = ''BLACK'', an_type = ''Colour'', an_comment = [],
                 an_data = Some 3\<rparr>,
               \<lparr>an_name = ''PanelNameStr'', an_type = ''Literal['' @ squote ''panel'' @ '']'',
                 an_comment = [], an_data = Some 2\<rparr>,
               \<lparr>an_name = ''EVT_BUTTON'', an_type = ''PyEventBinder'', an_comment = [],
                 an_data = Some 4\<rparr>])))
   = [\<lparr>an_name = ''ID_ANY'', an_type = ''Literal[-1]'', an_comment = [], an_data = Some 1\<rparr>,
      \<lparr>an_name = ''PanelNameStr'', an_type = ''Literal['' @ squote ''panel'' @ '']'',
        an_comment = [], an_data = Some 2\<rparr>,
      \<lparr>an_name = ''BLACK'', an_type = ''Colour'', an_comment = [], an_data = Some 3\<rparr>,
      \<lparr>an_name = ''TIMER_CONTINUOUS'', an_type = ''bool'', an_comment = [], an_data = Some 3\<rparr>,
      \<lparr>an_name = ''TIMER_ONE_SHOT'', an_type = ''bool'', an_comment = [], an_data = Some 3\<rparr>,
      \<lparr>an_name = ''VERSION'', an_type = ''tuple[int, int, int, str]'', an_comment = [],
        an_data = Some 3\<rparr>,
      \<lparr>an_name = ''PlatformInfo'', an_type = ''tuple[str, ...]'', an_comment = [],
        an_data = Some 3\<rparr>,
      \<lparr>an_name = ''EVT_BUTTON'', an_type = ''PyEventBinder'', an_comment = [],
        an_data = Some 4\<rparr>]"
  by (simp add: overload_consts_def squote_def)

lemma sort_buckets_small:
  "sort_buckets
     \<lparr>def_undef = [\<lparr>an_name = ''Frame'', an_type = ''Any'', an_comment = ''window'',
                     an_data = None\<rparr>],
      def_const = overload_consts
         @ [\<lparr>an_name = ''ID_ANY'', an_type = ''Literal[-1]'', an_comment = [],
              an_data = Some 1\<rparr>,
            \<lparr>an_name = ''BLACK'', an_type = ''Colour'', an_comment = [],
              an_data = Some 3\<rparr>,
            \<lparr>an_name = ''PanelNameStr'', an_type = ''Literal['' @ squote ''panel'' @ '']'',
              an_comment = [], an_data = Some 2\<rparr>,
            \<lparr>an_name = ''EVT_BUTTON'', an_type = ''PyEventBinder'', an_comment = [],
              an_data = Some 4\<rparr>],
      def_evt = [],
      def_err = [],
      def_enum = [\<lparr>ec_name = ''StockCursor'',
                   ec_values = Some [\<lparr>ev_name = ''CURSOR_NONE'', ev_cls = ''StockCursor''\<rparr>]\<rparr>,
                  \<lparr>ec_name = ''Direction'',
                   ec_values = Some [\<lparr>ev_name = ''LEFT'', ev_cls = ''Direction''\<rparr>]\<rparr>],
      def_val = [''Unlisted'' \<mapsto> [\<lparr>ev_name = ''ORPHAN'', ev_cls = ''Unlisted''\<rparr>]],
      scan_out = []\<rparr>
   = Inr small_buckets"
  by (simp add: sort_buckets_def overload_consts_def small_buckets_def squote_def)

lemma collect_small:
  "collect [] (Some EnumTypeObj) small_namespace = Inr (small_state, small_buckets)"
proof -
  let ?B = "\<lparr>def_undef = [\<lparr>an_name = ''Frame'', an_type = ''Any'', an_comment = ''window'',
                     an_data = None\<rparr>],
      def_const = overload_consts
         @ [\<lparr>an_name = ''ID_ANY'', an_type = ''Literal[-1]'', an_comment = [],
              an_data = Some 1\<rparr>,
            \<lparr>an_name = ''BLACK'', an_type = ''Colour'', an_comment = [],
              an_data = Some 3\<rparr>,
            \<lparr>an_name = ''PanelNameStr'', an_type = ''Literal['' @ squote ''panel'' @ '']'',
              an_comment = [], an_data = Some 2\<rparr>,
            \<lparr>an_name = ''EVT_BUTTON'', an_type = ''PyEventBinder'', an_comment = [],
              an_data = Some 4\<rparr>],
      def_evt = [],
      def_err = [],
      def_enum = [\<lparr>ec_name = ''StockCursor'',
                   ec_values = Some [\<lparr>ev_name = ''CURSOR_NONE'', ev_cls = ''StockCursor''\<rparr>]\<rparr>,
                  \<lparr>ec_name = ''Direction'',
                   ec_values = Some [\<lparr>ev_name = ''LEFT'', ev_cls = ''Direction''\<rparr>]\<rparr>],
      def_val = [''Unlisted'' \<mapsto> [\<lparr>ev_name = ''ORPHAN'', ev_cls = ''Unlisted''\<rparr>]],
      scan_out = []\<rparr>"
  have ms: "mod_dict small_state = patched_namespace" by (simp add: small_state_def)
  have "collect [] (Some EnumTypeObj) small_namespace
          = (case sort_buckets ?B of Inl e \<Rightarrow> Inl e | Inr b3 \<Rightarrow> Inr (small_state, b3))"
    by (simp add: collect_def patch_small ms pops_small scan_small
        partition_small
        del: scan.simps partition_enums.simps)
  also have "\<dots> = Inr (small_state, small_buckets)"
    by (simp only: sort_buckets_small sum.case)
  finally show ?thesis .
qed

lemma run_small:
  "run [] (Some EnumTypeObj) small_namespace
     = Inr (template_format
              ''Frame: Any  # window''
              []
              []
              (join (nl @ nl)
                 [join nl [''class Direction(_WxSipEnumtype):'', ''    LEFT = ...'', [],
                           ''LEFT: Literal[Direction.LEFT]''],
                  join nl [''class StockCursor(_WxSipEnumtype):'', ''    CURSOR_NONE = ...'', [],
                           ''CURSOR_NONE: Literal[StockCursor.CURSOR_NONE]'']])
              (join nl [''ID_ANY: Literal[-1]'', ''PanelNameStr: Literal['' @ squote ''panel'' @ '']'',
                        ''BLACK: Colour'', ''TIMER_CONTINUOUS: bool'', ''TIMER_ONE_SHOT: bool'',
                        ''VERSION: tuple[int, int, int, str]'', ''PlatformInfo: tuple[str, ...]'',
                        ''EVT_BUTTON: PyEventBinder''])
              [],
            [''0 out of 1 classes or functions done (0%).''])"
  by (simp add: run_def collect_small render_def small_buckets_def small_state_def
      EnumClass_str_def Anotation_str_def str_nat.simps)

section \<open>The run with a class declared twice\<close>









section \<open>The order of the aggregate stub\<close>


lemma classify_def_const: "def_const (classify e b) = def_const b @ entry_const e"
  by (cases e) (simp add: classify_def entry_const_def split: nsobj.splits)

lemma scan_def_const: "def_const (scan d b) = def_const b @ concat (map entry_const d)"
proof (induction d arbitrary: b)
  case Nil
  show ?case by simp
next
  case (Cons e d)
  show ?case using Cons.IH [of "classify e b"] by (simp add: classify_def_const)
qed

lemma pop_overloads_buckets:
  "pop_overloads ovs (d, b) = Inr (d', b')
   \<Longrightarrow> b' = b\<lparr>def_const := def_const b @ map overload_const ovs\<rparr>"
proof (induction ovs arbitrary: d b)
  case Nil
  then show ?case by simp
next
  case (Cons p ovs)
  obtain name anot where p: "p = (name, anot)" by (cases p)
  from Cons.prems obtain d1 where
    r: "pop_overloads ovs
          (d1, b\<lparr>def_const := def_const b
                   @ [\<lparr>an_name = name, an_type = anot, an_comment = [],
                       an_data = Some 3\<rparr>]\<rparr>) = Inr (d', b')"
    unfolding p by (auto split: sum.splits)
  from Cons.IH [OF r] show ?case by (simp add: p overload_const_def)
qed

lemma pop_names_buckets:
  "pop_names d = Inr (d2, b1)
   \<Longrightarrow> b1 = empty_buckets\<lparr>def_const := map overload_const overloads\<rparr>"
proof -
  assume "pop_names d = Inr (d2, b1)"
  then obtain d1 where "pop_overloads overloads (d, empty_buckets) = Inr (d1, b1)"
    by (auto simp: pop_names_def split: sum.splits prod.splits)
  from pop_overloads_buckets [OF this] show ?thesis by (simp add: empty_buckets_def)
qed

lemma collect_stages:
  assumes "collect mods cur ns = Inr (st, b)" and "pop_names (mod_dict st) = Inr (d, b1)"
  shows "\<exists>enums dv. read_stubs mods cur ns = Inr st
           \<and> partition_enums (def_enum (scan d b1)) (def_val (scan d b1)) = Inr (enums, dv)
           \<and> sort_buckets ((scan d b1)\<lparr>def_enum := enums, def_val := dv\<rparr>) = Inr b"
proof -
  from assms(1) obtain st0 where s0: "read_stubs mods cur ns = Inr st0"
    by (auto simp: collect_def split: sum.splits)
  from assms(1) s0 have "st0 = st"
    by (auto simp: collect_def Let_def split: sum.splits prod.splits)
  with assms s0 show ?thesis
    by (auto simp: collect_def Let_def split: sum.splits prod.splits)
qed

lemma fst_mono_lex:
  fixes a c :: "'a::linorder" and b d :: "'b::linorder"
  shows "(a, b) \<le> (c, d) \<Longrightarrow> a \<le> c"
  by (auto simp: less_eq_prod_def)

lemma collect_const:
  assumes "collect mods cur ns = Inr (st, b)" and "pop_names (mod_dict st) = Inr (d, b1)"
  shows "mset (def_const b) = mset (map overload_const overloads @ concat (map entry_const d))"
    and "sorted (map const_key (def_const b))"
    and "sorted (map an_name (def_undef b))" "sorted (map ec_name (def_enum b))"
        "sorted (map an_name (def_evt b))" "sorted (map err_key (def_err b))"
proof -
  from collect_stages [OF assms] obtain enums dv where
    s: "sort_buckets ((scan d b1)\<lparr>def_enum := enums, def_val := dv\<rparr>) = Inr b" by blast
  have b1: "b1 = empty_buckets\<lparr>def_const := map overload_const overloads\<rparr>"
    using assms(2) by (rule pop_names_buckets)
  have "def_const (scan d b1) = map overload_const overloads @ concat (map entry_const d)"
    by (simp add: scan_def_const b1)
  with sort_buckets_others(5) [OF s]
  show "mset (def_const b) = mset (map overload_const overloads @ concat (map entry_const d))"
    by simp
  show "sorted (map const_key (def_const b))" using s by (rule sort_buckets_const)
  show "sorted (map an_name (def_undef b))" "sorted (map ec_name (def_enum b))"
       "sorted (map an_name (def_evt b))" "sorted (map err_key (def_err b))"
    using sort_buckets_others(1-4) [OF s] .
qed

lemma sorted_data_strict:
  assumes "sorted (map const_key cs)" "i < length cs" "j < length cs"
      and "the (an_data (cs ! i)) < the (an_data (cs ! j))"
  shows "i < j"
proof (rule ccontr)
  assume "\<not> i < j"
  then have "j \<le> i" by simp
  with assms(1,2) have "map const_key cs ! j \<le> map const_key cs ! i"
    by (intro sorted_nth_mono) simp_all
  with assms(2,3) have "const_key (cs ! j) \<le> const_key (cs ! i)" by simp
  then have "the (an_data (cs ! j)) \<le> the (an_data (cs ! i))"
    unfolding const_key_def by (rule fst_mono_lex)
  with assms(4) show False by simp
qed

text \<open>
  C5, as the code has it. The constants of the aggregate stub are the constants of
  \<^verbatim>\<open>overloads\<close> (tag 3) together with those that the scan collects from the namespace
  \<open>d\<close> that is left after the stub files and the two loops of \<^verbatim>\<open>pop\<close>: an integer gives a
  \<^verbatim>\<open>Literal\<close> with tag 1, a string a \<^verbatim>\<open>Literal\<close> with tag 2, a toolkit object a constant of
  its type with tag 3, an event binder a constant with tag 4. They are ordered by the
  tag first, then by the first seven characters of the type, then by name; so a
  constant with a smaller tag is before every constant with a larger tag, and the
  integer and string literals are ahead of the overridden and the toolkit-object
  constants. The placeholders, the enumerations and the event codes are ordered by
  name; the exceptions have the classes first, then the assignments, each by name.
\<close>

theorem constants_order:
  assumes "collect mods cur ns = Inr (st, b)" and "pop_names (mod_dict st) = Inr (d, b1)"
  shows "mset (def_const b) = mset (map overload_const overloads @ concat (map entry_const d))
       \<and> (\<forall>p\<in>set overloads.
             \<lparr>an_name = fst p, an_type = snd p, an_comment = [], an_data = Some 3\<rparr>
               \<in> set (def_const b))
       \<and> (\<forall>n r. (n, IntObj r) \<in> set d \<and> \<not> skipped n \<and> \<not> startswith n ''wxEVT''
             \<longrightarrow> \<lparr>an_name = n, an_type = ''Literal['' @ r @ '']'', an_comment = [],
                   an_data = Some 1\<rparr> \<in> set (def_const b))
       \<and> (\<forall>n r. (n, StrObj r) \<in> set d \<and> \<not> skipped n \<and> \<not> startswith n ''wxEVT''
             \<longrightarrow> \<lparr>an_name = n, an_type = ''Literal['' @ r @ '']'', an_comment = [],
                   an_data = Some 2\<rparr> \<in> set (def_const b))
       \<and> (\<forall>n t. (n, SipObj t) \<in> set d \<and> \<not> skipped n \<and> \<not> startswith n ''wxEVT''
             \<longrightarrow> \<lparr>an_name = n, an_type = t, an_comment = [], an_data = Some 3\<rparr>
                   \<in> set (def_const b))
       \<and> (\<forall>n. (n, EventBinderObj) \<in> set d \<and> \<not> skipped n \<and> \<not> startswith n ''wxEVT''
             \<longrightarrow> \<lparr>an_name = n, an_type = ''PyEventBinder'', an_comment = [],
                   an_data = Some 4\<rparr> \<in> set (def_const b))
       \<and> sorted (map const_key (def_const b))
       \<and> (\<forall>i j. i < length (def_const b) \<and> j < length (def_const b)
               \<and> the (an_data (def_const b ! i)) < the (an_data (def_const b ! j))
             \<longrightarrow> i < j)
       \<and> sorted (map an_name (def_undef b))
       \<and> sorted (map ec_name (def_enum b))
       \<and> sorted (map an_name (def_evt b))
       \<and> sorted (map err_key (def_err b))"
proof -
  note c = collect_const [OF assms]
  have m: "set (def_const b) = overload_const ` set overloads \<union> (\<Union>e\<in>set d. set (entry_const e))"
  proof -
    have "set (def_const b) = set_mset (mset (def_const b))" by simp
    also have "\<dots> = set (map overload_const overloads @ concat (map entry_const d))"
      unfolding c(1) by simp
    finally show ?thesis by simp
  qed
  have ov: "\<lparr>an_name = fst p, an_type = snd p, an_comment = [], an_data = Some 3\<rparr>
              \<in> set (def_const b)" if "p \<in> set overloads" for p
    using that unfolding m by (auto simp: overload_const_def image_iff)
  have en: "a \<in> set (def_const b)" if "e \<in> set d" "a \<in> set (entry_const e)" for e a
    using that unfolding m by blast
  have i1: "\<lparr>an_name = n, an_type = ''Literal['' @ r @ '']'', an_comment = [],
              an_data = Some 1\<rparr> \<in> set (def_const b)"
    if "(n, IntObj r) \<in> set d" "\<not> skipped n" "\<not> startswith n ''wxEVT''" for n r
    using that(2,3) by (intro en [OF that(1)]) (simp add: entry_const_def)
  have i2: "\<lparr>an_name = n, an_type = ''Literal['' @ r @ '']'', an_comment = [],
              an_data = Some 2\<rparr> \<in> set (def_const b)"
    if "(n, StrObj r) \<in> set d" "\<not> skipped n" "\<not> startswith n ''wxEVT''" for n r
    using that(2,3) by (intro en [OF that(1)]) (simp add: entry_const_def)
  have i3: "\<lparr>an_name = n, an_type = t, an_comment = [], an_data = Some 3\<rparr>
              \<in> set (def_const b)"
    if "(n, SipObj t) \<in> set d" "\<not> skipped n" "\<not> startswith n ''wxEVT''" for n t
    using that(2,3) by (intro en [OF that(1)]) (simp add: entry_const_def)
  have i4: "\<lparr>an_name = n, an_type = ''PyEventBinder'', an_comment = [],
              an_data = Some 4\<rparr> \<in> set (def_const b)"
    if "(n, EventBinderObj) \<in> set d" "\<not> skipped n" "\<not> startswith n ''wxEVT''" for n
    using that(2,3) by (intro en [OF that(1)]) (simp add: entry_const_def)
  have st: "i < j"
    if "i < length (def_const b)" "j < length (def_const b)"
       "the (an_data (def_const b ! i)) < the (an_data (def_const b ! j))" for i j
    using c(2) that by (rule sorted_data_strict)
  show ?thesis
    apply (intro conjI)
    subgoal by (rule c(1))
    subgoal using ov by blast
    subgoal using i1 by blast
    subgoal using i2 by blast
    subgoal using i3 by blast
    subgoal using i4 by blast
    subgoal by (rule c(2))
    subgoal using st by blast
    subgoal by (rule c(3))
    subgoal by (rule c(4))
    subgoal by (rule c(5))
    subgoal by (rule c(6))
    done
qed



theorem constants_order_witness:
  "collect [] (Some EnumTypeObj) small_namespace = Inr (small_state, small_buckets)
   \<and> map const_key (def_const small_buckets)
       = [(1, ''Literal'', ''ID_ANY''), (2, ''Literal'', ''PanelNameStr''),
          (3, ''Colour'', ''BLACK''), (3, ''bool'', ''TIMER_CONTINUOUS''),
          (3, ''bool'', ''TIMER_ONE_SHOT''), (3, ''tuple[i'', ''VERSION''),
          (3, ''tuple[s'', ''PlatformInfo''), (4, ''PyEvent'', ''EVT_BUTTON'')]
   \<and> sorted (map const_key (def_const small_buckets))
   \<and> \<lparr>an_name = ''VERSION'', an_type = ''tuple[int, int, int, str]'', an_comment = [],
        an_data = Some 3\<rparr> \<in> set (def_const small_buckets)
   \<and> \<lparr>an_name = ''ID_ANY'', an_type = ''Literal['' @ ''-1'' @ '']'', an_comment = [],
        an_data = Some 1\<rparr> \<in> set (def_const small_buckets)
   \<and> \<lparr>an_name = ''PanelNameStr'', an_type = ''Literal['' @ squote ''panel'' @ '']'',
        an_comment = [], an_data = Some 2\<rparr> \<in> set (def_const small_buckets)
   \<and> \<lparr>an_name = ''BLACK'', an_type = ''Colour'', an_comment = [], an_data = Some 3\<rparr>
        \<in> set (def_const small_buckets)
   \<and> \<lparr>an_name = ''EVT_BUTTON'', an_type = ''PyEventBinder'', an_comment = [],
        an_data = Some 4\<rparr> \<in> set (def_const small_buckets)
   \<and> the (an_data (def_const small_buckets ! 1)) < the (an_data (def_const small_buckets ! 2))
   \<and> (1::nat) < 2"
proof -
  note t = constants_order [OF collect_small pops_state_small]
  have k: "map const_key (def_const small_buckets)
       = [(1, ''Literal'', ''ID_ANY''), (2, ''Literal'', ''PanelNameStr''),
          (3, ''Colour'', ''BLACK''), (3, ''bool'', ''TIMER_CONTINUOUS''),
          (3, ''bool'', ''TIMER_ONE_SHOT''), (3, ''tuple[i'', ''VERSION''),
          (3, ''tuple[s'', ''PlatformInfo''), (4, ''PyEvent'', ''EVT_BUTTON'')]"
    by (simp add: small_buckets_def const_key_def squote_def)
  have sk: "\<not> skipped ''ID_ANY''" "\<not> skipped ''PanelNameStr''" "\<not> skipped ''BLACK''"
           "\<not> skipped ''EVT_BUTTON''"
    by (simp_all add: skipped_def startswith_def endswith_def)
  have ev: "\<not> startswith ''ID_ANY'' ''wxEVT''" "\<not> startswith ''PanelNameStr'' ''wxEVT''"
           "\<not> startswith ''BLACK'' ''wxEVT''" "\<not> startswith ''EVT_BUTTON'' ''wxEVT''"
    by (simp_all add: startswith_def)
  have p: "(''VERSION'', ''tuple[int, int, int, str]'') \<in> set overloads"
    by (simp add: overloads_def)
  have c2: "\<lparr>an_name = ''VERSION'', an_type = ''tuple[int, int, int, str]'', an_comment = [],
        an_data = Some 3\<rparr> \<in> set (def_const small_buckets)"
    using t [THEN conjunct2, THEN conjunct1, THEN bspec, OF p] by simp
  have h3: "(''ID_ANY'', IntObj ''-1'') \<in> set scanned_entries \<and> \<not> skipped ''ID_ANY''
             \<and> \<not> startswith ''ID_ANY'' ''wxEVT''"
    using sk ev by (simp add: scanned_entries_def wx_entries_def)
  have c3: "\<lparr>an_name = ''ID_ANY'', an_type = ''Literal['' @ ''-1'' @ '']'', an_comment = [],
        an_data = Some 1\<rparr> \<in> set (def_const small_buckets)"
    using t [THEN conjunct2, THEN conjunct2, THEN conjunct1, THEN spec, THEN spec, THEN mp,
             OF h3] .
  have h4: "(''PanelNameStr'', StrObj (squote ''panel'')) \<in> set scanned_entries
             \<and> \<not> skipped ''PanelNameStr'' \<and> \<not> startswith ''PanelNameStr'' ''wxEVT''"
    using sk ev by (simp add: scanned_entries_def wx_entries_def)
  have c4: "\<lparr>an_name = ''PanelNameStr'', an_type = ''Literal['' @ squote ''panel'' @ '']'',
        an_comment = [], an_data = Some 2\<rparr> \<in> set (def_const small_buckets)"
    using t [THEN conjunct2, THEN conjunct2, THEN conjunct2, THEN conjunct1, THEN spec,
             THEN spec, THEN mp, OF h4] .
  have h5: "(''BLACK'', SipObj ''Colour'') \<in> set scanned_entries \<and> \<not> skipped ''BLACK''
             \<and> \<not> startswith ''BLACK'' ''wxEVT''"
    using sk ev by (simp add: scanned_entries_def wx_entries_def)
  have c5: "\<lparr>an_name = ''BLACK'', an_type = ''Colour'', an_comment = [], an_data = Some 3\<rparr>
        \<in> set (def_const small_buckets)"
    using t [THEN conjunct2, THEN conjunct2, THEN conjunct2, THEN conjunct2, THEN conjunct1,
             THEN spec, THEN spec, THEN mp, OF h5] .
  have h6: "(''EVT_BUTTON'', EventBinderObj) \<in> set scanned_entries \<and> \<not> skipped ''EVT_BUTTON''
             \<and> \<not> startswith ''EVT_BUTTON'' ''wxEVT''"
    using sk ev by (simp add: scanned_entries_def wx_entries_def)
  have c6: "\<lparr>an_name = ''EVT_BUTTON'', an_type = ''PyEventBinder'', an_comment = [],
        an_data = Some 4\<rparr> \<in> set (def_const small_buckets)"
    using t [THEN conjunct2, THEN conjunct2, THEN conjunct2, THEN conjunct2, THEN conjunct2,
             THEN conjunct1, THEN spec, THEN mp, OF h6] .
  have c7: "sorted (map const_key (def_const small_buckets))"
    using t [THEN conjunct2, THEN conjunct2, THEN conjunct2, THEN conjunct2, THEN conjunct2,
             THEN conjunct2, THEN conjunct1] .
  have lt: "the (an_data (def_const small_buckets ! 1))
              < the (an_data (def_const small_buckets ! 2))"
    by (simp add: small_buckets_def)
  have h8: "1 < length (def_const small_buckets) \<and> 2 < length (def_const small_buckets)
             \<and> the (an_data (def_const small_buckets ! 1))
                 < the (an_data (def_const small_buckets ! 2))"
    using lt by (simp add: small_buckets_def)
  have c8: "(1::nat) < 2"
    using t [THEN conjunct2, THEN conjunct2, THEN conjunct2, THEN conjunct2, THEN conjunct2,
             THEN conjunct2, THEN conjunct2, THEN conjunct1, THEN spec, THEN spec, THEN mp,
             OF h8] .
  from collect_small k c7 c2 c3 c4 c5 c6 lt c8 show ?thesis by (intro conjI)
qed

text \<open>
  The claim C5 as stated has the type category as the first key and the tag as the
  second, with the overridden and the toolkit-object constants ahead of the literals.
  From the small namespace the integer literal \<^verbatim>\<open>ID_ANY\<close> and the string literal
  \<^verbatim>\<open>PanelNameStr\<close> come first, before the colour \<^verbatim>\<open>BLACK\<close> and the overridden constants,
  and the list is not ordered by type category first.
\<close>

theorem literal_constants_come_first:
  "collect [] (Some EnumTypeObj) small_namespace = Inr (small_state, small_buckets)
   \<and> map an_name (def_const small_buckets)
       = [''ID_ANY'', ''PanelNameStr'', ''BLACK'', ''TIMER_CONTINUOUS'', ''TIMER_ONE_SHOT'',
          ''VERSION'', ''PlatformInfo'', ''EVT_BUTTON'']
   \<and> map claimed_const_key (def_const small_buckets)
       = [(''Literal'', 1), (''Literal'', 2), (''Colour'', 3), (''bool'', 3), (''bool'', 3),
          (''tuple[i'', 3), (''tuple[s'', 3), (''PyEvent'', 4)]
   \<and> \<not> sorted (map claimed_const_key (def_const small_buckets))"
proof -
  have k: "map claimed_const_key (def_const small_buckets)
       = [(''Literal'', 1), (''Literal'', 2), (''Colour'', 3), (''bool'', 3), (''bool'', 3),
          (''tuple[i'', 3), (''tuple[s'', 3), (''PyEvent'', 4)]"
    by (simp add: small_buckets_def claimed_const_key_def squote_def)
  have s: "\<not> sorted (map claimed_const_key (def_const small_buckets))"
    unfolding k by (simp add: less_eq_prod_def)
  have n: "map an_name (def_const small_buckets)
       = [''ID_ANY'', ''PanelNameStr'', ''BLACK'', ''TIMER_CONTINUOUS'', ''TIMER_ONE_SHOT'',
          ''VERSION'', ''PlatformInfo'', ''EVT_BUTTON'']"
    by (simp add: small_buckets_def)
  from collect_small n k s show ?thesis by (intro conjI)
qed

section \<open>The partition of the enumeration values\<close>


lemma classify_def_enum:
  "def_enum (classify e b) = def_enum b @ map (\<lambda>n. \<lparr>ec_name = n, ec_values = Some []\<rparr>) (entry_class e)"
  by (cases e) (simp add: classify_def entry_class_def split: nsobj.splits)

lemma classify_def_val:
  "def_val (classify e b) k =
     (if filter (\<lambda>v. ev_cls v = k) (entry_value e) = [] then def_val b k
      else Some ((case def_val b k of None \<Rightarrow> [] | Some vs \<Rightarrow> vs)
                 @ filter (\<lambda>v. ev_cls v = k) (entry_value e)))"
  by (cases e) (simp add: classify_def entry_value_def split: nsobj.splits)

lemma scan_def_enum:
  "def_enum (scan ns b)
     = def_enum b @ map (\<lambda>n. \<lparr>ec_name = n, ec_values = Some []\<rparr>) (declared_classes ns)"
proof (induction ns arbitrary: b)
  case Nil
  show ?case by (simp add: declared_classes_def)
next
  case (Cons e ns)
  show ?case
    using Cons.IH [of "classify e b"]
    by (simp add: classify_def_enum declared_classes_def)
qed

lemma scan_def_val:
  "def_val (scan ns b) k =
     (if values_of_class ns k = [] then def_val b k
      else Some ((case def_val b k of None \<Rightarrow> [] | Some vs \<Rightarrow> vs) @ values_of_class ns k))"
proof (induction ns arbitrary: b)
  case Nil
  show ?case by (simp add: values_of_class_def collected_values_def)
next
  case (Cons e ns)
  have v: "values_of_class (e # ns) k
             = filter (\<lambda>v. ev_cls v = k) (entry_value e) @ values_of_class ns k"
    by (simp add: values_of_class_def collected_values_def)
  show ?case
    using Cons.IH [of "classify e b"]
    by (simp add: v classify_def_val split: option.splits)
qed

lemma declared_classes_filter:
  "declared_classes ns = map fst (filter (\<lambda>e. entry_class e \<noteq> []) ns)"
proof (induction ns)
  case Nil
  show ?case by (simp add: declared_classes_def)
next
  case (Cons e ns)
  have c: "entry_class e = [] \<or> entry_class e = [fst e]"
    by (cases e) (simp add: entry_class_def split: nsobj.splits)
  from c show ?case
  proof
    assume "entry_class e = []"
    with Cons show ?thesis by (simp add: declared_classes_def)
  next
    assume "entry_class e = [fst e]"
    with Cons show ?thesis by (simp add: declared_classes_def)
  qed
qed

lemma declared_classes_distinct:
  "distinct (map fst ns) \<Longrightarrow> distinct (declared_classes ns)"
  unfolding declared_classes_filter by (rule distinct_map_filter)

lemma partition_enums_ok:
  "distinct (map ec_name es) \<Longrightarrow> \<forall>e\<in>set es. dv (ec_name e) \<noteq> None
   \<Longrightarrow> partition_enums es dv
       = Inr (map (\<lambda>e. e\<lparr>ec_values := dv (ec_name e)\<rparr>) es,
              (\<lambda>k. if k \<in> set (map ec_name es) then None else dv k))"
proof (induction es arbitrary: dv)
  case Nil
  show ?case by simp
next
  case (Cons e es)
  from Cons.prems obtain vs where vs: "dv (ec_name e) = Some vs" by auto
  let ?dv = "dv(ec_name e := None)"
  have same: "?dv (ec_name x) = dv (ec_name x)" if "x \<in> set es" for x
  proof -
    from that have "ec_name x \<in> set (map ec_name es)" by simp
    with Cons.prems(1) have "ec_name x \<noteq> ec_name e" by auto
    then show ?thesis by simp
  qed
  have d: "distinct (map ec_name es)" using Cons.prems(1) by simp
  have p: "\<forall>x\<in>set es. ?dv (ec_name x) \<noteq> None"
    using same Cons.prems(2) by simp
  have m: "map (\<lambda>x. x\<lparr>ec_values := ?dv (ec_name x)\<rparr>) es
             = map (\<lambda>x. x\<lparr>ec_values := dv (ec_name x)\<rparr>) es"
    using same by (intro map_cong) simp_all
  have f: "(\<lambda>k. if k \<in> set (map ec_name es) then None else ?dv k)
             = (\<lambda>k. if k \<in> set (map ec_name (e # es)) then None else dv k)"
    by (rule ext) simp
  have "partition_enums es ?dv
          = Inr (map (\<lambda>x. x\<lparr>ec_values := dv (ec_name x)\<rparr>) es,
                 (\<lambda>k. if k \<in> set (map ec_name (e # es)) then None else dv k))"
    using Cons.IH [OF d p] unfolding m f .
  then show ?case by (simp add: vs)
qed

lemma partition_enums_fail:
  "distinct (map ec_name es) \<Longrightarrow> \<exists>e\<in>set es. dv (ec_name e) = None
   \<Longrightarrow> \<exists>k. k \<in> set (map ec_name es) \<and> dv k = None
           \<and> partition_enums es dv = Inl (KeyError k)"
proof (induction es arbitrary: dv)
  case Nil
  then show ?case by simp
next
  case (Cons e es)
  show ?case
  proof (cases "dv (ec_name e)")
    case None
    then have "partition_enums (e # es) dv = Inl (KeyError (ec_name e))" by simp
    with None show ?thesis by (intro exI [of _ "ec_name e"]) simp
  next
    case (Some vs)
    let ?dv = "dv(ec_name e := None)"
    from Cons.prems(2) obtain x where x: "x \<in> set (e # es)" "dv (ec_name x) = None" by blast
    with Some have "x \<in> set es" by auto
    moreover have "?dv (ec_name x) = None" using x(2) by simp
    ultimately have "\<exists>x\<in>set es. ?dv (ec_name x) = None" by blast
    moreover have "distinct (map ec_name es)" using Cons.prems(1) by simp
    ultimately obtain k where k: "k \<in> set (map ec_name es)" "?dv k = None"
        "partition_enums es ?dv = Inl (KeyError k)"
      using Cons.IH [of ?dv] by blast
    have "ec_name e \<notin> set (map ec_name es)" using Cons.prems(1) by simp
    with k(1) have "k \<noteq> ec_name e" by blast
    with k(2) have "dv k = None" by simp
    moreover have "partition_enums (e # es) dv = Inl (KeyError k)"
      using Some k(3) by simp
    ultimately show ?thesis using k(1) by (intro exI [of _ k]) simp
  qed
qed

lemma scan_fresh:
  assumes "def_enum b = []" "def_val b = (\<lambda>k. None)"
  shows "def_enum (scan ns b)
           = map (\<lambda>n. \<lparr>ec_name = n, ec_values = Some []\<rparr>) (declared_classes ns)"
    and "def_val (scan ns b) k
           = (if values_of_class ns k = [] then None else Some (values_of_class ns k))"
  using assms by (simp_all add: scan_def_enum scan_def_val)




lemma stub_module_dict:
  assumes "stub_module m st = Inr st'" "distinct (map fst (mod_dict st))"
  shows "distinct (map fst (mod_dict st'))"
proof -
  from assms(1) obtain i l st1 where
    r: "module_nodes (fst m) (snd m) ([], [], st) = Inr (i, l, st1)" "mod_dict st' = mod_dict st1"
    by (auto simp: stub_module_def split: sum.splits prod.splits if_splits)
  from r(1) have "keeps (fst m) ([], [], st) (i, l, st1)" by (rule module_nodes_keeps)
  with assms(2) r(2) show ?thesis by (simp add: keeps_def)
qed

lemma stub_files_dict:
  "stub_files mods st = Inr st' \<Longrightarrow> distinct (map fst (mod_dict st))
   \<Longrightarrow> distinct (map fst (mod_dict st'))"
proof (induction mods arbitrary: st)
  case Nil
  then show ?case by simp
next
  case (Cons m ms)
  from Cons.prems(1) obtain s1 where s1: "stub_module m st = Inr s1" "stub_files ms s1 = Inr st'"
    by (auto split: sum.splits)
  from stub_module_dict [OF s1(1) Cons.prems(2)] s1(2) show ?case by (rule Cons.IH [rotated])
qed

lemma read_stubs_dict:
  assumes "read_stubs mods cur ns = Inr st" "distinct (map fst ns)"
  shows "distinct (map fst (mod_dict st))"
proof -
  from assms(1) obtain t where t: "cur = Some t"
    "stub_files mods \<lparr>mod_dict = dict_set ''StockCursor'' t ns, classes_stubed = {},
                       def_import = [], stdout = []\<rparr> = Inr st"
    by (auto simp: read_stubs_def split: option.splits)
  from stub_files_dict [OF t(2)] dict_set_distinct [OF assms(2)] show ?thesis by simp
qed

lemma dict_pop_dict:
  "dict_pop k d = Inr d' \<Longrightarrow> distinct (map fst d) \<Longrightarrow> distinct (map fst d')"
  by (auto simp: dict_pop_def remove_name_distinct split: if_splits)

lemma pop_overloads_dict:
  "pop_overloads ovs (d, b) = Inr (d', b') \<Longrightarrow> distinct (map fst d) \<Longrightarrow> distinct (map fst d')"
proof (induction ovs arbitrary: d b)
  case Nil
  then show ?case by simp
next
  case (Cons p ovs)
  obtain name anot where p: "p = (name, anot)" by (cases p)
  from Cons.prems(1) obtain d1 b1 where
    r: "dict_pop name d = Inr d1" "pop_overloads ovs (d1, b1) = Inr (d', b')"
    unfolding p by (auto split: sum.splits)
  from dict_pop_dict [OF r(1) Cons.prems(2)] r(2) show ?case by (rule Cons.IH [rotated])
qed

lemma pop_removed_dict:
  "pop_removed ns d = Inr d' \<Longrightarrow> distinct (map fst d) \<Longrightarrow> distinct (map fst d')"
proof (induction ns arbitrary: d)
  case Nil
  then show ?case by simp
next
  case (Cons name ns)
  from Cons.prems(1) obtain d1 where
    r: "dict_pop name d = Inr d1" "pop_removed ns d1 = Inr d'"
    by (auto split: sum.splits)
  from dict_pop_dict [OF r(1) Cons.prems(2)] r(2) show ?case by (rule Cons.IH [rotated])
qed

lemma pop_names_dict:
  assumes "pop_names d = Inr (d2, b1)" "distinct (map fst d)"
  shows "distinct (map fst d2)"
proof -
  from assms(1) obtain d1 where
    r: "pop_overloads overloads (d, empty_buckets) = Inr (d1, b1)"
       "pop_removed remove_names d1 = Inr d2"
    by (auto simp: pop_names_def split: sum.splits prod.splits)
  from pop_removed_dict [OF r(2) pop_overloads_dict [OF r(1) assms(2)]] show ?thesis .
qed

lemma entry_const_data: "a \<in> set (entry_const e) \<Longrightarrow> an_data a \<noteq> None"
  by (auto simp: entry_const_def split: if_splits nsobj.splits)

lemma sort_buckets_ok:
  assumes "\<forall>a\<in>set (def_const b). an_data a \<noteq> None"
  shows "sort_buckets b
           = Inr (b\<lparr>def_undef := sort_key an_name (def_undef b),
                    def_enum := sort_key ec_name (def_enum b),
                    def_const := sort_key (\<lambda>a. the (an_data a))
                       (sort_key (\<lambda>a. take 7 (an_type a)) (sort_key an_name (def_const b))),
                    def_evt := sort_key an_name (def_evt b),
                    def_err := sort_key is_not_Class (sort_key decl_name (def_err b))\<rparr>)"
  using assms by (simp add: sort_buckets_def Let_def list_all_iff)

lemma EnumClass_str_ok:
  "\<not> isl (EnumClass_str \<lparr>ec_name = c, ec_values = Some (values_of_class d c)\<rparr>)"
  by (simp add: EnumClass_str_def values_of_class_def list_all_iff)

lemma for_each_ok: "\<forall>x\<in>set xs. \<not> isl (f x) \<Longrightarrow> \<not> isl (for_each f xs)"
proof (induction xs)
  case Nil
  show ?case by simp
next
  case (Cons x xs)
  then have "\<not> isl (f x)" "\<not> isl (for_each f xs)" by simp_all
  then show ?case by (auto simp: isl_def split: sum.splits)
qed

lemma render_ok: "\<not> isl (for_each EnumClass_str (def_enum b)) \<Longrightarrow> \<not> isl (render imps b)"
  by (auto simp: render_def isl_def split: sum.splits)



text \<open>
  C2, as the code has it. \<open>d\<close> is the namespace that the scan iterates over: what is
  left of \<^verbatim>\<open>wx.__dict__\<close>, with \<^verbatim>\<open>StockCursor\<close> bound, after the stub files and the two
  loops of \<^verbatim>\<open>pop\<close>. When every enumeration class declared in \<open>d\<close> has at least one value,
  the script reaches the sorted buckets without raising, whatever the owners of the
  other values are: every declared class holds exactly the values of \<open>d\<close> that name it
  as their owner, in the order of the scan; a value whose owner is not a declared class
  is in no class and stays behind in \<^verbatim>\<open>def_val\<close>, which nothing reads afterwards; and the
  text of the stub is rendered without raising.
\<close>

theorem enum_partition:
  assumes "read_stubs mods cur ns = Inr st" and "pop_names (mod_dict st) = Inr (d, b1)"
      and "distinct (map fst ns)"
      and "\<forall>c\<in>set (declared_classes d). values_of_class d c \<noteq> []"
  shows "case collect mods cur ns of
           Inl e \<Rightarrow> False
         | Inr (st', b) \<Rightarrow>
             st' = st
             \<and> def_enum b
                 = sort_key ec_name
                     (map (\<lambda>c. \<lparr>ec_name = c, ec_values = Some (values_of_class d c)\<rparr>)
                        (declared_classes d))
             \<and> def_val b
                 = (\<lambda>k. if k \<in> set (declared_classes d) \<or> values_of_class d k = [] then None
                       else Some (values_of_class d k))
             \<and> \<not> isl (render (def_import st) b)"
proof -
  let ?es = "map (\<lambda>n. \<lparr>ec_name = n, ec_values = Some []\<rparr>) (declared_classes d)"
  let ?dv = "\<lambda>k. if values_of_class d k = [] then None else Some (values_of_class d k)"
  let ?enums = "map (\<lambda>c. \<lparr>ec_name = c, ec_values = Some (values_of_class d c)\<rparr>)
                  (declared_classes d)"
  let ?left = "\<lambda>k. if k \<in> set (declared_classes d) \<or> values_of_class d k = [] then None
                   else Some (values_of_class d k)"
  let ?b2 = "scan d b1"
  have b1: "b1 = empty_buckets\<lparr>def_const := map overload_const overloads\<rparr>"
    using assms(2) by (rule pop_names_buckets)
  then have e0: "def_enum b1 = []" "def_val b1 = (\<lambda>k. None)"
    by (simp_all add: empty_buckets_def)
  have es: "def_enum ?b2 = ?es" using e0 by (rule scan_fresh(1))
  have dv: "def_val ?b2 = ?dv" using scan_fresh(2) [OF e0] by (intro ext)
  have dd: "distinct (map fst d)"
    using assms(2) read_stubs_dict [OF assms(1,3)] by (rule pop_names_dict)
  have names: "map ec_name ?es = declared_classes d" by (simp add: comp_def)
  have de: "distinct (map ec_name ?es)"
    unfolding names using dd by (rule declared_classes_distinct)
  have p: "\<forall>e\<in>set ?es. ?dv (ec_name e) \<noteq> None" using assms(4) by simp
  have m: "map (\<lambda>e. e\<lparr>ec_values := ?dv (ec_name e)\<rparr>) ?es = ?enums"
    using assms(4) by simp
  have f: "(\<lambda>k. if k \<in> set (map ec_name ?es) then None else ?dv k) = ?left"
    unfolding names by (rule ext) simp
  have part: "partition_enums (def_enum ?b2) (def_val ?b2) = Inr (?enums, ?left)"
    unfolding es dv using partition_enums_ok [OF de p] unfolding m f .
  let ?b3 = "?b2\<lparr>def_enum := ?enums, def_val := ?left\<rparr>"
  have "def_const ?b3 = map overload_const overloads @ concat (map entry_const d)"
    by (simp add: scan_def_const b1 empty_buckets_def)
  then have data: "\<forall>a\<in>set (def_const ?b3). an_data a \<noteq> None"
    using entry_const_data by (auto simp: overload_const_def)
  let ?b = "?b3\<lparr>def_undef := sort_key an_name (def_undef ?b3),
                 def_enum := sort_key ec_name (def_enum ?b3),
                 def_const := sort_key (\<lambda>a. the (an_data a))
                    (sort_key (\<lambda>a. take 7 (an_type a)) (sort_key an_name (def_const ?b3))),
                 def_evt := sort_key an_name (def_evt ?b3),
                 def_err := sort_key is_not_Class (sort_key decl_name (def_err ?b3))\<rparr>"
  have srt: "sort_buckets ?b3 = Inr ?b" using data by (rule sort_buckets_ok)
  have col: "collect mods cur ns = Inr (st, ?b)"
    by (simp only: collect_def assms(1,2) sum.case prod.case Let_def part srt)
  have en: "def_enum ?b = sort_key ec_name ?enums" by simp
  have lf: "def_val ?b = ?left" by simp
  have "\<forall>x\<in>set (def_enum ?b). \<not> isl (EnumClass_str x)"
    unfolding en using EnumClass_str_ok by auto
  then have "\<not> isl (for_each EnumClass_str (def_enum ?b))" by (rule for_each_ok)
  then have rn: "\<not> isl (render (def_import st) ?b)" by (rule render_ok)
  show ?thesis
    unfolding col using en lf rn by (simp only: sum.case prod.case simp_thms)
qed

lemma declared_small: "declared_classes scanned_entries = [''StockCursor'', ''Direction'']"
  by (simp add: declared_classes_def scanned_entries_def wx_entries_def entry_class_def
      skipped_def startswith_def endswith_def)

lemma collected_small:
  "collected_values scanned_entries
     = [\<lparr>ev_name = ''CURSOR_NONE'', ev_cls = ''StockCursor''\<rparr>,
        \<lparr>ev_name = ''LEFT'', ev_cls = ''Direction''\<rparr>,
        \<lparr>ev_name = ''ORPHAN'', ev_cls = ''Unlisted''\<rparr>]"
  by (simp add: collected_values_def scanned_entries_def wx_entries_def entry_value_def
      skipped_def startswith_def endswith_def)

theorem enum_partition_witness:
  "collect [] (Some EnumTypeObj) small_namespace = Inr (small_state, small_buckets)
   \<and> declared_classes scanned_entries = [''StockCursor'', ''Direction'']
   \<and> def_enum small_buckets
       = sort_key ec_name
           [\<lparr>ec_name = ''StockCursor'',
              ec_values = Some (values_of_class scanned_entries ''StockCursor'')\<rparr>,
            \<lparr>ec_name = ''Direction'',
              ec_values = Some (values_of_class scanned_entries ''Direction'')\<rparr>]
   \<and> def_val small_buckets ''Unlisted'' = Some [\<lparr>ev_name = ''ORPHAN'', ev_cls = ''Unlisted''\<rparr>]
   \<and> \<not> isl (render (def_import small_state) small_buckets)"
proof -
  have d: "distinct (map fst small_namespace)"
    by (simp add: small_namespace_def overloads_def remove_names_def wx_entries_def)
  have v: "values_of_class scanned_entries ''StockCursor''
             = [\<lparr>ev_name = ''CURSOR_NONE'', ev_cls = ''StockCursor''\<rparr>]"
          "values_of_class scanned_entries ''Direction''
             = [\<lparr>ev_name = ''LEFT'', ev_cls = ''Direction''\<rparr>]"
    by (simp_all add: values_of_class_def collected_small)
  have h: "\<forall>c\<in>set (declared_classes scanned_entries). values_of_class scanned_entries c \<noteq> []"
    by (simp add: declared_small v)
  note t = enum_partition [OF patch_small pops_state_small d h]
  from t have
    e: "def_enum small_buckets
          = sort_key ec_name
              (map (\<lambda>c. \<lparr>ec_name = c, ec_values = Some (values_of_class scanned_entries c)\<rparr>)
                 (declared_classes scanned_entries))"
    and l: "def_val small_buckets
          = (\<lambda>k. if k \<in> set (declared_classes scanned_entries)
                     \<or> values_of_class scanned_entries k = [] then None
                else Some (values_of_class scanned_entries k))"
    and r: "\<not> isl (render (def_import small_state) small_buckets)"
    unfolding collect_small by (simp_all only: sum.case prod.case simp_thms)
  have e': "def_enum small_buckets
       = sort_key ec_name
           [\<lparr>ec_name = ''StockCursor'',
              ec_values = Some (values_of_class scanned_entries ''StockCursor'')\<rparr>,
            \<lparr>ec_name = ''Direction'',
              ec_values = Some (values_of_class scanned_entries ''Direction'')\<rparr>]"
    using e unfolding declared_small by simp
  have "def_val small_buckets ''Unlisted''
          = Some (values_of_class scanned_entries ''Unlisted'')"
    unfolding l by (simp add: declared_small values_of_class_def collected_small)
  then have l': "def_val small_buckets ''Unlisted''
                   = Some [\<lparr>ev_name = ''ORPHAN'', ev_cls = ''Unlisted''\<rparr>]"
    by (simp add: values_of_class_def collected_small)
  from collect_small declared_small e' l' r show ?thesis by (intro conjI)
qed

text \<open>
  The claim C2 as stated has an error raised for every collected value whose owner is
  not a declared enumeration. In the small namespace \<^verbatim>\<open>ORPHAN\<close> is a value of
  \<^verbatim>\<open>Unlisted\<close>, which is not among the names scanned: the run finishes normally, the stub
  has the classes \<^verbatim>\<open>Direction\<close> and \<^verbatim>\<open>StockCursor\<close> with their values, \<^verbatim>\<open>ORPHAN\<close> is
  in neither, and the summary is the only line printed.
\<close>

theorem undeclared_owner_dropped:
  "read_stubs [] (Some EnumTypeObj) small_namespace = Inr small_state
   \<and> pop_names (mod_dict small_state)
       = Inr (scanned_entries, empty_buckets\<lparr>def_const := overload_consts\<rparr>)
   \<and> collected_values scanned_entries
       = [\<lparr>ev_name = ''CURSOR_NONE'', ev_cls = ''StockCursor''\<rparr>,
          \<lparr>ev_name = ''LEFT'', ev_cls = ''Direction''\<rparr>,
          \<lparr>ev_name = ''ORPHAN'', ev_cls = ''Unlisted''\<rparr>]
   \<and> declared_classes scanned_entries = [''StockCursor'', ''Direction'']
   \<and> run [] (Some EnumTypeObj) small_namespace
     = Inr (template_format
              ''Frame: Any  # window''
              []
              []
              (join (nl @ nl)
                 [join nl [''class Direction(_WxSipEnumtype):'', ''    LEFT = ...'', [],
                           ''LEFT: Literal[Direction.LEFT]''],
                  join nl [''class StockCursor(_WxSipEnumtype):'', ''    CURSOR_NONE = ...'', [],
                           ''CURSOR_NONE: Literal[StockCursor.CURSOR_NONE]'']])
              (join nl [''ID_ANY: Literal[-1]'', ''PanelNameStr: Literal['' @ squote ''panel'' @ '']'',
                        ''BLACK: Colour'', ''TIMER_CONTINUOUS: bool'', ''TIMER_ONE_SHOT: bool'',
                        ''VERSION: tuple[int, int, int, str]'', ''PlatformInfo: tuple[str, ...]'',
                        ''EVT_BUTTON: PyEventBinder''])
              [],
            [''0 out of 1 classes or functions done (0%).''])"
  by (intro conjI)
    (rule patch_small, rule pops_state_small, rule collected_small, rule declared_small,
     rule run_small)


end
